(* ===== verification/Prelude.thy ===== *)
theory Prelude
  imports Complex_Main "HOL-Library.Word"
begin

section \<open>Shared types, automation and list lemmas\<close>

text \<open>
  The types every component of the development uses and the lemmas they share.

  A Go \<open>error\<close> is represented by the text its \<open>Error()\<close> method returns; a call that returns
  \<open>(T, error)\<close> is modelled by a sum, the error on the left. Audio data are lists of 8-bit
  words, Go strings are lists of characters (bytes). An instant (\<open>time.Time\<close>) is an integer
  number of nanoseconds; a variable that may hold Go's zero time is an option. A duration is an
  integer number of nanoseconds, and its \<open>Seconds()\<close> the exact rational number.
\<close>

type_synonym byte = "8 word"
type_synonym bytes = "byte list"
type_synonym goerror = string
type_synonym instant = int
type_synonym duration = int

definition nanoseconds_per_second :: int where
  "nanoseconds_per_second = 1000000000"

definition go_seconds :: "int \<Rightarrow> duration" where
  "go_seconds n = n * nanoseconds_per_second"

definition seconds_of :: "duration \<Rightarrow> rat" where
  "seconds_of d = of_int d / of_int nanoseconds_per_second"

text \<open>Collections of rewrite rules: the operations of the gateway's world and of the operator's
  status records, unfolded together in the component proofs.\<close>

named_theorems world_defs
named_theorems resp_defs
named_theorems status_defs

lemma seconds_of_nonneg [simp]: "0 \<le> d \<Longrightarrow> 0 \<le> seconds_of d"
  by (simp add: seconds_of_def nanoseconds_per_second_def)

lemma seconds_of_le_iff: "seconds_of a \<le> seconds_of b \<longleftrightarrow> a \<le> b"
  by (simp add: seconds_of_def nanoseconds_per_second_def divide_right_mono field_simps)

text \<open>Writing a Go slice into a window of another: \<open>copy(buf[off:], src)\<close> copies
  \<open>min(len(src), len(buf) - off)\<close> bytes. The slice expression panics when \<open>off\<close> exceeds the
  length.\<close>

definition copy_at :: "'a list \<Rightarrow> nat \<Rightarrow> 'a list \<Rightarrow> 'a list option" where
  "copy_at buf off src =
     (if length buf < off then None
      else (let n = min (length src) (length buf - off)
            in Some (take off buf @ take n src @ drop (off + n) buf)))"

lemma copy_at_length: "copy_at buf off src = Some buf' \<Longrightarrow> length buf' = length buf"
  by (auto simp: copy_at_def Let_def split: if_splits)

lemma copy_at_append:
  "length xs = off \<Longrightarrow> length src \<le> length ys \<Longrightarrow>
   copy_at (xs @ ys) off src = Some (xs @ src @ drop (length src) ys)"
  by (simp add: copy_at_def Let_def min_def)

lemma unat_byte_less: "unat (b :: byte) < 256"
  using unsigned_less [of b, where ?'a = nat] by simp

text \<open>Association lists read the way Go code reads a list of pairs: the first match wins.\<close>

fun lookup_first :: "'k \<Rightarrow> ('k \<times> 'v) list \<Rightarrow> 'v option" where
  "lookup_first k [] = None"
| "lookup_first k ((k', v) # xs) = (if k' = k then Some v else lookup_first k xs)"

lemma lookup_first_map_of: "lookup_first k xs = map_of xs k"
  by (induction xs) auto

lemma sum_list_map_length_concat: "sum_list (map length xss) = length (concat xss)"
  by (induction xss) auto

lemma dropWhile_rev_idem:
  "dropWhile P (rev (dropWhile P (rev (dropWhile P xs)))) = rev (dropWhile P (rev (dropWhile P xs)))"
proof (cases "rev (dropWhile P (rev (dropWhile P xs)))")
  case Nil
  then show ?thesis by (simp only: dropWhile.simps)
next
  case (Cons y ys)
  obtain zs where zs: "dropWhile P xs = (y # ys) @ zs"
    by (metis Cons rev_append rev_rev_ident takeWhile_dropWhile_id)
  then have "\<not> P y"
    by (metis append_Cons hd_dropWhile list.distinct(1) list.sel(1))
  then show ?thesis using Cons by simp
qed

end
