(* ===== verification/GoStrings.thy ===== *)
theory GoStrings
  imports Prelude "HOL-Library.Char_ord"
begin

section \<open>The string functions the program uses\<close>

text \<open>
  Models of the Go standard library's string functions, as far as the program uses them:
  \<open>strings.Split\<close> with a one-byte separator, \<open>strings.ToLower\<close>, \<open>strings.TrimSpace\<close>,
  \<open>strconv.Itoa\<close> (the \<open>%d\<close> verb), the \<open>%.4f\<close> verb, \<open>hex.EncodeToString\<close>, and
  \<open>filepath.Clean\<close> / \<open>filepath.Join\<close> on Unix. \<open>ToLower\<close>, \<open>TrimSpace\<close> and the
  folding of JSON keys are modelled on ASCII: bytes from 128 up are left as they are.
\<close>

subsection \<open>Case, white space, splitting\<close>

definition ascii_lower :: "char \<Rightarrow> char" where
  "ascii_lower c =
     (if 65 \<le> (of_char c :: nat) \<and> (of_char c :: nat) \<le> 90 then char_of ((of_char c :: nat) + 32) else c)"

definition to_lower :: "string \<Rightarrow> string" where
  "to_lower s = map ascii_lower s"

definition is_space :: "char \<Rightarrow> bool" where
  "is_space c \<longleftrightarrow> (of_char c :: nat) \<in> {9, 10, 11, 12, 13, 32}"

definition trim_space :: "string \<Rightarrow> string" where
  "trim_space s = rev (dropWhile is_space (rev (dropWhile is_space s)))"

fun split_on :: "char \<Rightarrow> string \<Rightarrow> string list" where
  "split_on sep [] = [[]]"
| "split_on sep (c # cs) =
     (if c = sep then [] # split_on sep cs
      else (case split_on sep cs of [] \<Rightarrow> [[c]] | w # ws \<Rightarrow> (c # w) # ws))"

fun join_with :: "string \<Rightarrow> string list \<Rightarrow> string" where
  "join_with sep [] = []"
| "join_with sep [w] = w"
| "join_with sep (w # ws) = w @ sep @ join_with sep ws"

lemma ascii_lower_idem [simp]: "ascii_lower (ascii_lower c) = ascii_lower c"
  by (simp add: ascii_lower_def)

lemma to_lower_idem [simp]: "to_lower (to_lower s) = to_lower s"
  by (simp add: to_lower_def)

lemma is_space_lower [simp]: "is_space (ascii_lower c) = is_space c"
  by (auto simp: is_space_def ascii_lower_def)

lemma trim_space_idem [simp]: "trim_space (trim_space s) = trim_space s"
  by (simp add: trim_space_def dropWhile_rev_idem)

lemma to_lower_trim: "to_lower (trim_space s) = trim_space (to_lower s)"
  by (simp add: to_lower_def trim_space_def rev_map dropWhile_map o_def)

lemma split_on_nonempty [simp]: "split_on sep s \<noteq> []"
  by (induction s) (auto split: list.splits)

lemma split_on_no_sep: "w \<in> set (split_on sep s) \<Longrightarrow> sep \<notin> set w"
proof (induction s arbitrary: w)
  case Nil
  then show ?case by simp
next
  case (Cons c cs)
  then show ?case by (cases "split_on sep cs") (auto split: if_splits)
qed

lemma join_split: "join_with [sep] (split_on sep s) = s"
proof (induction s)
  case Nil
  then show ?case by simp
next
  case (Cons c cs)
  obtain w ws where "split_on sep cs = w # ws"
    by (meson list.exhaust split_on_nonempty)
  with Cons show ?case by (cases ws) auto
qed

lemma split_on_id: "sep \<notin> set s \<Longrightarrow> split_on sep s = [s]"
  by (induction s) auto

lemma split_on_append_sep:
  "sep \<notin> set w \<Longrightarrow> split_on sep (w @ sep # s) = w # split_on sep s"
  by (induction w) auto

lemma split_join:
  "ws \<noteq> [] \<Longrightarrow> \<forall>w \<in> set ws. sep \<notin> set w \<Longrightarrow> split_on sep (join_with [sep] ws) = ws"
  by (induction "[sep]" ws rule: join_with.induct) (auto simp: split_on_id split_on_append_sep)

subsection \<open>Numbers as text\<close>

definition digit_char :: "nat \<Rightarrow> char" where
  "digit_char d = char_of (48 + d)"

fun string_of_nat :: "nat \<Rightarrow> string" where
  "string_of_nat n =
     (if n < 10 then [digit_char n] else string_of_nat (n div 10) @ [digit_char (n mod 10)])"

declare string_of_nat.simps [simp del]

definition string_of_int :: "int \<Rightarrow> string" where
  "string_of_int i = (if i < 0 then CHR ''-'' # string_of_nat (nat (- i)) else string_of_nat (nat i))"

definition digit_value :: "char \<Rightarrow> nat option" where
  "digit_value c =
     (let n = (of_char c :: nat) in if 48 \<le> n \<and> n \<le> 57 then Some (n - 48) else None)"

fun nat_of_digits :: "nat \<Rightarrow> string \<Rightarrow> nat option" where
  "nat_of_digits acc [] = Some acc"
| "nat_of_digits acc (c # cs) =
     (case digit_value c of None \<Rightarrow> None | Some d \<Rightarrow> nat_of_digits (10 * acc + d) cs)"

lemma of_char_digit_char: "d < 10 \<Longrightarrow> (of_char (digit_char d) :: nat) = 48 + d"
  by (simp add: digit_char_def)

lemma digit_value_digit_char [simp]: "d < 10 \<Longrightarrow> digit_value (digit_char d) = Some d"
  by (simp add: digit_value_def of_char_digit_char)

lemma nat_of_digits_append:
  "nat_of_digits acc (xs @ ys) =
     (case nat_of_digits acc xs of None \<Rightarrow> None | Some a \<Rightarrow> nat_of_digits a ys)"
  by (induction xs arbitrary: acc) (auto split: option.splits)

lemma nat_of_digits_string_of_nat: "nat_of_digits 0 (string_of_nat n) = Some n"
proof (induction n rule: string_of_nat.induct)
  case (1 n)
  show ?case
  proof (cases "n < 10")
    case True
    then show ?thesis by (simp add: string_of_nat.simps)
  next
    case False
    with 1 show ?thesis
      by (simp add: string_of_nat.simps [of n] nat_of_digits_append)
  qed
qed

lemma string_of_nat_inj: "string_of_nat m = string_of_nat n \<longleftrightarrow> m = n"
  by (metis nat_of_digits_string_of_nat option.inject)

lemma string_of_nat_not_Nil [simp]: "string_of_nat n \<noteq> []"
  by (subst string_of_nat.simps) simp

text \<open>The \<open>%.4f\<close> verb on an exact value: rounded to ten-thousandths, ties to even.\<close>

definition round_half_even :: "rat \<Rightarrow> int" where
  "round_half_even q =
     (let f = \<lfloor>q\<rfloor>; d = q - of_int f
      in if d < 1/2 then f else if 1/2 < d then f + 1 else if even f then f else f + 1)"

definition format_f4 :: "rat \<Rightarrow> string" where
  "format_f4 q =
     (let n = nat (round_half_even (\<bar>q\<bar> * 10000));
          frac = string_of_nat (n mod 10000)
      in (if q < 0 then ''-'' else '''') @ string_of_nat (n div 10000) @ ''.'' @
         replicate (4 - length frac) CHR ''0'' @ frac)"

subsection \<open>Hexadecimal encoding\<close>

definition hex_digit :: "nat \<Rightarrow> char" where
  "hex_digit n = (if n < 10 then char_of (48 + n) else char_of (87 + n))"

definition hex_encode :: "bytes \<Rightarrow> string" where
  "hex_encode bs = concat (map (\<lambda>b. [hex_digit (unat b div 16), hex_digit (unat b mod 16)]) bs)"

definition is_hex_char :: "char \<Rightarrow> bool" where
  "is_hex_char c \<longleftrightarrow> c \<in> set ''0123456789abcdef''"

lemma hex_digit_is_hex: "n < 16 \<Longrightarrow> is_hex_char (hex_digit n)"
proof -
  assume "n < 16"
  then have "n \<in> {0..<16}" by simp
  moreover have "\<forall>k \<in> {0..<16}. is_hex_char (hex_digit k)" by code_simp
  ultimately show ?thesis by blast
qed

lemma hex_encode_length [simp]: "length (hex_encode bs) = 2 * length bs"
  by (induction bs) (auto simp: hex_encode_def)

lemma hex_encode_chars: "c \<in> set (hex_encode bs) \<Longrightarrow> is_hex_char c"
proof -
  have "unat b div 16 < 16" for b :: byte
    using unat_byte_less [of b] by simp
  then show "c \<in> set (hex_encode bs) \<Longrightarrow> is_hex_char c"
    by (auto simp: hex_encode_def intro: hex_digit_is_hex)
qed

subsection \<open>File paths\<close>

text \<open>
  \<open>filepath.Clean\<close> on Unix: empty and \<open>.\<close> elements are dropped, \<open>..\<close> removes the element
  before it, a leading \<open>..\<close> stays in a relative path and is dropped in a rooted one. The
  second argument of \<open>clean_elems\<close> is the output so far, last element first.
\<close>

fun clean_elems :: "bool \<Rightarrow> string list \<Rightarrow> string list \<Rightarrow> string list" where
  "clean_elems rooted out [] = rev out"
| "clean_elems rooted out (w # ws) =
     (if w = '''' \<or> w = ''.'' then clean_elems rooted out ws
      else if w = ''..'' then
        (case out of
           [] \<Rightarrow> clean_elems rooted (if rooted then [] else [''..'']) ws
         | a # as \<Rightarrow> if a = ''..'' then clean_elems rooted (''..'' # out) ws
                     else clean_elems rooted as ws)
      else clean_elems rooted (w # out) ws)"

definition is_rooted :: "string \<Rightarrow> bool" where
  "is_rooted p \<longleftrightarrow> (case p of c # _ \<Rightarrow> c = CHR ''/'' | [] \<Rightarrow> False)"

definition path_elems :: "string \<Rightarrow> string list" where
  "path_elems p = clean_elems (is_rooted p) [] (split_on CHR ''/'' p)"

definition path_clean :: "string \<Rightarrow> string" where
  "path_clean p =
     (let es = path_elems p
      in if is_rooted p then CHR ''/'' # join_with ''/'' es
         else if es = [] then ''.'' else join_with ''/'' es)"

text \<open>\<open>filepath.Join(dir, name)\<close> skips empty leading elements.\<close>

definition path_join :: "string \<Rightarrow> string \<Rightarrow> string" where
  "path_join dir name =
     (if dir \<noteq> [] then path_clean (dir @ ''/'' @ name)
      else if name \<noteq> [] then path_clean name else '''')"

definition plain_element :: "string \<Rightarrow> bool" where
  "plain_element w \<longleftrightarrow> CHR ''/'' \<notin> set w \<and> w \<noteq> '''' \<and> w \<noteq> ''.'' \<and> w \<noteq> ''..''"

lemma split_on_append:
  "split_on sep (xs @ sep # ys) = split_on sep xs @ split_on sep ys"
proof (induction xs)
  case Nil
  then show ?case by simp
next
  case (Cons c cs)
  then show ?case by (cases "split_on sep cs") auto
qed

lemma clean_elems_snoc:
  "plain_element w \<Longrightarrow> clean_elems rooted out (ws @ [w]) = clean_elems rooted out ws @ [w]"
  by (induction rooted out ws rule: clean_elems.induct)
     (auto simp: plain_element_def split: list.splits)

lemma clean_elems_no_slash:
  "\<forall>w \<in> set out \<union> set ws. CHR ''/'' \<notin> set w \<Longrightarrow>
   e \<in> set (clean_elems rooted out ws) \<Longrightarrow> CHR ''/'' \<notin> set e"
proof (induction rooted out ws arbitrary: e rule: clean_elems.induct)
  case (1 rooted out)
  then show ?case by auto
next
  case (2 rooted out w ws)
  then show ?case by (auto split: if_splits list.splits)
qed

lemma path_elems_no_slash: "e \<in> set (path_elems p) \<Longrightarrow> CHR ''/'' \<notin> set e"
  using clean_elems_no_slash [of "[]" "split_on CHR ''/'' p" e "is_rooted p"]
  by (simp add: path_elems_def split_on_no_sep)

lemma is_rooted_append: "dir \<noteq> [] \<Longrightarrow> is_rooted (dir @ xs) = is_rooted dir"
  by (cases dir) (auto simp: is_rooted_def)

lemma path_elems_join:
  assumes "dir \<noteq> []" and "plain_element name"
  shows "path_elems (dir @ CHR ''/'' # name) = path_elems dir @ [name]"
proof -
  have "split_on CHR ''/'' name = [name]"
    using assms(2) by (simp add: plain_element_def split_on_id)
  then show ?thesis
    using assms by (simp add: path_elems_def split_on_append is_rooted_append clean_elems_snoc)
qed

text \<open>A plain element joined to a directory names a file directly inside it.\<close>

lemma path_join_plain:
  assumes "dir \<noteq> []" and "plain_element name"
  shows "path_join dir name =
    (if is_rooted dir then ''/'' else '''') @ join_with ''/'' (path_elems dir @ [name])"
  using assms
  by (simp add: path_join_def path_clean_def path_elems_join is_rooted_append)

lemma path_elems_plain: "plain_element name \<Longrightarrow> path_elems name = [name]"
  by (simp add: path_elems_def plain_element_def split_on_id)

lemma is_rooted_plain: "plain_element name \<Longrightarrow> \<not> is_rooted name"
  by (cases name) (auto simp: plain_element_def is_rooted_def)

lemma path_join_plain_empty: "plain_element name \<Longrightarrow> path_join '''' name = name"
  by (auto simp: path_join_def path_clean_def path_elems_plain is_rooted_plain plain_element_def)

lemma path_join_inj_nonempty:
  assumes "dir \<noteq> []" and "plain_element m" and "plain_element n"
    and eq: "path_join dir m = path_join dir n"
  shows "m = n"
proof -
  let ?es = "path_elems dir"
  have slash: "\<forall>w \<in> set (?es @ [m]). CHR ''/'' \<notin> set w" "\<forall>w \<in> set (?es @ [n]). CHR ''/'' \<notin> set w"
    using assms(2,3) path_elems_no_slash by (auto simp: plain_element_def)
  have "join_with ''/'' (?es @ [m]) = join_with ''/'' (?es @ [n])"
    using eq assms(1-3) by (simp add: path_join_plain)
  then have "split_on CHR ''/'' (join_with ''/'' (?es @ [m])) =
             split_on CHR ''/'' (join_with ''/'' (?es @ [n]))" by simp
  then have "?es @ [m] = ?es @ [n]"
    using split_join [OF _ slash(1)] split_join [OF _ slash(2)] by simp
  then show ?thesis by simp
qed

lemma path_join_inj:
  "plain_element m \<Longrightarrow> plain_element n \<Longrightarrow> path_join dir m = path_join dir n \<longleftrightarrow> m = n"
  using path_join_inj_nonempty [of dir m n] path_join_plain_empty [of m] path_join_plain_empty [of n]
  by (cases "dir = []") auto

lemma plain_element_suffix:
  "CHR ''/'' \<notin> set rid \<Longrightarrow> plain_element (rid @ ''.jsonl'')"
  by (auto simp: plain_element_def append_eq_Cons_conv)

end
