(* ===== verification/Json.thy ===== *)
theory Json
  imports GoStrings
begin

section \<open>JSON values and decoding\<close>

text \<open>
  What the program uses of \<open>encoding/json\<close>: JSON values, the text parser behind
  \<open>json.Unmarshal\<close> and \<open>json.Decoder.Decode\<close>, and the decoding of a value into the
  fields of a struct. A number is an integer literal (\<open>JInt\<close>) or a literal with a fraction or
  an exponent (\<open>JFloat\<close>, its exact value). The wording of the library's own syntax and type
  errors is represented by one constant text each, and its nesting limit of 10000 is left out.
\<close>

datatype json =
    JNull
  | JBool bool
  | JInt int
  | JFloat rat
  | JStr string
  | JArr "json list"
  | JObj "(string \<times> json) list"

subsection \<open>The parser\<close>

definition json_ws :: "char \<Rightarrow> bool" where
  "json_ws c \<longleftrightarrow> (of_char c :: nat) \<in> {9, 10, 13, 32}"

definition skip_ws :: "string \<Rightarrow> string" where
  "skip_ws s = dropWhile json_ws s"

definition hex_value :: "char \<Rightarrow> nat option" where
  "hex_value c =
     (let n = (of_char c :: nat)
      in if 48 \<le> n \<and> n \<le> 57 then Some (n - 48)
         else if 97 \<le> n \<and> n \<le> 102 then Some (n - 87)
         else if 65 \<le> n \<and> n \<le> 70 then Some (n - 55) else None)"

definition hex4 :: "char \<Rightarrow> char \<Rightarrow> char \<Rightarrow> char \<Rightarrow> nat option" where
  "hex4 a b c d =
     (case (hex_value a, hex_value b, hex_value c, hex_value d) of
        (Some w, Some x, Some y, Some z) \<Rightarrow> Some (4096 * w + 256 * x + 16 * y + z)
      | _ \<Rightarrow> None)"

definition utf8_encode :: "nat \<Rightarrow> string" where
  "utf8_encode n =
     (if n < 128 then [char_of n]
      else if n < 2048 then [char_of (192 + n div 64), char_of (128 + n mod 64)]
      else if n < 65536 then
        [char_of (224 + n div 4096), char_of (128 + n div 64 mod 64), char_of (128 + n mod 64)]
      else [char_of (240 + n div 262144), char_of (128 + n div 4096 mod 64),
            char_of (128 + n div 64 mod 64), char_of (128 + n mod 64)])"

definition is_surrogate :: "nat \<Rightarrow> bool" where
  "is_surrogate n \<longleftrightarrow> 55296 \<le> n \<and> n < 57344"

definition surrogate_pair :: "nat \<Rightarrow> nat \<Rightarrow> nat option" where
  "surrogate_pair hi lo =
     (if 55296 \<le> hi \<and> hi < 56320 \<and> 56320 \<le> lo \<and> lo < 57344
      then Some ((hi - 55296) * 1024 + (lo - 56320) + 65536) else None)"

definition simple_escape :: "char \<Rightarrow> char option" where
  "simple_escape c =
     (if c = CHR 0x22 \<or> c = CHR 0x5C \<or> c = CHR ''/'' then Some c
      else if c = CHR ''b'' then Some (char_of (8 :: nat))
      else if c = CHR ''f'' then Some (char_of (12 :: nat))
      else if c = CHR ''n'' then Some (char_of (10 :: nat))
      else if c = CHR ''r'' then Some (char_of (13 :: nat))
      else if c = CHR ''t'' then Some (char_of (9 :: nat)) else None)"

text \<open>The escape \<open>\u\<close> followed by four hexadecimal digits, at the start of a text.\<close>

fun unicode_escape :: "string \<Rightarrow> (nat \<times> string) option" where
  "unicode_escape (a # b # c # d # rest) = map_option (\<lambda>n. (n, rest)) (hex4 a b c d)"
| "unicode_escape _ = None"

fun second_escape :: "string \<Rightarrow> (nat \<times> string) option" where
  "second_escape (a # b # rest) =
     (if a = CHR 0x5C \<and> b = CHR ''u'' then unicode_escape rest else None)"
| "second_escape _ = None"

definition decode_unicode :: "string \<Rightarrow> (string \<times> string) option" where
  "decode_unicode s =
     (case unicode_escape s of
        None \<Rightarrow> None
      | Some (n, rest) \<Rightarrow>
          if is_surrogate n then
            (case second_escape rest of
               None \<Rightarrow> Some (utf8_encode 65533, rest)
             | Some (m, rest') \<Rightarrow>
                 (case surrogate_pair n m of
                    None \<Rightarrow> Some (utf8_encode 65533, rest)
                  | Some p \<Rightarrow> Some (utf8_encode p, rest')))
          else Some (utf8_encode n, rest))"

lemma unicode_escape_shorter: "unicode_escape s = Some (n, r) \<Longrightarrow> length r < length s"
  by (cases s rule: unicode_escape.cases) auto

lemma second_escape_shorter: "second_escape s = Some (n, r) \<Longrightarrow> length r < length s"
  by (cases s rule: second_escape.cases) (auto dest: unicode_escape_shorter split: if_splits)

lemma decode_unicode_shorter: "decode_unicode s = Some (t, r) \<Longrightarrow> length r < length s"
  by (auto simp: decode_unicode_def split: option.splits if_splits
        dest!: unicode_escape_shorter second_escape_shorter)

text \<open>The body of a string, after its opening quote.\<close>

function parse_string :: "string \<Rightarrow> (string \<times> string) option" where
  "parse_string [] = None"
| "parse_string (c # cs) =
     (if c = CHR 0x22 then Some ([], cs)
      else if c = CHR 0x5C then
        (case cs of
           [] \<Rightarrow> None
         | e # es \<Rightarrow>
             if e = CHR ''u'' then
               (case decode_unicode es of
                  None \<Rightarrow> None
                | Some (t, rest) \<Rightarrow> map_option (\<lambda>(u, r). (t @ u, r)) (parse_string rest))
             else
               (case simple_escape e of
                  None \<Rightarrow> None
                | Some x \<Rightarrow> map_option (\<lambda>(u, r). (x # u, r)) (parse_string es)))
      else if (of_char c :: nat) < 32 then None
      else map_option (\<lambda>(u, r). (c # u, r)) (parse_string cs))"
  by pat_completeness auto
termination
  by (relation "measure length") (auto dest: decode_unicode_shorter)

lemma parse_string_shorter: "parse_string s = Some (t, r) \<Longrightarrow> length r < length s"
proof (induction s arbitrary: t r rule: parse_string.induct)
  case 1
  then show ?case by simp
next
  case (2 c cs)
  then show ?case
    by (force split: if_splits list.splits option.splits dest: decode_unicode_shorter)
qed

declare parse_string.simps [simp del]

text \<open>Numbers: an optional sign, an integer part without a leading zero, an optional fraction
  and an optional exponent.\<close>

definition is_digit :: "char \<Rightarrow> bool" where
  "is_digit c \<longleftrightarrow> digit_value c \<noteq> None"

definition digits_value :: "string \<Rightarrow> nat" where
  "digits_value ds = (case nat_of_digits 0 ds of Some n \<Rightarrow> n | None \<Rightarrow> 0)"

definition parse_int_part :: "string \<Rightarrow> (string \<times> string) option" where
  "parse_int_part s =
     (case s of
        [] \<Rightarrow> None
      | c # cs \<Rightarrow> if c = CHR ''0'' then Some ([c], cs)
                  else if is_digit c then Some (takeWhile is_digit s, dropWhile is_digit s)
                  else None)"

definition parse_fraction :: "string \<Rightarrow> (string \<times> string) option" where
  "parse_fraction s =
     (case s of
        c # cs \<Rightarrow> if c = CHR ''.'' then
                     (if takeWhile is_digit cs = [] then None
                      else Some (takeWhile is_digit cs, dropWhile is_digit cs))
                   else Some ([], s)
      | [] \<Rightarrow> Some ([], s))"

definition parse_exponent :: "string \<Rightarrow> (int option \<times> string) option" where
  "parse_exponent s =
     (case s of
        c # cs \<Rightarrow>
          if c = CHR ''e'' \<or> c = CHR ''E'' then
            (let neg = (case cs of x # _ \<Rightarrow> x = CHR ''-'' | [] \<Rightarrow> False);
                 ds = (case cs of x # xs \<Rightarrow> if x = CHR ''+'' \<or> x = CHR ''-'' then xs else cs | [] \<Rightarrow> []);
                 e = int (digits_value (takeWhile is_digit ds))
             in if takeWhile is_digit ds = [] then None
                else Some (Some (if neg then - e else e), dropWhile is_digit ds))
          else Some (None, s)
      | [] \<Rightarrow> Some (None, s))"

definition scale10 :: "rat \<Rightarrow> int \<Rightarrow> rat" where
  "scale10 q e = (if 0 \<le> e then q * 10 ^ nat e else q / 10 ^ nat (- e))"

definition parse_number :: "string \<Rightarrow> (json \<times> string) option" where
  "parse_number s =
     (let neg = (case s of c # _ \<Rightarrow> c = CHR ''-'' | [] \<Rightarrow> False);
          s1 = (if neg then tl s else s);
          sg = (if neg then - 1 else 1 :: int)
      in case parse_int_part s1 of
           None \<Rightarrow> None
         | Some (ip, s2) \<Rightarrow>
             (case parse_fraction s2 of
                None \<Rightarrow> None
              | Some (fp, s3) \<Rightarrow>
                  (case parse_exponent s3 of
                     None \<Rightarrow> None
                   | Some (ex, s4) \<Rightarrow>
                       if fp = [] \<and> ex = None then Some (JInt (sg * int (digits_value ip)), s4)
                       else Some (JFloat (scale10 (of_int (sg * int (digits_value (ip @ fp))))
                                     ((case ex of None \<Rightarrow> 0 | Some e \<Rightarrow> e) - int (length fp))), s4))))"

definition parse_literal :: "string \<Rightarrow> json \<Rightarrow> string \<Rightarrow> (json \<times> string) option" where
  "parse_literal word v s =
     (if take (length word) s = word then Some (v, drop (length word) s) else None)"

text \<open>
  Values, the elements of an array and the members of an object. Every call spends one unit of
  fuel; a value spends at most two units per character it consumes, so one more than twice the
  length of the text is enough (\<open>parse_value_fuel\<close> below).
\<close>

fun parse_value :: "nat \<Rightarrow> string \<Rightarrow> (json \<times> string) option"
and parse_elements :: "nat \<Rightarrow> string \<Rightarrow> (json list \<times> string) option"
and parse_members :: "nat \<Rightarrow> string \<Rightarrow> ((string \<times> json) list \<times> string) option" where
  "parse_value 0 s = None"
| "parse_value (Suc n) s =
     (case skip_ws s of
        [] \<Rightarrow> None
      | c # cs \<Rightarrow>
          if c = CHR ''{'' then
            (case skip_ws cs of
               [] \<Rightarrow> None
             | d # ds \<Rightarrow> if d = CHR ''}'' then Some (JObj [], ds)
                         else map_option (\<lambda>(ms, r). (JObj ms, r)) (parse_members n (d # ds)))
          else if c = CHR ''['' then
            (case skip_ws cs of
               [] \<Rightarrow> None
             | d # ds \<Rightarrow> if d = CHR '']'' then Some (JArr [], ds)
                         else map_option (\<lambda>(vs, r). (JArr vs, r)) (parse_elements n (d # ds)))
          else if c = CHR 0x22 then map_option (\<lambda>(t, r). (JStr t, r)) (parse_string cs)
          else if c = CHR ''t'' then parse_literal ''true'' (JBool True) (c # cs)
          else if c = CHR ''f'' then parse_literal ''false'' (JBool False) (c # cs)
          else if c = CHR ''n'' then parse_literal ''null'' JNull (c # cs)
          else parse_number (c # cs))"
| "parse_elements 0 s = None"
| "parse_elements (Suc n) s =
     (case parse_value n s of
        None \<Rightarrow> None
      | Some (v, r) \<Rightarrow>
          (case skip_ws r of
             [] \<Rightarrow> None
           | c # cs \<Rightarrow>
               if c = CHR '','' then map_option (\<lambda>(vs, r'). (v # vs, r')) (parse_elements n cs)
               else if c = CHR '']'' then Some ([v], cs) else None))"
| "parse_members 0 s = None"
| "parse_members (Suc n) s =
     (case skip_ws s of
        [] \<Rightarrow> None
      | q # qs \<Rightarrow>
          if q \<noteq> CHR 0x22 then None
          else (case parse_string qs of
                  None \<Rightarrow> None
                | Some (k, r) \<Rightarrow>
                    (case skip_ws r of
                       [] \<Rightarrow> None
                     | c # cs \<Rightarrow>
                         if c \<noteq> CHR '':'' then None
                         else (case parse_value n cs of
                                 None \<Rightarrow> None
                               | Some (v, r1) \<Rightarrow>
                                   (case skip_ws r1 of
                                      [] \<Rightarrow> None
                                    | d # ds \<Rightarrow>
                                        if d = CHR '','' then
                                          map_option (\<lambda>(ms, r'). ((k, v) # ms, r')) (parse_members n ds)
                                        else if d = CHR ''}'' then Some ([(k, v)], ds)
                                        else None)))))"

text \<open>\<open>json.Unmarshal\<close> wants one value and nothing but white space after it; a \<open>Decoder\<close>
  reads one value and leaves the rest.\<close>

definition json_syntax_error :: goerror where
  "json_syntax_error = ''invalid JSON''"

definition json_type_error :: goerror where
  "json_type_error = ''json: cannot unmarshal value into Go value of this type''"

definition json_unmarshal :: "string \<Rightarrow> goerror + json" where
  "json_unmarshal s =
     (case parse_value (Suc (2 * length s)) s of
        None \<Rightarrow> Inl json_syntax_error
      | Some (v, r) \<Rightarrow> if skip_ws r = [] then Inr v else Inl json_syntax_error)"

definition json_decode :: "string \<Rightarrow> goerror + json" where
  "json_decode s =
     (if skip_ws s = [] then Inl ''EOF''
      else case parse_value (Suc (2 * length s)) s of
             None \<Rightarrow> Inl json_syntax_error
           | Some (v, r) \<Rightarrow> Inr v)"

subsection \<open>Decoding a value into struct fields\<close>

text \<open>
  A key selects a field when it equals its name up to case. A field that occurs more than once
  takes its last value, \<open>null\<close> leaves a field unchanged, and a value of the wrong kind is
  recorded as the error of the whole decoding, which goes on with the other fields. Every field
  decoder returns whether it succeeded and the field's value.
\<close>

definition field_values :: "string \<Rightarrow> json \<Rightarrow> json list" where
  "field_values name j =
     (case j of JObj kvs \<Rightarrow> map snd (filter (\<lambda>(k, v). to_lower k = to_lower name) kvs) | _ \<Rightarrow> [])"

definition is_struct_value :: "json \<Rightarrow> bool" where
  "is_struct_value j \<longleftrightarrow> (case j of JObj _ \<Rightarrow> True | JNull \<Rightarrow> True | _ \<Rightarrow> False)"

definition decode_field :: "(json \<Rightarrow> 'a option) \<Rightarrow> 'a \<Rightarrow> string \<Rightarrow> json \<Rightarrow> bool \<times> 'a" where
  "decode_field conv zero name j =
     fold (\<lambda>v (ok, x). if v = JNull then (ok, x)
                       else case conv v of Some y \<Rightarrow> (ok, y) | None \<Rightarrow> (False, x))
       (field_values name j) (is_struct_value j, zero)"

definition json_string :: "json \<Rightarrow> string option" where
  "json_string v = (case v of JStr s \<Rightarrow> Some s | _ \<Rightarrow> None)"

definition json_bool :: "json \<Rightarrow> bool option" where
  "json_bool v = (case v of JBool b \<Rightarrow> Some b | _ \<Rightarrow> None)"

definition json_float :: "json \<Rightarrow> rat option" where
  "json_float v = (case v of JInt i \<Rightarrow> Some (of_int i) | JFloat q \<Rightarrow> Some q | _ \<Rightarrow> None)"

definition json_int32 :: "json \<Rightarrow> int option" where
  "json_int32 v =
     (case v of JInt i \<Rightarrow> if - 2147483648 \<le> i \<and> i < 2147483648 then Some i else None | _ \<Rightarrow> None)"

lemma skip_ws_shorter: "length (skip_ws s) \<le> length s"
  by (simp add: skip_ws_def length_dropWhile_le)

lemma skip_ws_Cons: "skip_ws s = c # cs \<Longrightarrow> length cs < length s"
  using skip_ws_shorter [of s] by simp

lemma decode_field_struct_error: "\<not> is_struct_value j \<Longrightarrow> decode_field conv zero name j = (False, zero)"
  by (cases j) (auto simp: decode_field_def field_values_def is_struct_value_def)

subsection \<open>The parser consumes its input, and its fuel is enough\<close>

lemma parse_literal_shorter:
  "parse_literal w v s = Some (v', r) \<Longrightarrow> w \<noteq> [] \<Longrightarrow> length r < length s"
  by (cases s; cases w) (auto simp: parse_literal_def split: if_splits)

lemma parse_int_part_shorter: "parse_int_part s = Some (t, r) \<Longrightarrow> length r < length s"
  by (auto simp: parse_int_part_def length_dropWhile_le less_Suc_eq_le split: list.splits if_splits)

lemma parse_fraction_shorter: "parse_fraction s = Some (t, r) \<Longrightarrow> length r \<le> length s"
  by (auto simp: parse_fraction_def length_dropWhile_le le_SucI split: list.splits if_splits)

lemma parse_exponent_shorter: "parse_exponent s = Some (t, r) \<Longrightarrow> length r \<le> length s"
  by (auto simp: parse_exponent_def Let_def length_dropWhile_le le_SucI split: list.splits if_splits)

lemma parse_number_shorter: "parse_number s = Some (v, r) \<Longrightarrow> length r < length s"
  by (cases s)
     (fastforce simp: parse_number_def Let_def split: option.splits prod.splits if_splits
        dest!: parse_int_part_shorter parse_fraction_shorter parse_exponent_shorter)+

lemma parse_shorter:
  "parse_value n s = Some (v, r) \<Longrightarrow> length r < length s"
  "parse_elements n s = Some (vs, r) \<Longrightarrow> length r < length s"
  "parse_members n s = Some (ms, r) \<Longrightarrow> length r < length s"
proof (induction n s and n s and n s arbitrary: v r and vs r and ms r
    rule: parse_value_parse_elements_parse_members.induct)
  case (2 n s)
  then show ?case
    by (fastforce split: list.splits if_splits option.splits
          dest!: skip_ws_Cons parse_string_shorter parse_literal_shorter parse_number_shorter)
next
  case (4 n s)
  then show ?case
    by (fastforce split: list.splits if_splits option.splits dest!: skip_ws_Cons)
next
  case (6 n s)
  then show ?case
    by (fastforce split: list.splits if_splits option.splits dest!: skip_ws_Cons parse_string_shorter)
qed auto

lemma skip_ws_Cons_le: "skip_ws s = c # cs \<Longrightarrow> Suc (length cs) \<le> length s"
  using skip_ws_Cons by fastforce

lemma parse_value_fuel_step:
  "2 * length s < n \<Longrightarrow> parse_value (Suc n) s = parse_value n s"
  "2 * length s + 1 < n \<Longrightarrow> parse_elements (Suc n) s = parse_elements n s"
  "2 * length s + 1 < n \<Longrightarrow> parse_members (Suc n) s = parse_members n s"
proof (induction n s and n s and n s rule: parse_value_parse_elements_parse_members.induct)
  case (2 n s)
  have inner: "2 * length (d # ds) + 1 < n" if "skip_ws s = c # cs" "skip_ws cs = d # ds" for c cs d ds
    using "2.prems" skip_ws_Cons_le [OF that(1)] skip_ws_Cons_le [OF that(2)] by simp
  have m: "parse_members (Suc n) (d # ds) = parse_members n (d # ds)"
    if "skip_ws s = c # cs" "c = CHR ''{''" "skip_ws cs = d # ds" "d \<noteq> CHR ''}''" for c cs d ds
    using "2.IH"(1) inner that by blast
  have e: "parse_elements (Suc n) (d # ds) = parse_elements n (d # ds)"
    if "skip_ws s = c # cs" "c = CHR ''[''" "skip_ws cs = d # ds" "d \<noteq> CHR '']''" for c cs d ds
    using "2.IH"(2) inner that by (auto simp del: parse_elements.simps)
  show ?case
    unfolding parse_value.simps(2) [of "Suc n"] parse_value.simps(2) [of n s]
    by (auto split: list.split simp: m e simp del: parse_elements.simps parse_members.simps)
next
  case (4 n s)
  have v: "parse_value (Suc n) s = parse_value n s" by (rule "4.IH"(1)) (use "4.prems" in simp)
  have e: "parse_elements (Suc n) cs = parse_elements n cs"
    if "parse_value n s = Some (v, r)" "skip_ws r = c # cs" "c = CHR '',''" for v r c cs
  proof -
    have "length r < length s" using that(1) by (rule parse_shorter(1))
    then have "2 * length cs + 1 < n" using "4.prems" skip_ws_Cons_le [OF that(2)] by linarith
    then show ?thesis using "4.IH"(2) that by blast
  qed
  show ?case
    unfolding parse_elements.simps(2) [of "Suc n"] parse_elements.simps(2) [of n s] v
    by (auto split: option.split list.split simp: e simp del: parse_elements.simps)
next
  case (6 n s)
  have len: "2 * length cs < n" if "skip_ws s = q # qs" "parse_string qs = Some (k, r)" "skip_ws r = c # cs"
    for q qs k r c cs
    using "6.prems" skip_ws_Cons_le [OF that(1)] parse_string_shorter [OF that(2)]
      skip_ws_Cons_le [OF that(3)] by linarith
  have v: "parse_value (Suc n) cs = parse_value n cs"
    if "skip_ws s = q # qs" "q = CHR 0x22" "parse_string qs = Some (k, r)" "skip_ws r = c # cs" "c = CHR '':''"
    for q qs k r c cs
    using "6.IH"(1) len [OF that(1,3,4)] that by (auto simp del: parse_value.simps)
  have m: "parse_members (Suc n) ds = parse_members n ds"
    if "skip_ws s = q # qs" "q = CHR 0x22" "parse_string qs = Some (k, r)" "skip_ws r = c # cs" "c = CHR '':''"
      "parse_value n cs = Some (v, r1)" "skip_ws r1 = d # ds" "d = CHR '',''"
    for q qs k r c cs v r1 d ds
  proof -
    have "2 * length ds + 1 < n"
      using len [OF that(1,3,4)] parse_shorter(1) [OF that(6)] skip_ws_Cons_le [OF that(7)] by linarith
    then show ?thesis using "6.IH"(2) that by (auto simp del: parse_members.simps)
  qed
  show ?case
    unfolding parse_members.simps(2) [of "Suc n"] parse_members.simps(2) [of n s]
    by (auto split: option.split list.split simp: v m simp del: parse_members.simps parse_value.simps)
qed auto

lemma parse_value_fuel: "2 * length s < n \<Longrightarrow> parse_value n s = parse_value (Suc (2 * length s)) s"
proof (induction n)
  case (Suc n)
  show ?case
  proof (cases "2 * length s < n")
    case True
    with Suc.IH show ?thesis by (simp only: parse_value_fuel_step(1))
  next
    case False
    with Suc.prems have "n = 2 * length s" by simp
    then show ?thesis by simp
  qed
qed simp

end
