(* ===== verification/Http.thy ===== *)
theory Http
  imports Json
begin

section \<open>HTTP as the gateway sees it\<close>

text \<open>
  The part of \<open>net/http\<close> and \<open>mime/multipart\<close> the gateway uses: the incoming request with
  its parsed form, the response writer and the wrappers the middleware puts around it, the
  outgoing requests, and the world a handler runs in.

  A handler runs against an environment (\<open>env\<close>): the readings of the clock and of the random
  source, the answers of the network, which may differ from call to call, and the URLs
  \<open>http.NewRequest\<close> rejects. The world (\<open>world\<close>) counts what was read, records every
  outgoing request, the access log and the metrics, and holds the state \<open>'l\<close> of the event log.
\<close>

subsection \<open>Incoming requests\<close>

text \<open>
  \<open>fm_values\<close> lists the form's values in the order \<open>FormValue\<close> looks at them, \<open>fm_files\<close> the
  uploaded files; reading a file may fail. \<open>rq_form\<close> is what the multipart parser makes of the
  body when nothing limits its size, and \<open>rq_form_bytes\<close> how many bytes it reads to do so.
\<close>

record upload =
  up_filename :: string
  up_size :: nat
  up_data :: "goerror + bytes"

record form =
  fm_values :: "(string \<times> string) list"
  fm_files :: "(string \<times> upload) list"

record request =
  rq_method :: string
  rq_path :: string
  rq_remote_addr :: string
  rq_request_id_header :: string
  rq_form_bytes :: nat
  rq_form :: "goerror + form"

text \<open>\<open>ParseMultipartForm\<close> on a body wrapped in \<open>http.MaxBytesReader\<close>.\<close>

definition parse_multipart_form :: "nat \<Rightarrow> request \<Rightarrow> goerror + form" where
  "parse_multipart_form max_bytes rq =
     (if max_bytes < rq_form_bytes rq then Inl ''http: request body too large'' else rq_form rq)"

definition form_value :: "form \<Rightarrow> string \<Rightarrow> string" where
  "form_value fm key = (case lookup_first key (fm_values fm) of Some v \<Rightarrow> v | None \<Rightarrow> '''')"

definition form_file :: "form \<Rightarrow> string \<Rightarrow> upload option" where
  "form_file fm key = lookup_first key (fm_files fm)"

subsection \<open>The response writer\<close>

text \<open>
  \<open>rs_header\<close> is the live header map, \<open>rs_sent\<close> the status and the headers put on the wire:
  the first \<open>WriteHeader\<close> (or the first write, with status 200) fixes them and later ones are
  ignored. \<open>rs_wrappers\<close> holds the \<open>statusCode\<close> of every \<open>responseWriter\<close> of middleware.go
  around the connection, the innermost handler's first: every \<open>WriteHeader\<close> passes through all
  of them, while an implicit 200 is sent by the connection without their knowledge. A hijacked
  connection no longer belongs to the server, which ignores further writes.
\<close>

datatype chunk = JsonBody json | TextBody string | MetricsBody

record resp =
  rs_header :: "string \<Rightarrow> string option"
  rs_sent :: "(nat \<times> (string \<Rightarrow> string option)) option"
  rs_body :: "chunk list"
  rs_wrappers :: "nat list"
  rs_can_hijack :: bool
  rs_hijacked :: bool

definition new_resp :: "bool \<Rightarrow> resp" where
  "new_resp can_hijack =
     \<lparr>rs_header = Map.empty, rs_sent = None, rs_body = [], rs_wrappers = [],
      rs_can_hijack = can_hijack, rs_hijacked = False\<rparr>"

definition set_header :: "string \<Rightarrow> string \<Rightarrow> resp \<Rightarrow> resp" where
  "set_header k v rs = rs\<lparr>rs_header := (rs_header rs)(k \<mapsto> v)\<rparr>"

definition base_write_header :: "nat \<Rightarrow> resp \<Rightarrow> resp" where
  "base_write_header code rs =
     (if rs_hijacked rs then rs
      else case rs_sent rs of
             Some _ \<Rightarrow> rs
           | None \<Rightarrow> rs\<lparr>rs_sent := Some (code, rs_header rs)\<rparr>)"

definition newResponseWriter :: "resp \<Rightarrow> resp" where
  "newResponseWriter rs = rs\<lparr>rs_wrappers := 200 # rs_wrappers rs\<rparr>"

definition write_header :: "nat \<Rightarrow> resp \<Rightarrow> resp" where
  "write_header code rs =
     base_write_header code (rs\<lparr>rs_wrappers := map (\<lambda>_. code) (rs_wrappers rs)\<rparr>)"

definition write_chunk :: "chunk \<Rightarrow> resp \<Rightarrow> resp" where
  "write_chunk c rs =
     (if rs_hijacked rs then rs
      else (let rs' = base_write_header 200 rs in rs'\<lparr>rs_body := rs_body rs' @ [c]\<rparr>))"

definition resp_hijack :: "resp \<Rightarrow> goerror + resp" where
  "resp_hijack rs =
     (if rs_can_hijack rs then Inr (rs\<lparr>rs_hijacked := True\<rparr>)
      else Inl ''ResponseWriter does not implement http.Hijacker'')"

text \<open>Leaving a middleware: the status its own wrapper saw, and the writer without it.\<close>

definition wrapper_status :: "resp \<Rightarrow> nat" where
  "wrapper_status rs = (case rs_wrappers rs of s # _ \<Rightarrow> s | [] \<Rightarrow> 200)"

definition pop_wrapper :: "resp \<Rightarrow> resp" where
  "pop_wrapper rs = rs\<lparr>rs_wrappers := tl (rs_wrappers rs)\<rparr>"

lemmas [resp_defs] =
  set_header_def base_write_header_def newResponseWriter_def write_header_def write_chunk_def
  wrapper_status_def pop_wrapper_def

subsection \<open>Outgoing requests\<close>

text \<open>
  A multipart body is its list of parts, in the order they were written. \<open>hr_body\<close> is what
  reading the whole response body yields.
\<close>

datatype part = FilePart string string bytes | FieldPart string string

datatype out_body = NoBody | MultipartOut "part list" | JsonOut json | BytesOut bytes

record out_request =
  or_method :: string
  or_url :: string
  or_content_type :: string
  or_body :: out_body

record http_response =
  hr_status :: int
  hr_body :: "goerror + string"

subsection \<open>Environment and world\<close>

text \<open>
  \<open>clk n\<close> is the n-th reading of the clock, \<open>rnd n i\<close> byte \<open>i\<close> of the n-th draw from
  \<open>crypto/rand\<close>, \<open>net n rq\<close> the answer to the n-th outgoing request, and \<open>url_error u\<close> the
  error \<open>http.NewRequestWithContext\<close> reports for the URL \<open>u\<close>, if any. \<open>label_rejected\<close> says
  which label values the Prometheus client refuses: its \<open>WithLabelValues\<close> panics on a label
  value that is not valid UTF-8.
\<close>

record env =
  clk :: "nat \<Rightarrow> instant"
  rnd :: "nat \<Rightarrow> nat \<Rightarrow> byte"
  net :: "nat \<Rightarrow> out_request \<Rightarrow> goerror + http_response"
  url_error :: "string \<Rightarrow> goerror option"
  label_rejected :: "string \<Rightarrow> bool"

record access_entry =
  al_request_id :: string
  al_method :: string
  al_path :: string
  al_status :: nat
  al_duration_ms :: int
  al_remote_addr :: string

record 'l world =
  w_clock :: nat
  w_rand :: nat
  w_sent :: "out_request list"
  w_events :: 'l
  w_access :: "access_entry list"
  w_requests_total :: "string \<times> string \<times> string \<Rightarrow> nat"
  w_durations :: "(string \<times> string \<times> duration) list"
  w_in_flight :: int

definition new_world :: "'l \<Rightarrow> 'l world" where
  "new_world l =
     \<lparr>w_clock = 0, w_rand = 0, w_sent = [], w_events = l, w_access = [],
      w_requests_total = (\<lambda>_. 0), w_durations = [], w_in_flight = 0\<rparr>"

definition time_now :: "env \<Rightarrow> 'l world \<Rightarrow> instant \<times> 'l world" where
  "time_now E w = (clk E (w_clock w), w\<lparr>w_clock := Suc (w_clock w)\<rparr>)"

definition time_since :: "env \<Rightarrow> instant \<Rightarrow> 'l world \<Rightarrow> duration \<times> 'l world" where
  "time_since E t w = (clk E (w_clock w) - t, w\<lparr>w_clock := Suc (w_clock w)\<rparr>)"

definition rand_bytes :: "env \<Rightarrow> nat \<Rightarrow> 'l world \<Rightarrow> bytes \<times> 'l world" where
  "rand_bytes E n w = (map (rnd E (w_rand w)) [0..<n], w\<lparr>w_rand := Suc (w_rand w)\<rparr>)"

definition http_do :: "env \<Rightarrow> out_request \<Rightarrow> 'l world \<Rightarrow> (goerror + http_response) \<times> 'l world" where
  "http_do E rq w = (net E (length (w_sent w)) rq, w\<lparr>w_sent := w_sent w @ [rq]\<rparr>)"

lemmas [world_defs] = time_now_def time_since_def rand_bytes_def http_do_def

definition monotone_clock :: "env \<Rightarrow> bool" where
  "monotone_clock E \<longleftrightarrow> (\<forall>i j. i \<le> j \<longrightarrow> clk E i \<le> clk E j)"

subsection \<open>Handlers\<close>

text \<open>A handler either returns or panics; the context carries the request id the middleware put
  there, if any.\<close>

datatype outcome = Returned | Panicked string

type_synonym reqctx = "string option"
type_synonym 'l handler = "request \<Rightarrow> reqctx \<Rightarrow> resp \<times> 'l world \<Rightarrow> outcome \<times> resp \<times> 'l world"

subsection \<open>Wrappers agree with the wire\<close>

text \<open>
  \<open>in_step rs\<close>: every wrapper's \<open>statusCode\<close> is the status on the wire, or 200 while nothing was
  sent. Handlers that send one header keep it; a second \<open>WriteHeader\<close> after the response was
  started breaks it.
\<close>

definition wire_status :: "resp \<Rightarrow> nat" where
  "wire_status rs = (case rs_sent rs of Some (c, _) \<Rightarrow> c | None \<Rightarrow> 200)"

definition in_step :: "resp \<Rightarrow> bool" where
  "in_step rs \<longleftrightarrow> (\<forall>s \<in> set (rs_wrappers rs). s = wire_status rs)"

text \<open>A fresh response: nothing was sent and the connection is still the server's.\<close>

definition fresh :: "resp \<Rightarrow> bool" where
  "fresh rs \<longleftrightarrow> rs_sent rs = None \<and> \<not> rs_hijacked rs"

lemma fresh_simps [simp]:
  "fresh (set_header k v rs) = fresh rs"
  "fresh (newResponseWriter rs) = fresh rs"
  "fresh (pop_wrapper rs) = fresh rs"
  by (auto simp: fresh_def resp_defs)

lemma fresh_new [simp]: "fresh (new_resp h)"
  by (simp add: fresh_def new_resp_def)

lemma in_step_new [simp]: "in_step (new_resp h)"
  by (simp add: in_step_def new_resp_def)

lemma in_step_set_header [simp]: "in_step (set_header k v rs) = in_step rs"
  by (simp add: in_step_def wire_status_def set_header_def)

lemma in_step_write_header:
  "rs_sent rs = None \<Longrightarrow> \<not> rs_hijacked rs \<Longrightarrow> in_step (write_header c rs)"
  by (auto simp: in_step_def wire_status_def resp_defs)

lemma in_step_write_chunk: "in_step rs \<Longrightarrow> in_step (write_chunk c rs)"
  by (auto simp: in_step_def wire_status_def resp_defs split: option.splits)

lemma in_step_pop: "in_step rs \<Longrightarrow> in_step (pop_wrapper rs)"
  by (auto simp: in_step_def wire_status_def pop_wrapper_def dest: list.set_sel(2) [rotated])
     (metis list.sel(2) list.set_sel(2))

lemma in_step_newResponseWriter: "in_step rs \<Longrightarrow> rs_sent rs = None \<Longrightarrow> in_step (newResponseWriter rs)"
  by (auto simp: in_step_def wire_status_def newResponseWriter_def)

lemma write_header_sent: "rs_sent rs = Some s \<Longrightarrow> rs_sent (write_header c rs) = Some s"
  by (auto simp: resp_defs)

lemma write_chunk_sent: "rs_sent rs = Some s \<Longrightarrow> rs_sent (write_chunk c rs) = Some s"
  by (auto simp: resp_defs Let_def)

lemma wrappers_length [simp]:
  "length (rs_wrappers (write_header c rs)) = length (rs_wrappers rs)"
  "length (rs_wrappers (write_chunk ch rs)) = length (rs_wrappers rs)"
  "length (rs_wrappers (set_header k v rs)) = length (rs_wrappers rs)"
  by (auto simp: resp_defs Let_def split: option.splits)


subsection \<open>A concrete environment\<close>

text \<open>A clock that advances one second a reading, a fixed random source and a network given by
  its answers: used to evaluate the handlers on concrete requests.\<close>

definition example_env :: "(nat \<Rightarrow> out_request \<Rightarrow> goerror + http_response) \<Rightarrow> env" where
  "example_env answers =
     \<lparr>clk = (\<lambda>n. 1000000000 * int n), rnd = (\<lambda>n i. word_of_nat (n + i)), net = answers,
      url_error = (\<lambda>u. None), label_rejected = (\<lambda>s. False)\<rparr>"

definition example_upload :: "string \<Rightarrow> bytes \<Rightarrow> upload" where
  "example_upload name data = \<lparr>up_filename = name, up_size = length data, up_data = Inr data\<rparr>"

definition example_request :: "string \<Rightarrow> string \<Rightarrow> form \<Rightarrow> request" where
  "example_request method path fm =
     \<lparr>rq_method = method, rq_path = path, rq_remote_addr = ''10.0.0.1:9'',
      rq_request_id_header = ''req-1'', rq_form_bytes = 10, rq_form = Inr fm\<rparr>"


subsection \<open>Handlers that leave the books alone\<close>

text \<open>The access log, the counters and the gauge belong to the middleware.\<close>

definition quiet :: "'l world \<Rightarrow> 'l world \<Rightarrow> bool" where
  "quiet w w' \<longleftrightarrow> w_in_flight w' = w_in_flight w \<and> w_access w' = w_access w \<and>
     w_requests_total w' = w_requests_total w \<and> w_durations w' = w_durations w"

lemma quiet_refl [simp]: "quiet w w"
  by (simp add: quiet_def)

lemma quiet_trans: "quiet w w1 \<Longrightarrow> quiet w1 w2 \<Longrightarrow> quiet w w2"
  by (simp add: quiet_def)

end
