(* ===== verification/ApiErrors.thy ===== *)
theory ApiErrors
  imports Http
begin

section \<open>Error responses (internal/gateway/errors.go) and writeJSON\<close>

text \<open>
  \<open>APIError\<close> and its JSON envelope, the error codes, \<open>RequestIDFromContext\<close> of request_id.go,
  \<open>writeError\<close>, and \<open>writeJSON\<close> of handlers.go. Encoding a value into an open connection is
  modelled as writing the JSON value; the handlers ignore the encoder's error.
\<close>

record APIError =
  ae_Code :: string
  ae_Message :: string
  ae_RequestID :: string

definition APIErrorResponse_json :: "APIError \<Rightarrow> json" where
  "APIErrorResponse_json e =
     JObj [(''error'', JObj [(''code'', JStr (ae_Code e)), (''message'', JStr (ae_Message e)),
                             (''request_id'', JStr (ae_RequestID e))])]"

definition ErrCodeBadRequest :: string where "ErrCodeBadRequest = ''bad_request''"
definition ErrCodeFileRequired :: string where "ErrCodeFileRequired = ''file_required''"
definition ErrCodeFileTooLarge :: string where "ErrCodeFileTooLarge = ''file_too_large''"
definition ErrCodeBackendError :: string where "ErrCodeBackendError = ''backend_error''"
definition ErrCodeBackendTimeout :: string where "ErrCodeBackendTimeout = ''backend_timeout''"
definition ErrCodeInternalError :: string where "ErrCodeInternalError = ''internal_error''"
definition ErrCodeServiceUnavail :: string where "ErrCodeServiceUnavail = ''service_unavailable''"

definition RequestIDFromContext :: "reqctx \<Rightarrow> string" where
  "RequestIDFromContext ctx = (case ctx of Some rid \<Rightarrow> rid | None \<Rightarrow> ''unknown'')"

definition write_body :: "nat \<Rightarrow> json \<Rightarrow> resp \<Rightarrow> resp" where
  "write_body status data rs =
     write_chunk (JsonBody data)
       (write_header status (set_header ''Content-Type'' ''application/json'' rs))"

definition writeError :: "reqctx \<Rightarrow> nat \<Rightarrow> string \<Rightarrow> string \<Rightarrow> resp \<Rightarrow> resp" where
  "writeError ctx status code message rs =
     (let requestID = RequestIDFromContext ctx
      in write_body status
           (APIErrorResponse_json
              \<lparr>ae_Code = code, ae_Message = message, ae_RequestID = requestID\<rparr>) rs)"

definition writeJSON :: "nat \<Rightarrow> json \<Rightarrow> resp \<Rightarrow> resp" where
  "writeJSON status data rs = write_body status data rs"

text \<open>What a client reads: the code, the message and the request id of an error envelope.\<close>

definition decode_api_error :: "json \<Rightarrow> APIError option" where
  "decode_api_error j =
     (case field_values ''error'' j of
        [e] \<Rightarrow>
          (let c = decode_field json_string '''' ''code'' e;
               m = decode_field json_string '''' ''message'' e;
               r = decode_field json_string '''' ''request_id'' e
           in if fst c \<and> fst m \<and> fst r
              then Some \<lparr>ae_Code = snd c, ae_Message = snd m, ae_RequestID = snd r\<rparr> else None)
      | _ \<Rightarrow> None)"

lemma to_lower_keys:
  "to_lower ''error'' = ''error''" "to_lower ''code'' = ''code''"
  "to_lower ''message'' = ''message''" "to_lower ''request_id'' = ''request_id''"
  by code_simp+

lemma decode_api_error_roundtrip: "decode_api_error (APIErrorResponse_json e) = Some e"
  by (cases e)
     (simp add: decode_api_error_def APIErrorResponse_json_def decode_field_def field_values_def
        is_struct_value_def json_string_def to_lower_keys)

lemma write_body_fresh:
  assumes "rs_sent rs = None" and "\<not> rs_hijacked rs"
  shows "rs_sent (write_body status data rs) =
           Some (status, (rs_header rs)(''Content-Type'' \<mapsto> ''application/json''))"
    and "rs_body (write_body status data rs) = rs_body rs @ [JsonBody data]"
    and "rs_wrappers (write_body status data rs) = map (\<lambda>_. status) (rs_wrappers rs)"
    and "rs_hijacked (write_body status data rs) = False"
  using assms by (auto simp: write_body_def resp_defs Let_def)

lemma write_body_hijacked [simp]: "rs_hijacked (write_body status data rs) = rs_hijacked rs"
  by (auto simp: write_body_def resp_defs Let_def split: option.splits)

lemma write_body_in_step:
  "rs_sent rs = None \<Longrightarrow> \<not> rs_hijacked rs \<Longrightarrow> in_step (write_body status data rs)"
  unfolding write_body_def
  by (rule in_step_write_chunk, rule in_step_write_header) (auto simp: set_header_def)

lemma write_body_wrappers_length [simp]:
  "length (rs_wrappers (write_body status data rs)) = length (rs_wrappers rs)"
  by (simp add: write_body_def)

lemmas write_body_facts = write_body_fresh write_body_in_step write_body_hijacked

end
