(* ===== verification/Middleware.thy ===== *)
theory Middleware
  imports ApiErrors
begin

section \<open>Middleware (internal/gateway/middleware.go, request_id.go)\<close>

text \<open>
  The four wrappers the router puts around the mux, each a function from handlers to handlers:
  request id, access log, Prometheus metrics and panic recovery. A panic of the wrapped handler
  propagates through a middleware that has no deferred \<open>recover\<close>; the deferred decrement of
  the in-flight gauge runs on both paths.
\<close>

subsection \<open>Request ids\<close>

definition generateRequestID :: "env \<Rightarrow> 'l world \<Rightarrow> string \<times> 'l world" where
  "generateRequestID E w = (let (b, w1) = rand_bytes E 8 w in (hex_encode b, w1))"

text \<open>\<open>Header().Set\<close> stores the key in its canonical form \<open>X-Request-Id\<close>.\<close>

definition requestIDMiddleware :: "env \<Rightarrow> 'l handler \<Rightarrow> 'l handler" where
  "requestIDMiddleware E next rq ctx = (\<lambda>(rs, w).
     let (requestID, w1) =
           (if rq_request_id_header rq = '''' then generateRequestID E w
            else (rq_request_id_header rq, w));
         rs1 = set_header ''X-Request-Id'' requestID rs
     in next rq (Some requestID) (rs1, w1))"

subsection \<open>Access log\<close>

definition milliseconds_of :: "duration \<Rightarrow> int" where
  "milliseconds_of d = sgn d * (\<bar>d\<bar> div 1000000)"

definition is_probe_path :: "string \<Rightarrow> bool" where
  "is_probe_path p \<longleftrightarrow> p = ''/healthz'' \<or> p = ''/readyz''"

definition loggingMiddleware :: "env \<Rightarrow> 'l handler \<Rightarrow> 'l handler" where
  "loggingMiddleware E next rq ctx = (\<lambda>(rs, w).
     let (start, w1) = time_now E w;
         (oc, rs2, w2) = next rq ctx (newResponseWriter rs, w1)
     in case oc of
          Panicked v \<Rightarrow> (Panicked v, pop_wrapper rs2, w2)
        | Returned \<Rightarrow>
            if is_probe_path (rq_path rq) then (Returned, pop_wrapper rs2, w2)
            else (let (d, w3) = time_since E start w2
                  in (Returned, pop_wrapper rs2,
                      w3\<lparr>w_access := w_access w3 @
                        [\<lparr>al_request_id = RequestIDFromContext ctx, al_method = rq_method rq,
                          al_path = rq_path rq, al_status = wrapper_status rs2,
                          al_duration_ms = milliseconds_of d,
                          al_remote_addr = rq_remote_addr rq\<rparr>]\<rparr>)))"

subsection \<open>Metrics\<close>

text \<open>\<open>http.StatusText\<close> for the statuses the gateway, its mux and the WebSocket library send.\<close>

definition StatusText :: "nat \<Rightarrow> string" where
  "StatusText code =
     (if code = 101 then ''Switching Protocols''
      else if code = 200 then ''OK''
      else if code = 301 then ''Moved Permanently''
      else if code = 400 then ''Bad Request''
      else if code = 403 then ''Forbidden''
      else if code = 404 then ''Not Found''
      else if code = 405 then ''Method Not Allowed''
      else if code = 426 then ''Upgrade Required''
      else if code = 500 then ''Internal Server Error''
      else if code = 501 then ''Not Implemented''
      else if code = 502 then ''Bad Gateway''
      else if code = 503 then ''Service Unavailable''
      else '''')"

definition metrics_panic :: string where
  "metrics_panic = ''label value is not valid UTF-8''"

definition metricsMiddleware :: "env \<Rightarrow> 'l handler \<Rightarrow> 'l handler" where
  "metricsMiddleware E next rq ctx = (\<lambda>(rs, w).
     let (start, w1) = time_now E w;
         (oc, rs2, w2) = next rq ctx (newResponseWriter rs, w1\<lparr>w_in_flight := w_in_flight w1 + 1\<rparr>);
         dec = (\<lambda>w. w\<lparr>w_in_flight := w_in_flight w - 1\<rparr>)
     in case oc of
          Panicked v \<Rightarrow> (Panicked v, pop_wrapper rs2, dec w2)
        | Returned \<Rightarrow>
            (let (d, w3) = time_since E start w2;
                 status = StatusText (wrapper_status rs2);
                 key = (rq_method rq, rq_path rq, status)
             in if label_rejected E (rq_method rq) \<or> label_rejected E (rq_path rq)
                then (Panicked metrics_panic, pop_wrapper rs2, dec w3)
                else (Returned, pop_wrapper rs2,
                      dec (w3\<lparr>w_requests_total :=
                                (w_requests_total w3)(key := Suc (w_requests_total w3 key)),
                              w_durations := w_durations w3 @ [(rq_method rq, rq_path rq, d)]\<rparr>))))"

subsection \<open>Panic recovery\<close>

definition recoveryMiddleware :: "'l handler \<Rightarrow> 'l handler" where
  "recoveryMiddleware next rq ctx = (\<lambda>(rs, w).
     let (oc, rs1, w1) = next rq ctx (rs, w)
     in case oc of
          Returned \<Rightarrow> (Returned, rs1, w1)
        | Panicked err \<Rightarrow>
            (Returned, writeError ctx 500 ErrCodeInternalError ''internal server error'' rs1, w1))"

subsection \<open>What a handler promises, and the middleware contract\<close>

text \<open>
  \<open>balanced\<close>: the handler leaves as many wrappers around the writer as it found.
  \<open>gauge_neutral\<close>: it leaves the in-flight gauge as it found it, panic or not.
  \<open>tracks\<close>: started on a fresh response it leaves every wrapper's status equal to the status on
  the wire, and if it panics it has not started the response.
\<close>

definition balanced :: "'l handler \<Rightarrow> bool" where
  "balanced h \<longleftrightarrow> (\<forall>rq ctx rs w oc rs' w'. h rq ctx (rs, w) = (oc, rs', w') \<longrightarrow>
     length (rs_wrappers rs') = length (rs_wrappers rs))"

definition gauge_neutral :: "'l handler \<Rightarrow> bool" where
  "gauge_neutral h \<longleftrightarrow> (\<forall>rq ctx rs w oc rs' w'. h rq ctx (rs, w) = (oc, rs', w') \<longrightarrow>
     w_in_flight w' = w_in_flight w)"

definition tracks :: "(request \<Rightarrow> bool) \<Rightarrow> 'l handler \<Rightarrow> bool" where
  "tracks P h \<longleftrightarrow> (\<forall>rq ctx rs w oc rs' w'. P rq \<longrightarrow> fresh rs \<longrightarrow> in_step rs \<longrightarrow>
     h rq ctx (rs, w) = (oc, rs', w') \<longrightarrow> in_step rs' \<and> (oc \<noteq> Returned \<longrightarrow> fresh rs'))"

definition sound_handler :: "(request \<Rightarrow> bool) \<Rightarrow> 'l handler \<Rightarrow> bool" where
  "sound_handler P h \<longleftrightarrow> balanced h \<and> gauge_neutral h \<and> tracks P h"

lemma sound_handlerI:
  assumes "\<And>rq ctx rs w oc rs' w'. h rq ctx (rs, w) = (oc, rs', w') \<Longrightarrow>
      length (rs_wrappers rs') = length (rs_wrappers rs) \<and> w_in_flight w' = w_in_flight w \<and>
      (P rq \<longrightarrow> fresh rs \<longrightarrow> in_step rs \<longrightarrow> in_step rs' \<and> (oc \<noteq> Returned \<longrightarrow> fresh rs'))"
  shows "sound_handler P h"
  unfolding sound_handler_def balanced_def gauge_neutral_def tracks_def
  by (intro conjI allI impI) (use assms in blast)+

lemma sound_handlerD:
  assumes "sound_handler P h" and "h rq ctx (rs, w) = (oc, rs', w')"
  shows "length (rs_wrappers rs') = length (rs_wrappers rs) \<and> w_in_flight w' = w_in_flight w \<and>
    (P rq \<longrightarrow> fresh rs \<longrightarrow> in_step rs \<longrightarrow> in_step rs' \<and> (oc \<noteq> Returned \<longrightarrow> fresh rs'))"
  using assms unfolding sound_handler_def balanced_def gauge_neutral_def tracks_def by metis

locale middleware =
  fixes P :: "request \<Rightarrow> bool" and mw :: "'l handler \<Rightarrow> 'l handler"
  assumes sound: "sound_handler P h \<Longrightarrow> sound_handler P (mw h)"

locale middleware_pair = outer: middleware P m1 + inner: middleware P m2
  for P :: "request \<Rightarrow> bool" and m1 m2 :: "'l handler \<Rightarrow> 'l handler"
begin

lemma pair_sound: "sound_handler P h \<Longrightarrow> sound_handler P (m1 (m2 h))"
  by (rule outer.sound, rule inner.sound)

end

sublocale middleware_pair \<subseteq> stacked: middleware P "\<lambda>h. m1 (m2 h)"
  by unfold_locales (rule pair_sound)

definition labels_accepted :: "env \<Rightarrow> request \<Rightarrow> bool" where
  "labels_accepted E rq \<longleftrightarrow> \<not> label_rejected E (rq_method rq) \<and> \<not> label_rejected E (rq_path rq)"

lemma requestIDMiddleware_cases:
  assumes "requestIDMiddleware E next rq ctx (rs, w) = (oc, rs', w')"
  obtains rid w1 where "next rq (Some rid) (set_header ''X-Request-Id'' rid rs, w1) = (oc, rs', w')"
    and "w_in_flight w1 = w_in_flight w" and "w_requests_total w1 = w_requests_total w"
    and "w_access w1 = w_access w" and "w_events w1 = w_events w"
    and "rq_request_id_header rq \<noteq> '''' \<Longrightarrow> rid = rq_request_id_header rq"
    and "rq_request_id_header rq = '''' \<Longrightarrow> rid = hex_encode (map (rnd E (w_rand w)) [0..<8])"
  using assms
  by (auto simp: requestIDMiddleware_def generateRequestID_def rand_bytes_def Let_def
        split: if_splits prod.splits)

interpretation request_id: middleware P "requestIDMiddleware E"
proof unfold_locales
  fix h :: "'a handler"
  assume h: "sound_handler P h"
  show "sound_handler P (requestIDMiddleware E h)"
  proof (rule sound_handlerI)
    fix rq ctx rs and w w' :: "'a world" and oc rs'
    assume "requestIDMiddleware E h rq ctx (rs, w) = (oc, rs', w')"
    then obtain rid w1 where "h rq (Some rid) (set_header ''X-Request-Id'' rid rs, w1) = (oc, rs', w')"
      and "w_in_flight w1 = w_in_flight w"
      by (rule requestIDMiddleware_cases)
    with sound_handlerD [OF h this(1)]
    show "length (rs_wrappers rs') = length (rs_wrappers rs) \<and> w_in_flight w' = w_in_flight w \<and>
      (P rq \<longrightarrow> fresh rs \<longrightarrow> in_step rs \<longrightarrow> in_step rs' \<and> (oc \<noteq> Returned \<longrightarrow> fresh rs'))"
      by auto
  qed
qed

lemma loggingMiddleware_cases:
  assumes "loggingMiddleware E next rq ctx (rs, w) = (oc, rs', w')"
  obtains rs2 w2 where
    "next rq ctx (newResponseWriter rs, w\<lparr>w_clock := Suc (w_clock w)\<rparr>) = (oc, rs2, w2)"
    and "rs' = pop_wrapper rs2"
    and "w_in_flight w' = w_in_flight w2" and "w_requests_total w' = w_requests_total w2"
    and "w_events w' = w_events w2" and "w_sent w' = w_sent w2"
    and "oc \<noteq> Returned \<or> is_probe_path (rq_path rq) \<Longrightarrow> w_access w' = w_access w2"
    and "oc = Returned \<Longrightarrow> \<not> is_probe_path (rq_path rq) \<Longrightarrow> \<exists>d. w_access w' = w_access w2 @
        [\<lparr>al_request_id = RequestIDFromContext ctx, al_method = rq_method rq,
          al_path = rq_path rq, al_status = wrapper_status rs2,
          al_duration_ms = d, al_remote_addr = rq_remote_addr rq\<rparr>]"
proof -
  obtain oc2 rs2 w2 where
    n: "next rq ctx (newResponseWriter rs, w\<lparr>w_clock := Suc (w_clock w)\<rparr>) = (oc2, rs2, w2)"
    by (metis prod_cases3)
  show ?thesis
    using that [of rs2 w2] assms n
    by (cases oc2) (auto simp: loggingMiddleware_def time_now_def time_since_def Let_def split: if_splits)
qed

lemma metricsMiddleware_cases:
  assumes "metricsMiddleware E next rq ctx (rs, w) = (oc, rs', w')"
  obtains oc2 rs2 w2 where
    "next rq ctx (newResponseWriter rs,
       w\<lparr>w_clock := Suc (w_clock w), w_in_flight := w_in_flight w + 1\<rparr>) = (oc2, rs2, w2)"
    and "rs' = pop_wrapper rs2"
    and "w_in_flight w' = w_in_flight w2 - 1"
    and "w_events w' = w_events w2" and "w_sent w' = w_sent w2" and "w_access w' = w_access w2"
    and "oc = (if oc2 = Returned \<and> \<not> labels_accepted E rq then Panicked metrics_panic else oc2)"
    and "oc \<noteq> Returned \<Longrightarrow> w_requests_total w' = w_requests_total w2"
    and "oc = Returned \<Longrightarrow>
      (let key = (rq_method rq, rq_path rq, StatusText (wrapper_status rs2))
       in w_requests_total w' = (w_requests_total w2)(key := Suc (w_requests_total w2 key)))"
proof -
  obtain oc2 rs2 w2 where
    n: "next rq ctx (newResponseWriter rs,
          w\<lparr>w_clock := Suc (w_clock w), w_in_flight := w_in_flight w + 1\<rparr>) = (oc2, rs2, w2)"
    by (metis prod_cases3)
  show ?thesis
    using that [of oc2 rs2 w2] assms n
    by (cases oc2)
       (auto simp: metricsMiddleware_def time_now_def time_since_def Let_def labels_accepted_def
          split: if_splits)
qed

lemma recoveryMiddleware_cases:
  assumes "recoveryMiddleware next rq ctx (rs, w) = (oc, rs', w')"
  obtains oc2 rs2 where "next rq ctx (rs, w) = (oc2, rs2, w')" and "oc = Returned"
    and "oc2 = Returned \<Longrightarrow> rs' = rs2"
    and "oc2 \<noteq> Returned \<Longrightarrow> rs' = writeError ctx 500 ErrCodeInternalError ''internal server error'' rs2"
proof -
  obtain oc2 rs2 w2 where n: "next rq ctx (rs, w) = (oc2, rs2, w2)"
    by (metis prod_cases3)
  show ?thesis
    using that [of oc2 rs2] assms n
    by (cases oc2) (auto simp: recoveryMiddleware_def Let_def)
qed

lemma writeError_facts:
  "length (rs_wrappers (writeError ctx status code msg rs)) = length (rs_wrappers rs)"
  "fresh rs \<Longrightarrow> in_step (writeError ctx status code msg rs)"
  by (simp_all add: writeError_def Let_def fresh_def write_body_in_step)

lemma length_pop_wrapper:
  "length (rs_wrappers rs2) = length (rs_wrappers (newResponseWriter rs)) \<Longrightarrow>
   length (rs_wrappers (pop_wrapper rs2)) = length (rs_wrappers rs)"
  by (simp add: pop_wrapper_def newResponseWriter_def)

lemma in_step_new_wrapper_fresh: "in_step rs \<Longrightarrow> fresh rs \<Longrightarrow> in_step (newResponseWriter rs)"
  by (simp add: in_step_newResponseWriter fresh_def)

interpretation logging: middleware P "loggingMiddleware E"
proof unfold_locales
  fix h :: "'a handler"
  assume h: "sound_handler P h"
  show "sound_handler P (loggingMiddleware E h)"
  proof (rule sound_handlerI)
    fix rq ctx rs and w w' :: "'a world" and oc rs'
    assume "loggingMiddleware E h rq ctx (rs, w) = (oc, rs', w')"
    then show "length (rs_wrappers rs') = length (rs_wrappers rs) \<and> w_in_flight w' = w_in_flight w \<and>
      (P rq \<longrightarrow> fresh rs \<longrightarrow> in_step rs \<longrightarrow> in_step rs' \<and> (oc \<noteq> Returned \<longrightarrow> fresh rs'))"
      by (rule loggingMiddleware_cases)
         (auto dest!: sound_handlerD [OF h] simp: length_pop_wrapper in_step_new_wrapper_fresh in_step_pop)
  qed
qed

interpretation metrics: middleware "labels_accepted E" "metricsMiddleware E"
proof unfold_locales
  fix h :: "'a handler"
  assume h: "sound_handler (labels_accepted E) h"
  show "sound_handler (labels_accepted E) (metricsMiddleware E h)"
  proof (rule sound_handlerI)
    fix rq ctx rs and w w' :: "'a world" and oc rs'
    assume "metricsMiddleware E h rq ctx (rs, w) = (oc, rs', w')"
    then show "length (rs_wrappers rs') = length (rs_wrappers rs) \<and> w_in_flight w' = w_in_flight w \<and>
      (labels_accepted E rq \<longrightarrow> fresh rs \<longrightarrow> in_step rs \<longrightarrow>
         in_step rs' \<and> (oc \<noteq> Returned \<longrightarrow> fresh rs'))"
      by (rule metricsMiddleware_cases)
         (auto dest!: sound_handlerD [OF h] simp: length_pop_wrapper in_step_new_wrapper_fresh in_step_pop
            split: if_splits)
  qed
qed

interpretation recovery: middleware P recoveryMiddleware
proof unfold_locales
  fix h :: "'a handler"
  assume h: "sound_handler P h"
  show "sound_handler P (recoveryMiddleware h)"
  proof (rule sound_handlerI)
    fix rq ctx rs and w w' :: "'a world" and oc rs'
    assume "recoveryMiddleware h rq ctx (rs, w) = (oc, rs', w')"
    then show "length (rs_wrappers rs') = length (rs_wrappers rs) \<and> w_in_flight w' = w_in_flight w \<and>
      (P rq \<longrightarrow> fresh rs \<longrightarrow> in_step rs \<longrightarrow> in_step rs' \<and> (oc \<noteq> Returned \<longrightarrow> fresh rs'))"
      by (rule recoveryMiddleware_cases)
         (metis sound_handlerD [OF h] writeError_facts)
  qed
qed


subsection \<open>The request id stays on the response\<close>

text \<open>\<open>tagged v rs\<close>: the response will carry, or was sent with, the id \<open>v\<close>.\<close>

definition tagged :: "string \<Rightarrow> resp \<Rightarrow> bool" where
  "tagged v rs \<longleftrightarrow> rs_header rs ''X-Request-Id'' = Some v \<and>
     (\<forall>c hd. rs_sent rs = Some (c, hd) \<longrightarrow> hd ''X-Request-Id'' = Some v)"

lemma tagged_ops [simp]:
  "k \<noteq> ''X-Request-Id'' \<Longrightarrow> tagged v (set_header k x rs) = tagged v rs"
  "tagged v (newResponseWriter rs) = tagged v rs"
  "tagged v (pop_wrapper rs) = tagged v rs"
  "tagged v rs \<Longrightarrow> tagged v (write_header c rs)"
  "tagged v rs \<Longrightarrow> tagged v (write_chunk ch rs)"
  "tagged v rs \<Longrightarrow> tagged v (write_body c j rs)"
  by (auto simp: tagged_def write_body_def resp_defs Let_def split: option.splits)

lemma tagged_writeError [simp]: "tagged v rs \<Longrightarrow> tagged v (writeError ctx c code msg rs)"
  by (simp add: writeError_def Let_def)

definition keeps_id :: "'l handler \<Rightarrow> bool" where
  "keeps_id h \<longleftrightarrow> (\<forall>rq ctx rs w oc rs' w' v. h rq ctx (rs, w) = (oc, rs', w') \<longrightarrow>
     tagged v rs \<longrightarrow> tagged v rs')"

lemma keeps_idI:
  assumes "\<And>rq ctx rs w oc rs' w' v. h rq ctx (rs, w) = (oc, rs', w') \<Longrightarrow> tagged v rs \<Longrightarrow> tagged v rs'"
  shows "keeps_id h"
  unfolding keeps_id_def by (intro allI impI) (rule assms)

lemma keeps_idD:
  "keeps_id h \<Longrightarrow> h rq ctx (rs, w) = (oc, rs', w') \<Longrightarrow> tagged v rs \<Longrightarrow> tagged v rs'"
  unfolding keeps_id_def by blast

locale id_keeping =
  fixes mw :: "'l handler \<Rightarrow> 'l handler"
  assumes keeps: "keeps_id h \<Longrightarrow> keeps_id (mw h)"

interpretation logging_id: id_keeping "loggingMiddleware E"
  by unfold_locales
     (rule keeps_idI, erule loggingMiddleware_cases, auto dest: keeps_idD)

interpretation metrics_id: id_keeping "metricsMiddleware E"
  by unfold_locales
     (rule keeps_idI, erule metricsMiddleware_cases, simp, rule keeps_idD, assumption+, simp)

interpretation recovery_id: id_keeping recoveryMiddleware
  by unfold_locales
     (rule keeps_idI, erule recoveryMiddleware_cases, metis keeps_idD tagged_writeError)

end
