(* ===== verification/Proxy.thy ===== *)
theory Proxy
  imports Http
begin

section \<open>The Whisper proxy (internal/gateway/proxy.go)\<close>

text \<open>
  \<open>HealthCheck\<close> and \<open>Transcribe\<close> against the network. Writing a multipart form into a memory
  buffer cannot fail, so the error branches of \<open>CreateFormFile\<close> and \<open>WriteField\<close> have no
  counterpart; reading the uploaded file can. The random boundary in the content type is left out.
\<close>

record TranscriptionRequest =
  tr_Model :: string
  tr_Language :: string
  tr_ResponseFormat :: string

definition default_model :: string where
  "default_model = ''Systran/faster-whisper-small.en''"

definition multipart_type :: string where
  "multipart_type = ''multipart/form-data''"

definition HealthCheck :: "env \<Rightarrow> string \<Rightarrow> 'l world \<Rightarrow> goerror option \<times> 'l world" where
  "HealthCheck E baseURL w =
     (let url = baseURL @ ''/health''
      in case url_error E url of
           Some err \<Rightarrow> (Some (''creating health request: '' @ err), w)
         | None \<Rightarrow>
             (let (res, w1) = http_do E \<lparr>or_method = ''GET'', or_url = url, or_content_type = '''',
                                         or_body = NoBody\<rparr> w
              in case res of
                   Inl err \<Rightarrow> (Some (''whisper unreachable: '' @ err), w1)
                 | Inr resp \<Rightarrow>
                     if hr_status resp \<noteq> 200
                     then (Some (''whisper returned status '' @ string_of_int (hr_status resp)), w1)
                     else (None, w1)))"

text \<open>The form rebuilt for the backend: the file, the model, and the optional fields that are
  not empty.\<close>

definition transcription_form :: "string \<Rightarrow> bytes \<Rightarrow> TranscriptionRequest \<Rightarrow> part list" where
  "transcription_form filename data req =
     [FilePart ''file'' filename data, FieldPart ''model'' (tr_Model req)] @
     (if tr_Language req \<noteq> '''' then [FieldPart ''language'' (tr_Language req)] else []) @
     (if tr_ResponseFormat req \<noteq> '''' then [FieldPart ''response_format'' (tr_ResponseFormat req)] else [])"

definition whisper_text :: "json \<Rightarrow> bool \<times> string" where
  "whisper_text j = decode_field json_string '''' ''text'' j"

definition Transcribe ::
    "env \<Rightarrow> string \<Rightarrow> goerror + bytes \<Rightarrow> string \<Rightarrow> TranscriptionRequest \<Rightarrow> 'l world \<Rightarrow>
     (goerror + string) \<times> 'l world" where
  "Transcribe E baseURL file filename req w =
     (case file of
        Inl err \<Rightarrow> (Inl (''copying file data: '' @ err), w)
      | Inr data \<Rightarrow>
          (let whisperURL = baseURL @ ''/v1/audio/transcriptions''
           in case url_error E whisperURL of
                Some err \<Rightarrow> (Inl (''creating request: '' @ err), w)
              | None \<Rightarrow>
                  (let (res, w1) = http_do E
                         \<lparr>or_method = ''POST'', or_url = whisperURL, or_content_type = multipart_type,
                          or_body = MultipartOut (transcription_form filename data req)\<rparr> w
                   in case res of
                        Inl err \<Rightarrow> (Inl (''sending to whisper: '' @ err), w1)
                      | Inr resp \<Rightarrow>
                          (case hr_body resp of
                             Inl err \<Rightarrow> (Inl (''reading response: '' @ err), w1)
                           | Inr body \<Rightarrow>
                               if hr_status resp \<noteq> 200
                               then (Inl (''whisper returned '' @ string_of_int (hr_status resp) @ '': '' @ body), w1)
                               else (case json_unmarshal body of
                                       Inl err \<Rightarrow> (Inl (''parsing response: '' @ err), w1)
                                     | Inr j \<Rightarrow>
                                         if fst (whisper_text j) then (Inr (snd (whisper_text j)), w1)
                                         else (Inl (''parsing response: '' @ json_type_error), w1))))))"

text \<open>A call makes at most one request and touches nothing else of the world.\<close>

definition one_request :: "'l world \<Rightarrow> 'l world \<Rightarrow> bool" where
  "one_request w w' \<longleftrightarrow> (\<exists>rqs. w' = w\<lparr>w_sent := w_sent w @ rqs\<rparr> \<and> length rqs \<le> 1)"

lemma one_request_refl: "one_request w w"
  by (auto simp: one_request_def intro: exI [of _ "[]"])

lemma one_request_do: "one_request w (w\<lparr>w_sent := w_sent w @ [rq]\<rparr>)"
  by (auto simp: one_request_def intro: exI [of _ "[rq]"])

lemma HealthCheck_one_request: "HealthCheck E url w = (r, w') \<Longrightarrow> one_request w w'"
  by (auto simp: HealthCheck_def http_do_def Let_def one_request_refl one_request_do
        split: option.splits sum.splits if_splits)

lemma Transcribe_one_request: "Transcribe E url file fn req w = (r, w') \<Longrightarrow> one_request w w'"
  by (auto simp: Transcribe_def http_do_def Let_def one_request_refl one_request_do
        split: option.splits sum.splits if_splits)

lemma one_request_frame:
  assumes "one_request w w'"
  shows "w_clock w' = w_clock w" "w_events w' = w_events w" "w_access w' = w_access w"
    "w_requests_total w' = w_requests_total w" "w_durations w' = w_durations w"
    "w_in_flight w' = w_in_flight w" "w_rand w' = w_rand w"
  using assms by (auto simp: one_request_def)

text \<open>When the call succeeds the backend answered 200 with a JSON body, and the text returned is
  its \<open>text\<close> field.\<close>

lemma Transcribe_ok:
  assumes "Transcribe E url file fn req w = (Inr txt, w')"
  shows "\<exists>data resp body j. file = Inr data \<and>
    net E (length (w_sent w))
      \<lparr>or_method = ''POST'', or_url = url @ ''/v1/audio/transcriptions'', or_content_type = multipart_type,
       or_body = MultipartOut (transcription_form fn data req)\<rparr> = Inr resp \<and>
    hr_status resp = 200 \<and> hr_body resp = Inr body \<and> json_unmarshal body = Inr j \<and>
    whisper_text j = (True, txt)"
  using assms
  by (cases "whisper_text (projr (json_unmarshal (projr (hr_body (projr
        (net E (length (w_sent w)) \<lparr>or_method = ''POST'', or_url = url @ ''/v1/audio/transcriptions'',
           or_content_type = multipart_type,
           or_body = MultipartOut (transcription_form fn (projr file) req)\<rparr>))))))")
     (auto simp: Transcribe_def http_do_def Let_def split: option.splits sum.splits if_splits)

end
