(* ===== verification/GoTime.thy ===== *)
theory GoTime
  imports GoStrings
begin

section \<open>Calendar dates and the formats the program prints\<close>

text \<open>
  An instant counts nanoseconds from 1970-01-01T00:00:00Z; the program converts every instant it
  prints to UTC. \<open>civil_from_days\<close> is the proleptic Gregorian calendar, computed on 400-year
  eras of 146097 days that start on 1 March.
\<close>

definition nanos_per_day :: int where
  "nanos_per_day = 86400 * nanoseconds_per_second"

definition civil_from_days :: "int \<Rightarrow> int \<times> nat \<times> nat" where
  "civil_from_days z0 =
     (let z = z0 + 719468;
          era = z div 146097;
          doe = z mod 146097;
          yoe = (doe - doe div 1460 + doe div 36524 - doe div 146096) div 365;
          doy = doe - (365 * yoe + yoe div 4 - yoe div 100);
          mp = (5 * doy + 2) div 153;
          d = doy - (153 * mp + 2) div 5 + 1;
          m = (if mp < 10 then mp + 3 else mp - 9)
      in (yoe + era * 400 + (if m \<le> 2 then 1 else 0), nat m, nat d))"

definition pad_zeros :: "nat \<Rightarrow> string \<Rightarrow> string" where
  "pad_zeros n s = replicate (n - length s) CHR ''0'' @ s"

definition two_digits :: "nat \<Rightarrow> string" where
  "two_digits n = pad_zeros 2 (string_of_nat n)"

definition year_text :: "int \<Rightarrow> string" where
  "year_text y = (if y < 0 then ''-'' else '''') @ pad_zeros 4 (string_of_nat (nat \<bar>y\<bar>))"

text \<open>The layout \<open>2006-01-02\<close>.\<close>

definition format_date :: "instant \<Rightarrow> string" where
  "format_date t =
     (let (y, m, d) = civil_from_days (t div nanos_per_day)
      in year_text y @ ''-'' @ two_digits m @ ''-'' @ two_digits d)"

definition clock_text :: "instant \<Rightarrow> string" where
  "clock_text t =
     (let s = nat ((t mod nanos_per_day) div nanoseconds_per_second)
      in two_digits (s div 3600) @ '':'' @ two_digits (s div 60 mod 60) @ '':'' @ two_digits (s mod 60))"

text \<open>The layouts \<open>time.RFC3339\<close> and, in JSON, \<open>time.RFC3339Nano\<close>, which drops trailing zeros
  of the fraction.\<close>

definition format_rfc3339 :: "instant \<Rightarrow> string" where
  "format_rfc3339 t = format_date t @ ''T'' @ clock_text t @ ''Z''"

definition fraction_text :: "instant \<Rightarrow> string" where
  "fraction_text t =
     (let ds = pad_zeros 9 (string_of_nat (nat (t mod nanoseconds_per_second)));
          sig = rev (dropWhile (\<lambda>c. c = CHR ''0'') (rev ds))
      in if sig = '''' then '''' else CHR ''.'' # sig)"

definition format_rfc3339_nano :: "instant \<Rightarrow> string" where
  "format_rfc3339_nano t = format_date t @ ''T'' @ clock_text t @ fraction_text t @ ''Z''"

text \<open>\<open>Time.MarshalJSON\<close> refuses a year outside 0 to 9999.\<close>

definition year_of :: "instant \<Rightarrow> int" where
  "year_of t = fst (civil_from_days (t div nanos_per_day))"

definition marshalable_time :: "instant \<Rightarrow> bool" where
  "marshalable_time t \<longleftrightarrow> 0 \<le> year_of t \<and> year_of t \<le> 9999"

lemma digit_char_not_slash: "d < 10 \<Longrightarrow> digit_char d \<noteq> CHR ''/''"
proof
  assume "d < 10" and "digit_char d = CHR ''/''"
  then have "(of_char (CHR ''/'') :: nat) = 48 + d"
    using of_char_digit_char [of d] by simp
  then show False by simp
qed

lemma string_of_nat_no_slash: "CHR ''/'' \<notin> set (string_of_nat n)"
proof (induction n rule: string_of_nat.induct)
  case (1 n)
  then show ?case
    by (cases "n < 10") (auto simp: string_of_nat.simps [of n] digit_char_not_slash [symmetric])
qed

lemma format_date_no_slash: "CHR ''/'' \<notin> set (format_date t)"
  by (auto simp: format_date_def year_text_def two_digits_def pad_zeros_def string_of_nat_no_slash
        split: prod.splits)

lemma format_date_examples:
  "format_date 0 = ''1970-01-01''"
  "format_date (1709164800 * nanoseconds_per_second) = ''2024-02-29''"
  by code_simp+

end
