(* ===== verification/Handlers.thy ===== *)
theory Handlers
  imports Proxy ApiErrors GoTime
begin

section \<open>The plain handlers (internal/gateway/handlers.go)\<close>

text \<open>
  Liveness, readiness, transcription, the model list and the metrics page. The metrics page is
  served by the Prometheus client library, a parameter. \<open>slog\<close> output and the clean-up of the
  parsed form's temporary files are left out.
\<close>

definition handleHealth :: "'l handler" where
  "handleHealth rq ctx = (\<lambda>(rs, w).
     (Returned, writeJSON 200 (JObj [(''status'', JStr ''ok'')]) rs, w))"

definition handleReady :: "env \<Rightarrow> string \<Rightarrow> 'l handler" where
  "handleReady E baseURL rq ctx = (\<lambda>(rs, w).
     let (err, w1) = HealthCheck E baseURL w
     in case err of
          Some e \<Rightarrow>
            (Returned, writeError ctx 503 ErrCodeServiceUnavail ''whisper backend unreachable'' rs, w1)
        | None \<Rightarrow> (Returned, writeJSON 200 (JObj [(''status'', JStr ''ready'')]) rs, w1))"

record TranscriptionResponse =
  te_Text :: string
  te_Model :: string
  te_Duration :: rat
  te_RequestID :: string
  te_CreatedAt :: string

definition TranscriptionResponse_json :: "TranscriptionResponse \<Rightarrow> json" where
  "TranscriptionResponse_json r =
     JObj [(''text'', JStr (te_Text r)), (''model'', JStr (te_Model r)),
           (''processing_time_seconds'', JFloat (te_Duration r)),
           (''request_id'', JStr (te_RequestID r)), (''created_at'', JStr (te_CreatedAt r))]"

definition transcribe_max_bytes :: nat where
  "transcribe_max_bytes = 32 * 2 ^ 20"

definition transcription_params :: "form \<Rightarrow> TranscriptionRequest" where
  "transcription_params fm =
     (let req = \<lparr>tr_Model = form_value fm ''model'', tr_Language = form_value fm ''language'',
                 tr_ResponseFormat = form_value fm ''response_format''\<rparr>
      in if tr_Model req = '''' then req\<lparr>tr_Model := default_model\<rparr> else req)"

definition handleTranscribe :: "env \<Rightarrow> string \<Rightarrow> 'l handler" where
  "handleTranscribe E baseURL rq ctx = (\<lambda>(rs, w).
     let (start, w1) = time_now E w;
         requestID = RequestIDFromContext ctx
     in case parse_multipart_form transcribe_max_bytes rq of
          Inl err \<Rightarrow>
            (Returned, writeError ctx 400 ErrCodeFileTooLarge
               ''invalid multipart form or file too large (max 32MB)'' rs, w1)
        | Inr fm \<Rightarrow>
            (case form_file fm ''file'' of
               None \<Rightarrow>
                 (Returned, writeError ctx 400 ErrCodeFileRequired
                    (''missing '' @ [CHR 0x27] @ ''file'' @ [CHR 0x27] @ '' field in form data'') rs, w1)
             | Some up \<Rightarrow>
                 (let req = transcription_params fm;
                      (res, w2) = Transcribe E baseURL (up_data up) (up_filename up) req w1
                  in case res of
                       Inl err \<Rightarrow>
                         (Returned, writeError ctx 502 ErrCodeBackendError
                            (''whisper backend error: '' @ err) rs, w2)
                     | Inr txt \<Rightarrow>
                         (let (d, w3) = time_since E start w2;
                              (now, w4) = time_now E w3;
                              response = \<lparr>te_Text = txt, te_Model = tr_Model req,
                                te_Duration = seconds_of d, te_RequestID = requestID,
                                te_CreatedAt = format_rfc3339 now\<rparr>
                          in (Returned, writeJSON 200 (TranscriptionResponse_json response) rs, w4)))))"

definition handleListModels :: "'l handler" where
  "handleListModels rq ctx = (\<lambda>(rs, w).
     (Returned,
      writeJSON 200
        (JObj [(''models'', JArr [JObj [(''id'', JStr ''Systran/faster-whisper-small.en''),
                                        (''state'', JStr ''loaded''), (''type'', JStr ''stt'')]])]) rs, w))"

definition handleMetrics :: "'l handler \<Rightarrow> 'l handler" where
  "handleMetrics promHandler rq ctx = (\<lambda>(rs, w). promHandler rq ctx (rs, w))"

subsection \<open>Properties\<close>

text \<open>What a client reads out of a transcription response.\<close>

definition decode_transcription :: "json \<Rightarrow> string \<times> string \<times> string" where
  "decode_transcription j =
     (snd (decode_field json_string '''' ''text'' j), snd (decode_field json_string '''' ''model'' j),
      snd (decode_field json_string '''' ''request_id'' j))"

lemma transcription_keys:
  "to_lower ''text'' = ''text''" "to_lower ''model'' = ''model''" "to_lower ''request_id'' = ''request_id''"
  "to_lower ''created_at'' = ''created_at''"
  "to_lower ''processing_time_seconds'' = ''processing_time_seconds''"
  by code_simp+

lemma decode_transcription_response:
  "decode_transcription (TranscriptionResponse_json r) = (te_Text r, te_Model r, te_RequestID r)"
  by (simp add: decode_transcription_def TranscriptionResponse_json_def decode_field_def field_values_def
      is_struct_value_def json_string_def transcription_keys)

definition transcribe_request :: "string \<Rightarrow> form \<Rightarrow> string \<Rightarrow> bytes \<Rightarrow> out_request" where
  "transcribe_request baseURL fm filename data =
     \<lparr>or_method = ''POST'', or_url = baseURL @ ''/v1/audio/transcriptions'', or_content_type = multipart_type,
      or_body = MultipartOut (transcription_form filename data (transcription_params fm))\<rparr>"


lemma Transcribe_clock:
  "Transcribe E url file fn req (w\<lparr>w_clock := c\<rparr>) =
   map_prod id (\<lambda>w. w\<lparr>w_clock := c\<rparr>) (Transcribe E url file fn req w)"
  by (auto simp: Transcribe_def http_do_def Let_def split: sum.split option.split)

lemma Transcribe_ok_request:
  assumes "Transcribe E url (up_data up) (up_filename up) (transcription_params fm) w = (Inr txt, w')"
  shows "\<exists>data. up_data up = Inr data \<and>
    w' = w\<lparr>w_sent := w_sent w @ [transcribe_request url fm (up_filename up) data]\<rparr>"
  using assms
  by (auto simp: Transcribe_def http_do_def transcribe_request_def Let_def
        split: sum.splits option.splits if_splits)

lemma Transcribe_requests:
  assumes "Transcribe E url (up_data up) (up_filename up) (transcription_params fm) w = (res, w')"
  shows "\<exists>rqs. w' = w\<lparr>w_sent := w_sent w @ rqs\<rparr> \<and> length rqs \<le> 1 \<and>
    (\<forall>r \<in> set rqs. \<exists>data. up_data up = Inr data \<and> r = transcribe_request url fm (up_filename up) data)"
proof (cases "up_data up")
  case (Inl err)
  with assms show ?thesis by (intro exI [of _ "[]"]) (auto simp: Transcribe_def)
next
  case (Inr data)
  let ?rq = "transcribe_request url fm (up_filename up) data"
  have "w' = w \<or> w' = w\<lparr>w_sent := w_sent w @ [?rq]\<rparr>"
    using assms Inr
    by (auto simp: Transcribe_def http_do_def transcribe_request_def Let_def split: sum.splits option.splits if_splits)
  then show ?thesis
    using Inr by (elim disjE) (auto intro: exI [of _ "[]"] exI [of _ "[?rq]"])
qed


text \<open>C37: the readiness probe answers 200 exactly when Whisper's health endpoint answers 200, and
  503 otherwise.\<close>

theorem handleReady_correct:
  assumes "fresh rs" and "handleReady E baseURL rq ctx (rs, w) = (oc, rs', w')"
  shows "oc = Returned \<and> wire_status rs' =
    (if url_error E (baseURL @ ''/health'') = None \<and>
        (\<exists>resp. net E (length (w_sent w)) \<lparr>or_method = ''GET'', or_url = baseURL @ ''/health'',
           or_content_type = '''', or_body = NoBody\<rparr> = Inr resp \<and> hr_status resp = 200)
     then 200 else 503)"
proof -
  have st: "wire_status (write_body c j rs) = c" for c j
    using assms(1) by (simp_all add: fresh_def wire_status_def write_body_fresh)
  show ?thesis
    using assms(2)
    by (auto simp: handleReady_def HealthCheck_def http_do_def writeJSON_def writeError_def st Let_def
        split: option.splits sum.splits if_splits)
qed

definition example_transcribe_request :: request where
  "example_transcribe_request = example_request ''POST'' ''/v1/audio/transcriptions''
     \<lparr>fm_values = [], fm_files = [(''file'', example_upload ''a.wav'' [1, 2])]\<rparr>"


theorem handleReady_correct_witness:
  "\<exists>rs' w'. handleReady (example_env (\<lambda>n rq. Inr \<lparr>hr_status = 200, hr_body = Inr ''''\<rparr>)) ''http://w''
       example_transcribe_request (Some ''r'') (new_resp False, new_world ()) = (Returned, rs', w') \<and>
     wire_status rs' = 200"
proof -
  obtain oc rs' w' where r: "handleReady (example_env (\<lambda>n rq. Inr \<lparr>hr_status = 200, hr_body = Inr ''''\<rparr>)) ''http://w''
       example_transcribe_request (Some ''r'') (new_resp False, new_world ()) = (oc, rs', w')"
    using prod_cases3 by blast
  from handleReady_correct [OF _ r] r show ?thesis
    by (auto simp: example_env_def)
qed

end
