(* ===== verification/Config.thy ===== *)
theory Config
  imports GoStrings
begin

section \<open>Gateway configuration (internal/gateway/config.go)\<close>

text \<open>
  The environment is a partial function from variable names to values; \<open>os.Getenv\<close> returns the
  empty text for a variable that is not set. \<open>LoadConfig\<close> reads every field of \<open>Config\<close>
  from one variable with a default.
\<close>

record config =
  cfg_Port :: string
  cfg_WhisperURL :: string
  cfg_VADEndpoint :: string
  cfg_DiarizerURL :: string
  cfg_SummarizerURL :: string
  cfg_EventLogBackend :: string
  cfg_EventLogDir :: string
  cfg_EventLogBucket :: string

type_synonym environ = "string \<Rightarrow> string option"

definition os_getenv :: "environ \<Rightarrow> string \<Rightarrow> string" where
  "os_getenv environ key = (case environ key of Some v \<Rightarrow> v | None \<Rightarrow> '''')"

definition getEnv :: "environ \<Rightarrow> string \<Rightarrow> string \<Rightarrow> string" where
  "getEnv environ key fallback =
     (let val = os_getenv environ key in if val \<noteq> '''' then val else fallback)"

definition LoadConfig :: "environ \<Rightarrow> config" where
  "LoadConfig environ =
     \<lparr>cfg_Port = getEnv environ ''PORT'' ''8080'',
      cfg_WhisperURL = getEnv environ ''WHISPER_URL'' ''http://whisper.vox.svc.cluster.local:8000'',
      cfg_VADEndpoint = getEnv environ ''VAD_ENDPOINT'' ''http://localhost:8001'',
      cfg_DiarizerURL = getEnv environ ''DIARIZER_URL'' '''',
      cfg_SummarizerURL = getEnv environ ''SUMMARIZER_URL'' '''',
      cfg_EventLogBackend = getEnv environ ''EVENT_LOG_BACKEND'' ''local'',
      cfg_EventLogDir = getEnv environ ''EVENT_LOG_DIR'' ''/tmp/vox-events'',
      cfg_EventLogBucket = getEnv environ ''EVENT_LOG_BUCKET'' ''''\<rparr>"

lemma getEnv_nonempty: "fallback \<noteq> '''' \<Longrightarrow> getEnv environ key fallback \<noteq> ''''"
  by (simp add: getEnv_def Let_def)

lemma getEnv_empty_value: "environ key = Some '''' \<Longrightarrow> getEnv environ key fallback = fallback"
  by (simp add: getEnv_def os_getenv_def)

lemma LoadConfig_backends_nonempty [simp]:
  "cfg_Port (LoadConfig e) \<noteq> ''''"
  "cfg_WhisperURL (LoadConfig e) \<noteq> ''''"
  "cfg_VADEndpoint (LoadConfig e) \<noteq> ''''"
  "cfg_EventLogBackend (LoadConfig e) \<noteq> ''''"
  "cfg_EventLogDir (LoadConfig e) \<noteq> ''''"
  by (simp_all add: LoadConfig_def getEnv_nonempty)

end
