(* ===== verification/EventLog.thy ===== *)
theory EventLog
  imports Http Config GoTime "HOL-Library.List_Lexorder" "HOL-Library.AList"
begin

section \<open>The event log (internal/gateway/eventlog.go)\<close>

text \<open>
  Events and the three backends: JSONL files in a local directory, objects in a Google Cloud
  Storage bucket, and nothing. A line of the log is the JSON value of its event; its text holds
  no line feed, so appending the text and a line feed adds one line. The operating system's and
  the network's failures are parameters.

  The interface \<open>EventLogger\<close> is the locale \<open>event_log\<close>: logging an event never touches the
  entries of another request, and a call that fails changes no entry. \<open>durable_event_log\<close> adds
  that a call that succeeds appends the event. All three backends satisfy the first contract, the
  local one also the second.
\<close>

subsection \<open>Events\<close>

record event =
  ev_RequestID :: string
  ev_Timestamp :: instant
  ev_Type :: string
  ev_Stage :: string
  ev_Data :: "(string \<times> json) list"

text \<open>\<open>json.Marshal\<close> writes the struct's fields in their order, leaves out an empty stage and
  an empty map, and sorts the keys of a map.\<close>

definition event_json :: "event \<Rightarrow> json" where
  "event_json e =
     JObj ([(''request_id'', JStr (ev_RequestID e)),
            (''timestamp'', JStr (format_rfc3339_nano (ev_Timestamp e))),
            (''type'', JStr (ev_Type e))] @
           (if ev_Stage e = '''' then [] else [(''stage'', JStr (ev_Stage e))]) @
           (if ev_Data e = [] then [] else [(''data'', JObj (sort_key fst (ev_Data e)))]))"

definition marshal_event :: "event \<Rightarrow> goerror + json" where
  "marshal_event e =
     (if marshalable_time (ev_Timestamp e) then Inr (event_json e)
      else Inl ''json: error calling MarshalJSON for type time.Time'')"

subsection \<open>The local file backend\<close>

text \<open>
  \<open>ll_files\<close> is the part of the file system the logger writes, a path's lines; \<open>ll_fds\<close> its open
  handles by request id, \<open>None\<close> for the nil map. \<open>os_open_error p n\<close> is the error of opening
  \<open>p\<close> while the logger holds \<open>n\<close> open files.
\<close>

record os =
  os_mkdir_error :: "string \<Rightarrow> goerror option"
  os_open_error :: "string \<Rightarrow> nat \<Rightarrow> goerror option"
  os_write_error :: "string \<Rightarrow> goerror option"
  os_close_error :: "string \<Rightarrow> goerror option"

record local_log =
  ll_files :: "string \<Rightarrow> json list option"
  ll_fds :: "(string \<times> string) list option"

definition file_lines :: "local_log \<Rightarrow> string \<Rightarrow> json list" where
  "file_lines s path = (case ll_files s path of Some ls \<Rightarrow> ls | None \<Rightarrow> [])"

definition local_write :: "os \<Rightarrow> json \<Rightarrow> string \<Rightarrow> local_log \<Rightarrow> goerror option \<times> local_log" where
  "local_write OS line path s =
     (case os_write_error OS path of
        Some err \<Rightarrow> (Some err, s)
      | None \<Rightarrow> (None, s\<lparr>ll_files := (ll_files s)(path \<mapsto> file_lines s path @ [line])\<rparr>))"

definition localFileLogger_Log :: "os \<Rightarrow> string \<Rightarrow> event \<Rightarrow> local_log \<Rightarrow> goerror option \<times> local_log" where
  "localFileLogger_Log OS dir e s =
     (case marshal_event e of
        Inl err \<Rightarrow> (Some (''marshalling event: '' @ err), s)
      | Inr line \<Rightarrow>
          (let fds = (case ll_fds s of None \<Rightarrow> [] | Some m \<Rightarrow> m);
               s1 = s\<lparr>ll_fds := Some fds\<rparr>
           in case map_of fds (ev_RequestID e) of
                Some path \<Rightarrow> local_write OS line path s1
              | None \<Rightarrow>
                  (let path = path_join dir (ev_RequestID e @ ''.jsonl'')
                   in case os_open_error OS path (length fds) of
                        Some err \<Rightarrow> (Some (''opening event log file: '' @ err), s1)
                      | None \<Rightarrow>
                          local_write OS line path
                            (s1\<lparr>ll_files := (ll_files s1)(path \<mapsto> file_lines s1 path),
                                ll_fds := Some ((ev_RequestID e, path) # fds)\<rparr>))))"

text \<open>Go ranges over the map in no particular order; the error returned is that of some handle
  that failed to close.\<close>

definition localFileLogger_Close :: "os \<Rightarrow> local_log \<Rightarrow> goerror option \<times> local_log" where
  "localFileLogger_Close OS s =
     (fold (\<lambda>(rid, path) lastErr.
        case os_close_error OS path of Some err \<Rightarrow> Some err | None \<Rightarrow> lastErr)
        (case ll_fds s of None \<Rightarrow> [] | Some m \<Rightarrow> m) None,
      s\<lparr>ll_fds := None\<rparr>)"

subsection \<open>The Google Cloud Storage backend\<close>

text \<open>
  \<open>gl_sent\<close> counts the logger's requests; \<open>gl_uploads\<close> lists the uploads the service accepted,
  oldest first: the upload URL, the request id and the line. Uploading to a name that exists
  replaces the object, so the bucket holds the last line of every URL.
\<close>

record gcs_log =
  gl_sent :: "out_request list"
  gl_uploads :: "(string \<times> string \<times> json) list"

definition metadataURL :: string where
  "metadataURL =
     ''http://metadata.google.internal/computeMetadata/v1/instance/service-accounts/default/token''"

definition gcs_do :: "env \<Rightarrow> out_request \<Rightarrow> gcs_log \<Rightarrow> (goerror + http_response) \<times> gcs_log" where
  "gcs_do E rq s = (net E (length (gl_sent s)) rq, s\<lparr>gl_sent := gl_sent s @ [rq]\<rparr>)"

definition fetchMetadataToken :: "env \<Rightarrow> gcs_log \<Rightarrow> (goerror + string) \<times> gcs_log" where
  "fetchMetadataToken E s =
     (case url_error E metadataURL of
        Some err \<Rightarrow> (Inl err, s)
      | None \<Rightarrow>
          (let (res, s1) = gcs_do E \<lparr>or_method = ''GET'', or_url = metadataURL, or_content_type = '''',
                                     or_body = NoBody\<rparr> s
           in case res of
                Inl err \<Rightarrow> (Inl (''metadata server unavailable: '' @ err), s1)
              | Inr resp \<Rightarrow>
                  (let body = (case hr_body resp of Inr b \<Rightarrow> b | Inl _ \<Rightarrow> '''')
                   in case json_unmarshal body of
                        Inl err \<Rightarrow> (Inl (''parsing token response: '' @ err), s1)
                      | Inr j \<Rightarrow>
                          (let (ok, token) = decode_field json_string '''' ''access_token'' j
                           in if ok then (Inr token, s1)
                              else (Inl (''parsing token response: '' @ json_type_error), s1)))))"

definition gcs_object_name :: "event \<Rightarrow> string" where
  "gcs_object_name e =
     ''events/'' @ format_date (ev_Timestamp e) @ ''/'' @ ev_RequestID e @ ''/'' @ ev_Type e @ ''.jsonl''"

definition gcs_upload_url :: "string \<Rightarrow> string \<Rightarrow> string" where
  "gcs_upload_url bucket objectName =
     ''https://storage.googleapis.com/upload/storage/v1/b/'' @ bucket @
     ''/o?uploadType=media&name='' @ objectName"

definition gcsLogger_Log :: "env \<Rightarrow> string \<Rightarrow> event \<Rightarrow> gcs_log \<Rightarrow> goerror option \<times> gcs_log" where
  "gcsLogger_Log E bucket e s =
     (case marshal_event e of
        Inl err \<Rightarrow> (Some err, s)
      | Inr line \<Rightarrow>
          (let objectName = gcs_object_name e;
               (tok, s1) = fetchMetadataToken E s
           in case tok of
                Inl err \<Rightarrow> (Some (''fetching GCS token: '' @ err), s1)
              | Inr token \<Rightarrow>
                  (let url = gcs_upload_url bucket objectName
                   in case url_error E url of
                        Some err \<Rightarrow> (Some err, s1)
                      | None \<Rightarrow>
                          (let (res, s2) = gcs_do E \<lparr>or_method = ''POST'', or_url = url,
                                 or_content_type = ''application/x-ndjson'', or_body = JsonOut line\<rparr> s1
                           in case res of
                                Inl err \<Rightarrow> (Some (''GCS upload: '' @ err), s2)
                              | Inr resp \<Rightarrow>
                                  if 300 \<le> hr_status resp
                                  then (Some (''GCS upload returned '' @ string_of_int (hr_status resp)), s2)
                                  else (None, s2\<lparr>gl_uploads :=
                                                 gl_uploads s2 @ [(url, ev_RequestID e, line)]\<rparr>)))))"

definition gcsLogger_Close :: "gcs_log \<Rightarrow> goerror option \<times> gcs_log" where
  "gcsLogger_Close s = (None, s)"

definition bucket_objects :: "(string \<times> string \<times> json) list \<Rightarrow> (string \<times> string \<times> json) list" where
  "bucket_objects uploads = fold (\<lambda>(url, x). AList.update url x) uploads []"

subsection \<open>No logging, and the choice of a backend\<close>

definition noOpLogger_Log :: "event \<Rightarrow> 's \<Rightarrow> goerror option \<times> 's" where
  "noOpLogger_Log e s = (None, s)"

definition noOpLogger_Close :: "'s \<Rightarrow> goerror option \<times> 's" where
  "noOpLogger_Close s = (None, s)"

datatype logger = LocalFileLogger string | GCSLogger string | NoOpLogger

definition NewEventLogger :: "os \<Rightarrow> config \<Rightarrow> logger" where
  "NewEventLogger OS cfg =
     (let local_backend =
            (case os_mkdir_error OS (cfg_EventLogDir cfg) of
               Some err \<Rightarrow> NoOpLogger
             | None \<Rightarrow> LocalFileLogger (cfg_EventLogDir cfg))
      in if cfg_EventLogBackend cfg = ''gcs'' then
           (if cfg_EventLogBucket cfg = '''' then local_backend
            else GCSLogger (cfg_EventLogBucket cfg))
         else if cfg_EventLogBackend cfg = ''local'' then local_backend
         else NoOpLogger)"

record log_state =
  ls_local :: local_log
  ls_gcs :: gcs_log

definition new_log_state :: log_state where
  "new_log_state =
     \<lparr>ls_local = \<lparr>ll_files = Map.empty, ll_fds = None\<rparr>, ls_gcs = \<lparr>gl_sent = [], gl_uploads = []\<rparr>\<rparr>"

fun logger_Log :: "os \<Rightarrow> env \<Rightarrow> logger \<Rightarrow> event \<Rightarrow> log_state \<Rightarrow> goerror option \<times> log_state" where
  "logger_Log OS E (LocalFileLogger dir) e s =
     (let (err, l) = localFileLogger_Log OS dir e (ls_local s) in (err, s\<lparr>ls_local := l\<rparr>))"
| "logger_Log OS E (GCSLogger bucket) e s =
     (let (err, g) = gcsLogger_Log E bucket e (ls_gcs s) in (err, s\<lparr>ls_gcs := g\<rparr>))"
| "logger_Log OS E NoOpLogger e s = noOpLogger_Log e s"

fun logger_Close :: "os \<Rightarrow> logger \<Rightarrow> log_state \<Rightarrow> goerror option \<times> log_state" where
  "logger_Close OS (LocalFileLogger dir) s =
     (let (err, l) = localFileLogger_Close OS (ls_local s) in (err, s\<lparr>ls_local := l\<rparr>))"
| "logger_Close OS (GCSLogger bucket) s =
     (let (err, g) = gcsLogger_Close (ls_gcs s) in (err, s\<lparr>ls_gcs := g\<rparr>))"
| "logger_Close OS NoOpLogger s = noOpLogger_Close s"

subsection \<open>The contract\<close>

fun run_log :: "(event \<Rightarrow> 's \<Rightarrow> goerror option \<times> 's) \<Rightarrow> event list \<Rightarrow> 's \<Rightarrow> 's" where
  "run_log lg [] s = s"
| "run_log lg (e # es) s = run_log lg es (snd (lg e s))"

fun logged :: "(event \<Rightarrow> 's \<Rightarrow> goerror option \<times> 's) \<Rightarrow> event list \<Rightarrow> 's \<Rightarrow> event list" where
  "logged lg [] s = []"
| "logged lg (e # es) s =
     (if fst (lg e s) = None then e # logged lg es (snd (lg e s)) else logged lg es (snd (lg e s)))"

lemma logged_subset: "set (logged lg es s) \<subseteq> set es"
  proof (induction es arbitrary: s)
  case (Cons e es)
  then show ?case by (auto dest: subsetD [OF Cons.IH])
qed simp

lemma run_log_append: "run_log lg (es @ fs) s = run_log lg fs (run_log lg es s)"
  by (induction es arbitrary: s) auto

locale event_log =
  fixes lg :: "event \<Rightarrow> 's \<Rightarrow> goerror option \<times> 's"
    and entries :: "string \<Rightarrow> 's \<Rightarrow> json list"
    and inv :: "'s \<Rightarrow> bool"
    and good_id :: "string \<Rightarrow> bool"
  assumes inv_log: "inv s \<Longrightarrow> inv (snd (lg e s))"
    and frame: "inv s \<Longrightarrow> good_id (ev_RequestID e) \<Longrightarrow> good_id r \<Longrightarrow> r \<noteq> ev_RequestID e \<Longrightarrow>
      entries r (snd (lg e s)) = entries r s"
    and failed: "inv s \<Longrightarrow> fst (lg e s) \<noteq> None \<Longrightarrow> entries r (snd (lg e s)) = entries r s"
begin

lemma inv_run: "inv s \<Longrightarrow> inv (run_log lg es s)"
  by (induction es arbitrary: s) (auto intro: inv_log)

lemma run_frame:
  "inv s \<Longrightarrow> \<forall>e \<in> set es. ev_RequestID e = rid \<Longrightarrow> good_id rid \<Longrightarrow> good_id r \<Longrightarrow> r \<noteq> rid \<Longrightarrow>
   entries r (run_log lg es s) = entries r s"
  by (induction es arbitrary: s) (auto simp: frame inv_log)

end

locale durable_event_log = event_log +
  assumes appends: "inv s \<Longrightarrow> good_id (ev_RequestID e) \<Longrightarrow> fst (lg e s) = None \<Longrightarrow>
    entries (ev_RequestID e) (snd (lg e s)) = entries (ev_RequestID e) s @ [event_json e]"
begin

text \<open>After any run, a request's entries are what they were, followed by the events of that
  request that were logged without an error, in the order they were logged.\<close>

lemma run_entries:
  "inv s \<Longrightarrow> \<forall>e \<in> set es. good_id (ev_RequestID e) \<Longrightarrow> good_id r \<Longrightarrow>
   entries r (run_log lg es s) =
     entries r s @ map event_json (filter (\<lambda>e. ev_RequestID e = r) (logged lg es s))"
proof (induction es arbitrary: s)
  case Nil
  then show ?case by simp
next
  case (Cons e es)
  have step: "entries r (snd (lg e s)) = entries r s @
      (if ev_RequestID e = r \<and> fst (lg e s) = None then [event_json e] else [])"
    using Cons.prems appends [of s e] frame [of s e r] failed [of s e r] by auto
  show ?case
    using Cons.prems Cons.IH [of "snd (lg e s)"] inv_log [of s e] by (auto simp: step)
qed

end

subsection \<open>The backends meet it\<close>

definition plain_id :: "string \<Rightarrow> bool" where
  "plain_id rid \<longleftrightarrow> CHR ''/'' \<notin> set rid"

lemma plain_id_path_inj:
  "plain_id r \<Longrightarrow> plain_id r' \<Longrightarrow>
   path_join dir (r @ ''.jsonl'') = path_join dir (r' @ ''.jsonl'') \<longleftrightarrow> r = r'"
  by (simp add: plain_id_def path_join_inj plain_element_suffix)

definition local_inv :: "string \<Rightarrow> local_log \<Rightarrow> bool" where
  "local_inv dir s \<longleftrightarrow>
     (\<forall>m rid path. ll_fds s = Some m \<longrightarrow> map_of m rid = Some path \<longrightarrow> path = path_join dir (rid @ ''.jsonl''))"

definition local_entries :: "string \<Rightarrow> string \<Rightarrow> local_log \<Rightarrow> json list" where
  "local_entries dir r s = file_lines s (path_join dir (r @ ''.jsonl''))"

lemma local_write_spec:
  "local_write OS line p s = (err, s') \<Longrightarrow>
   ll_fds s' = ll_fds s \<and>
   (\<forall>q. file_lines s' q = file_lines s q @ (if err = None \<and> q = p then [line] else []))"
  by (auto simp: local_write_def file_lines_def split: option.splits)

lemma local_inv_map_of:
  "local_inv dir s \<Longrightarrow> map_of (case ll_fds s of None \<Rightarrow> [] | Some m \<Rightarrow> m) rid = Some path \<Longrightarrow>
   path = path_join dir (rid @ ''.jsonl'')"
  by (auto simp: local_inv_def split: option.splits)

lemma local_inv_fds:
  "local_inv dir s \<Longrightarrow> ll_fds s' = Some (case ll_fds s of None \<Rightarrow> [] | Some m \<Rightarrow> m) \<Longrightarrow> local_inv dir s'"
  "local_inv dir s \<Longrightarrow>
   ll_fds s' = Some ((rid, path_join dir (rid @ ''.jsonl'')) # (case ll_fds s of None \<Rightarrow> [] | Some m \<Rightarrow> m)) \<Longrightarrow>
   local_inv dir s'"
  by (auto simp: local_inv_def split: option.splits)

lemma local_Log_spec:
  assumes i: "local_inv dir s" and L: "localFileLogger_Log OS dir e s = (err, s')"
  shows "local_inv dir s' \<and> (\<forall>q. file_lines s' q = file_lines s q @
      (if err = None \<and> q = path_join dir (ev_RequestID e @ ''.jsonl'') then [event_json e] else []))"
proof (cases "marshalable_time (ev_Timestamp e)")
  case False
  with i L show ?thesis by (auto simp: localFileLogger_Log_def marshal_event_def)
next
  case m: True
  let ?fds = "case ll_fds s of None \<Rightarrow> [] | Some m \<Rightarrow> m"
  let ?p = "path_join dir (ev_RequestID e @ ''.jsonl'')"
  let ?s1 = "s\<lparr>ll_fds := Some ?fds\<rparr>"
  let ?s2 = "?s1\<lparr>ll_files := (ll_files ?s1)(?p \<mapsto> file_lines ?s1 ?p),
                  ll_fds := Some ((ev_RequestID e, ?p) # ?fds)\<rparr>"
  have s1: "file_lines ?s1 q = file_lines s q" for q by (simp add: file_lines_def)
  have s2: "file_lines ?s2 q = file_lines s q" for q by (auto simp: file_lines_def split: option.splits)
  show ?thesis
  proof (cases "map_of ?fds (ev_RequestID e)")
    case (Some path)
    then have path: "path = ?p" by (rule local_inv_map_of [OF i])
    have W: "local_write OS (event_json e) ?p ?s1 = (err, s')"
      using L m Some path by (simp add: localFileLogger_Log_def marshal_event_def Let_def)
    show ?thesis
      using local_write_spec [OF W] s1 by (auto intro: local_inv_fds(1) [OF i])
  next
    case None
    show ?thesis
    proof (cases "os_open_error OS ?p (length ?fds)")
      case (Some er)
      then have "err \<noteq> None" "s' = ?s1"
        using L m None by (auto simp: localFileLogger_Log_def marshal_event_def Let_def)
      then show ?thesis using s1 by (auto intro: local_inv_fds(1) [OF i])
    next
      case no: None
      have W: "local_write OS (event_json e) ?p ?s2 = (err, s')"
        using L m None no by (simp add: localFileLogger_Log_def marshal_event_def Let_def)
      show ?thesis
        using local_write_spec [OF W] s2 by (auto intro: local_inv_fds(2) [OF i])
    qed
  qed
qed

interpretation local_log: durable_event_log
  "localFileLogger_Log OS dir" "local_entries dir" "local_inv dir" plain_id
proof unfold_locales
  fix s e r
  assume i: "local_inv dir s"
  obtain err s' where L: "localFileLogger_Log OS dir e s = (err, s')" by fastforce
  note spec = local_Log_spec [OF i L]
  show "local_inv dir (snd (localFileLogger_Log OS dir e s))"
    using spec L by simp
  show "local_entries dir r (snd (localFileLogger_Log OS dir e s)) = local_entries dir r s"
    if "plain_id (ev_RequestID e)" "plain_id r" "r \<noteq> ev_RequestID e"
    using spec L that by (simp add: local_entries_def plain_id_path_inj)
  show "local_entries dir r (snd (localFileLogger_Log OS dir e s)) = local_entries dir r s"
    if "fst (localFileLogger_Log OS dir e s) \<noteq> None"
    using spec L that by (simp add: local_entries_def)
  show "local_entries dir (ev_RequestID e) (snd (localFileLogger_Log OS dir e s)) =
      local_entries dir (ev_RequestID e) s @ [event_json e]"
    if "plain_id (ev_RequestID e)" "fst (localFileLogger_Log OS dir e s) = None"
    using spec L that by (simp add: local_entries_def)
qed

text \<open>The bucket backend meets the first contract: the object name tells the requests apart.\<close>

definition gcs_entries :: "string \<Rightarrow> gcs_log \<Rightarrow> json list" where
  "gcs_entries r s =
     map (\<lambda>(url, rid, line). line)
       (filter (\<lambda>(url, rid, line). rid = r) (bucket_objects (gl_uploads s)))"

definition object_path :: "string \<Rightarrow> string \<Rightarrow> string \<Rightarrow> string" where
  "object_path d rid t = ''events/'' @ d @ ''/'' @ rid @ ''/'' @ t"

definition gcs_inv :: "string \<Rightarrow> gcs_log \<Rightarrow> bool" where
  "gcs_inv bucket s \<longleftrightarrow>
     (\<forall>(url, rid, line) \<in> set (gl_uploads s). \<exists>d t. CHR ''/'' \<notin> set d \<and>
        url = gcs_upload_url bucket (object_path d rid t))"

lemma object_path_inj:
  assumes "object_path d rid t = object_path d' rid' t'"
    and "CHR ''/'' \<notin> set d" "CHR ''/'' \<notin> set d'" "plain_id rid" "plain_id rid'"
  shows "rid = rid'"
proof -
  have "split_on CHR ''/'' (d @ CHR ''/'' # rid @ CHR ''/'' # t) =
        split_on CHR ''/'' (d' @ CHR ''/'' # rid' @ CHR ''/'' # t')"
    using assms(1) by (simp add: object_path_def)
  then show ?thesis
    using assms(2-) by (simp add: split_on_append_sep plain_id_def)
qed

lemma gcs_upload_url_inj: "gcs_upload_url bucket n = gcs_upload_url bucket n' \<longleftrightarrow> n = n'"
  by (simp add: gcs_upload_url_def)

lemma filter_update:
  "\<not> P (k, x) \<Longrightarrow> \<forall>v. (k, v) \<in> set al \<longrightarrow> \<not> P (k, v) \<Longrightarrow> filter P (AList.update k x al) = filter P al"
  by (induction al) auto

lemma bucket_objects_subset: "set (bucket_objects us) \<subseteq> set us"
proof (induction us rule: rev_induct)
  case Nil
  then show ?case by (simp add: bucket_objects_def)
next
  case (snoc u us)
  have "set (AList.update k x al) \<subseteq> insert (k, x) (set al)" for k :: string and x :: "string \<times> json" and al
    by (induction al) auto
  with snoc show ?case by (cases u) (fastforce simp: bucket_objects_def)
qed

lemma bucket_objects_snoc: "bucket_objects (us @ [(url, x)]) = AList.update url x (bucket_objects us)"
  by (simp add: bucket_objects_def)

lemma fetchMetadataToken_uploads: "fetchMetadataToken E s = (res, s') \<Longrightarrow> gl_uploads s' = gl_uploads s"
  by (auto simp: fetchMetadataToken_def gcs_do_def Let_def split: option.splits sum.splits prod.splits if_splits)

lemma gcs_Log_spec:
  assumes "gcsLogger_Log E bucket e s = (err, s')"
  shows "gl_uploads s' = gl_uploads s @
    (if err = None then [(gcs_upload_url bucket (gcs_object_name e), ev_RequestID e, event_json e)] else [])"
proof -
  obtain tok s1 where F: "fetchMetadataToken E s = (tok, s1)" by fastforce
  then have s1: "gl_uploads s1 = gl_uploads s" by (rule fetchMetadataToken_uploads)
  show ?thesis
  proof (cases "url_error E (gcs_upload_url bucket (gcs_object_name e))")
    case None
    with assms F s1 show ?thesis
      by (auto simp: gcsLogger_Log_def marshal_event_def gcs_do_def Let_def
            split: sum.splits if_splits)
  next
    case (Some er)
    with assms F s1 show ?thesis
      by (cases err)
         (auto simp: gcsLogger_Log_def marshal_event_def Let_def split: sum.splits if_splits)
  qed
qed

lemma gcs_object_name_path:
  "gcs_object_name e = object_path (format_date (ev_Timestamp e)) (ev_RequestID e) (ev_Type e @ ''.jsonl'')"
  by (simp add: gcs_object_name_def object_path_def)

lemma gcs_inv_uploaded:
  assumes "gcs_inv bucket s" and "(gcs_upload_url bucket (gcs_object_name e), rid, line) \<in> set (gl_uploads s)"
    and "plain_id rid" and "plain_id (ev_RequestID e)"
  shows "rid = ev_RequestID e"
proof -
  obtain d t where "CHR ''/'' \<notin> set d"
    and "gcs_upload_url bucket (gcs_object_name e) = gcs_upload_url bucket (object_path d rid t)"
    using bspec [OF assms(1) [unfolded gcs_inv_def] assms(2)] by auto
  then show ?thesis
    using assms(3,4) format_date_no_slash object_path_inj
    unfolding gcs_upload_url_inj gcs_object_name_path by metis
qed

interpretation gcs_log: event_log "gcsLogger_Log E bucket" gcs_entries "gcs_inv bucket" plain_id
proof unfold_locales
  fix s e r
  assume i: "gcs_inv bucket s"
  obtain err s' where L: "gcsLogger_Log E bucket e s = (err, s')" by fastforce
  note up = gcs_Log_spec [OF L]
  let ?url = "gcs_upload_url bucket (gcs_object_name e)"
  have new: "\<exists>d t. CHR ''/'' \<notin> set d \<and> ?url = gcs_upload_url bucket (object_path d (ev_RequestID e) t)"
    using gcs_object_name_path format_date_no_slash by metis
  show "gcs_inv bucket (snd (gcsLogger_Log E bucket e s))"
    using i new by (cases err) (simp_all add: gcs_inv_def up L)
  show "gcs_entries r (snd (gcsLogger_Log E bucket e s)) = gcs_entries r s"
    if good: "plain_id (ev_RequestID e)" "plain_id r" "r \<noteq> ev_RequestID e"
  proof -
    have "rid \<noteq> r" if "(?url, rid, line) \<in> set (bucket_objects (gl_uploads s))" for rid line
      using that bucket_objects_subset gcs_inv_uploaded [OF i] good by blast
    then have "filter (\<lambda>(u, rid, line). rid = r)
        (AList.update ?url (ev_RequestID e, event_json e) (bucket_objects (gl_uploads s)))
        = filter (\<lambda>(u, rid, line). rid = r) (bucket_objects (gl_uploads s))"
      using good(3) by (intro filter_update) auto
    then show ?thesis
      using up L by (simp add: gcs_entries_def bucket_objects_snoc)
  qed
  show "gcs_entries r (snd (gcsLogger_Log E bucket e s)) = gcs_entries r s"
    if "fst (gcsLogger_Log E bucket e s) \<noteq> None"
    using up L that by (auto simp: gcs_entries_def)
qed

interpretation no_log: event_log noOpLogger_Log "\<lambda>r s. []" "\<lambda>s. True" "\<lambda>r. True"
  by unfold_locales simp_all


subsection \<open>Properties\<close>

lemma gcs_uploads_run:
  "gl_uploads (run_log (gcsLogger_Log E bucket) es s) = gl_uploads s @
     map (\<lambda>e. (gcs_upload_url bucket (gcs_object_name e), ev_RequestID e, event_json e))
       (logged (gcsLogger_Log E bucket) es s)"
proof (induction es arbitrary: s)
  case (Cons e es)
  obtain err s' where L: "gcsLogger_Log E bucket e s = (err, s')" by fastforce
  with Cons show ?case using gcs_Log_spec [OF L] by simp
qed simp

lemma map_of_bucket_objects:
  "map_of (bucket_objects us) url = map_option snd (find (\<lambda>(u, x). u = url) (rev us))"
proof (induction us rule: rev_induct)
  case Nil
  then show ?case by (simp add: bucket_objects_def)
next
  case (snoc u us)
  then show ?case by (cases u) (simp add: bucket_objects_snoc update_conv)
qed

lemma find_map: "find P (map f xs) = map_option f (find (P \<circ> f) xs)"
  by (induction xs) auto



definition example_event :: "string \<Rightarrow> event" where
  "example_event rid = \<lparr>ev_RequestID = rid, ev_Timestamp = 0, ev_Type = ''pipeline.start'', ev_Stage = '''', ev_Data = []\<rparr>"

definition example_os :: os where
  "example_os = \<lparr>os_mkdir_error = (\<lambda>p. None), os_open_error = (\<lambda>p n. None), os_write_error = (\<lambda>p. None),
     os_close_error = (\<lambda>p. None)\<rparr>"


end
