(* ===== verification/Pipeline.thy ===== *)
theory Pipeline
  imports Proxy EventLog ApiErrors
begin

section \<open>The inference pipeline (internal/gateway/pipeline.go)\<close>

text \<open>
  \<open>parseStages\<close>, the three backend calls and the handler of \<open>POST /v1/pipeline/run\<close>. The three
  blocks of the handler are the definitions \<open>stt_stage\<close>, \<open>diarize_stage\<close> and
  \<open>summarize_stage\<close>; \<open>handlePipeline\<close> composes them in the handler's order. The event logger is
  a parameter \<open>lg\<close>; the handler ignores its errors.
\<close>

subsection \<open>Data\<close>

record speakerSegment =
  ss_Start :: rat
  ss_End :: rat
  ss_Speaker :: string
  ss_Text :: string

record stageResult =
  sr_DurationSeconds :: rat
  sr_Success :: bool
  sr_Error :: string

text \<open>\<open>pr_Segments\<close> is \<open>None\<close> for the nil slice.\<close>

record PipelineResponse =
  pr_RequestID :: string
  pr_CreatedAt :: string
  pr_ProcessingSeconds :: rat
  pr_Stages :: "(string \<times> stageResult) list"
  pr_Transcript :: string
  pr_Segments :: "speakerSegment list option"
  pr_Summary :: string

record PipelineOrchestrator =
  po_whisperURL :: string
  po_diarizerURL :: string
  po_summarizerURL :: string

definition NewPipelineOrchestrator :: "config \<Rightarrow> string \<Rightarrow> PipelineOrchestrator" where
  "NewPipelineOrchestrator cfg whisperURL =
     \<lparr>po_whisperURL = whisperURL, po_diarizerURL = cfg_DiarizerURL cfg,
      po_summarizerURL = cfg_SummarizerURL cfg\<rparr>"

definition segment_json :: "speakerSegment \<Rightarrow> json" where
  "segment_json s =
     JObj ([(''start'', JFloat (ss_Start s)), (''end'', JFloat (ss_End s)),
            (''speaker'', JStr (ss_Speaker s))] @
           (if ss_Text s = '''' then [] else [(''text'', JStr (ss_Text s))]))"

definition stageResult_json :: "stageResult \<Rightarrow> json" where
  "stageResult_json r =
     JObj ([(''duration_seconds'', JFloat (sr_DurationSeconds r)), (''success'', JBool (sr_Success r))] @
           (if sr_Error r = '''' then [] else [(''error'', JStr (sr_Error r))]))"

definition PipelineResponse_json :: "PipelineResponse \<Rightarrow> json" where
  "PipelineResponse_json p =
     JObj ([(''request_id'', JStr (pr_RequestID p)), (''created_at'', JStr (pr_CreatedAt p)),
            (''processing_time_seconds'', JFloat (pr_ProcessingSeconds p)),
            (''stages'', JObj (sort_key fst (map (\<lambda>(k, r). (k, stageResult_json r)) (pr_Stages p)))),
            (''transcript'', JStr (pr_Transcript p))] @
           (case pr_Segments p of
              Some (s # ss) \<Rightarrow> [(''segments'', JArr (map segment_json (s # ss)))]
            | _ \<Rightarrow> []) @
           (if pr_Summary p = '''' then [] else [(''summary'', JStr (pr_Summary p))]))"

subsection \<open>Which stages run\<close>

definition parseStages :: "string \<Rightarrow> string list" where
  "parseStages param =
     (if param = '''' then [''stt'', ''diarize'', ''summarize'']
      else filter (\<lambda>p. p \<noteq> '''') (map (\<lambda>p. trim_space (to_lower p)) (split_on CHR '','' param)))"

fun go_contains :: "string list \<Rightarrow> string \<Rightarrow> bool" where
  "go_contains [] item = False"
| "go_contains (s # ss) item = (if s = item then True else go_contains ss item)"

lemma go_contains_set [simp]: "go_contains xs item \<longleftrightarrow> item \<in> set xs"
  by (induction xs) auto

subsection \<open>Backend calls\<close>

definition runSTT ::
    "env \<Rightarrow> PipelineOrchestrator \<Rightarrow> bytes \<Rightarrow> string \<Rightarrow> string \<Rightarrow> string \<Rightarrow> 'l world \<Rightarrow>
     (goerror + string) \<times> 'l world" where
  "runSTT E po audioBytes filename model language w =
     (let req = \<lparr>tr_Model = (if model = '''' then default_model else model), tr_Language = language,
                 tr_ResponseFormat = ''''\<rparr>
      in Transcribe E (po_whisperURL po) (Inr audioBytes) filename req w)"

definition decode_segment :: "json \<Rightarrow> bool \<times> speakerSegment" where
  "decode_segment j =
     (let s = decode_field json_float 0 ''start'' j; e = decode_field json_float 0 ''end'' j;
          p = decode_field json_string '''' ''speaker'' j; t = decode_field json_string '''' ''text'' j
      in (fst s \<and> fst e \<and> fst p \<and> fst t,
          \<lparr>ss_Start = snd s, ss_End = snd e, ss_Speaker = snd p, ss_Text = snd t\<rparr>))"

definition decode_segments :: "json \<Rightarrow> bool \<times> speakerSegment list option" where
  "decode_segments j =
     fold (\<lambda>v (ok, x). case v of
             JNull \<Rightarrow> (ok, None)
           | JArr vs \<Rightarrow> (ok \<and> (\<forall>e \<in> set vs. fst (decode_segment e)), Some (map (\<lambda>e. snd (decode_segment e)) vs))
           | _ \<Rightarrow> (False, x))
       (field_values ''segments'' j) (is_struct_value j, None)"

definition runDiarize ::
    "env \<Rightarrow> PipelineOrchestrator \<Rightarrow> bytes \<Rightarrow> string \<Rightarrow> 'l world \<Rightarrow>
     (goerror + speakerSegment list option) \<times> 'l world" where
  "runDiarize E po audioBytes filename w =
     (let url = po_diarizerURL po @ ''/diarize''
      in case url_error E url of
           Some err \<Rightarrow> (Inl err, w)
         | None \<Rightarrow>
             (let (res, w1) = http_do E
                    \<lparr>or_method = ''POST'', or_url = url, or_content_type = multipart_type,
                     or_body = MultipartOut [FilePart ''file'' filename audioBytes]\<rparr> w
              in case res of
                   Inl err \<Rightarrow> (Inl (''diarizer request failed: '' @ err), w1)
                 | Inr resp \<Rightarrow>
                     if hr_status resp \<noteq> 200
                     then (Inl (''diarizer returned '' @ string_of_int (hr_status resp)), w1)
                     else (case (case hr_body resp of Inl err \<Rightarrow> Inl err | Inr b \<Rightarrow> json_decode b) of
                             Inl err \<Rightarrow> (Inl (''decoding diarizer response: '' @ err), w1)
                           | Inr j \<Rightarrow>
                               (let (ok, segs) = decode_segments j
                                in if ok then (Inr segs, w1)
                                   else (Inl (''decoding diarizer response: '' @ json_type_error), w1)))))"

definition segments_value :: "speakerSegment list option \<Rightarrow> json" where
  "segments_value segs = (case segs of None \<Rightarrow> JNull | Some ss \<Rightarrow> JArr (map segment_json ss))"

definition runSummarize ::
    "env \<Rightarrow> PipelineOrchestrator \<Rightarrow> string \<Rightarrow> speakerSegment list option \<Rightarrow> 'l world \<Rightarrow>
     (goerror + string) \<times> 'l world" where
  "runSummarize E po transcript segments w =
     (let url = po_summarizerURL po @ ''/summarize'';
          body = JObj [(''segments'', segments_value segments), (''transcript'', JStr transcript)]
      in case url_error E url of
           Some err \<Rightarrow> (Inl err, w)
         | None \<Rightarrow>
             (let (res, w1) = http_do E
                    \<lparr>or_method = ''POST'', or_url = url, or_content_type = ''application/json'',
                     or_body = JsonOut body\<rparr> w
              in case res of
                   Inl err \<Rightarrow> (Inl (''summarizer request failed: '' @ err), w1)
                 | Inr resp \<Rightarrow>
                     if hr_status resp \<noteq> 200
                     then (Inl (''summarizer returned '' @ string_of_int (hr_status resp)), w1)
                     else (case (case hr_body resp of Inl err \<Rightarrow> Inl err | Inr b \<Rightarrow> json_decode b) of
                             Inl err \<Rightarrow> (Inl (''decoding summarizer response: '' @ err), w1)
                           | Inr j \<Rightarrow>
                               (let (ok, summary) = decode_field json_string '''' ''summary'' j
                                in if ok then (Inr summary, w1)
                                   else (Inl (''decoding summarizer response: '' @ json_type_error), w1)))))"

subsection \<open>The handler\<close>

text \<open>Reading the clock for an event's timestamp, then logging it and ignoring the error.\<close>

definition emit ::
    "env \<Rightarrow> (event \<Rightarrow> 'l \<Rightarrow> goerror option \<times> 'l) \<Rightarrow> string \<Rightarrow> string \<Rightarrow> string \<Rightarrow>
     (string \<times> json) list \<Rightarrow> 'l world \<Rightarrow> 'l world" where
  "emit E lg rid ty stage data w =
     (let (t, w1) = time_now E w;
          e = \<lparr>ev_RequestID = rid, ev_Timestamp = t, ev_Type = ty, ev_Stage = stage, ev_Data = data\<rparr>
      in w1\<lparr>w_events := snd (lg e (w_events w1))\<rparr>)"

definition set_stage :: "string \<Rightarrow> stageResult \<Rightarrow> PipelineResponse \<Rightarrow> PipelineResponse" where
  "set_stage name r p = p\<lparr>pr_Stages := AList.update name r (pr_Stages p)\<rparr>"

definition stage_ok :: "rat \<Rightarrow> stageResult" where
  "stage_ok dur = \<lparr>sr_DurationSeconds = dur, sr_Success = True, sr_Error = ''''\<rparr>"

definition stage_failed :: "rat \<Rightarrow> goerror \<Rightarrow> stageResult" where
  "stage_failed dur err = \<lparr>sr_DurationSeconds = dur, sr_Success = False, sr_Error = err\<rparr>"

definition stt_stage where
  "stt_stage E lg po rid audio filename model language stages resp w =
     (if go_contains stages ''stt'' then
        (let (stageStart, w1) = time_now E w;
             w2 = emit E lg rid ''stage.start'' ''stt'' [] w1;
             (res, w3) = runSTT E po audio filename model language w2;
             (d, w4) = time_since E stageStart w3;
             dur = seconds_of d
         in case res of
              Inl err \<Rightarrow> (Inl err, emit E lg rid ''stage.error'' ''stt'' [(''error'', JStr err)] w4)
            | Inr transcript \<Rightarrow>
                (Inr (set_stage ''stt'' (stage_ok dur) (resp\<lparr>pr_Transcript := transcript\<rparr>)),
                 emit E lg rid ''stage.complete'' ''stt''
                   [(''duration_seconds'', JFloat dur), (''text_length'', JInt (int (length transcript)))] w4))
      else (Inr resp, w))"

definition diarize_stage where
  "diarize_stage E lg po rid audio filename stages resp w =
     (if go_contains stages ''diarize'' \<and> po_diarizerURL po \<noteq> '''' then
        (let (stageStart, w1) = time_now E w;
             w2 = emit E lg rid ''stage.start'' ''diarize'' [] w1;
             (res, w3) = runDiarize E po audio filename w2;
             (d, w4) = time_since E stageStart w3;
             dur = seconds_of d
         in case res of
              Inl err \<Rightarrow>
                (set_stage ''diarize'' (stage_failed dur err) resp,
                 emit E lg rid ''stage.error'' ''diarize'' [(''error'', JStr err)] w4)
            | Inr segments \<Rightarrow>
                (set_stage ''diarize'' (stage_ok dur) (resp\<lparr>pr_Segments := segments\<rparr>),
                 emit E lg rid ''stage.complete'' ''diarize''
                   [(''duration_seconds'', JFloat dur),
                    (''num_segments'', JInt (int (case segments of None \<Rightarrow> 0 | Some ss \<Rightarrow> length ss)))] w4))
      else (resp, w))"

definition summarize_stage where
  "summarize_stage E lg po rid stages resp w =
     (if go_contains stages ''summarize'' \<and> po_summarizerURL po \<noteq> '''' \<and> pr_Transcript resp \<noteq> '''' then
        (let (stageStart, w1) = time_now E w;
             w2 = emit E lg rid ''stage.start'' ''summarize'' [] w1;
             (res, w3) = runSummarize E po (pr_Transcript resp) (pr_Segments resp) w2;
             (d, w4) = time_since E stageStart w3;
             dur = seconds_of d
         in case res of
              Inl err \<Rightarrow>
                (set_stage ''summarize'' (stage_failed dur err) resp,
                 emit E lg rid ''stage.error'' ''summarize'' [(''error'', JStr err)] w4)
            | Inr summary \<Rightarrow>
                (set_stage ''summarize'' (stage_ok dur) (resp\<lparr>pr_Summary := summary\<rparr>),
                 emit E lg rid ''stage.complete'' ''summarize''
                   [(''duration_seconds'', JFloat dur)] w4))
      else (resp, w))"

definition stages_value :: "string list \<Rightarrow> json" where
  "stages_value stages = (if stages = [] then JNull else JArr (map JStr stages))"

definition max_form_bytes :: nat where
  "max_form_bytes = 32 * 2 ^ 20"

text \<open>The handler after the form was read: the events, the response record, the three stages.\<close>

definition run_pipeline where
  "run_pipeline E lg po rid pipelineStart fm up audio w =
     (let stages = parseStages (form_value fm ''stages'');
          filename = up_filename up;
          w1 = emit E lg rid ''pipeline.start'' ''''
                 [(''stages'', stages_value stages), (''filename'', JStr filename)] w;
          (created, w2) = time_now E w1;
          resp = \<lparr>pr_RequestID = rid, pr_CreatedAt = format_rfc3339 created, pr_ProcessingSeconds = 0,
                  pr_Stages = [], pr_Transcript = '''', pr_Segments = None, pr_Summary = ''''\<rparr>;
          (res, w3) = stt_stage E lg po rid audio filename (form_value fm ''model'')
                        (form_value fm ''language'') stages resp w2
      in case res of
           Inl err \<Rightarrow> (Inl err, w3)
         | Inr resp1 \<Rightarrow>
             (let (resp2, w4) = diarize_stage E lg po rid audio filename stages resp1 w3;
                  (resp3, w5) = summarize_stage E lg po rid stages resp2 w4;
                  (d, w6) = time_since E pipelineStart w5;
                  resp4 = resp3\<lparr>pr_ProcessingSeconds := seconds_of d\<rparr>
              in (Inr resp4,
                  emit E lg rid ''pipeline.complete'' ''''
                    [(''duration_seconds'', JFloat (pr_ProcessingSeconds resp4))] w6)))"

definition handlePipeline ::
    "env \<Rightarrow> (event \<Rightarrow> 'l \<Rightarrow> goerror option \<times> 'l) \<Rightarrow> PipelineOrchestrator \<Rightarrow> 'l handler" where
  "handlePipeline E lg po rq ctx = (\<lambda>(rs, w).
     let (pipelineStart, w1) = time_now E w;
         requestID = RequestIDFromContext ctx
     in case parse_multipart_form max_form_bytes rq of
          Inl err \<Rightarrow>
            (Returned, writeError ctx 400 ErrCodeFileTooLarge
               ''invalid multipart form or file too large (max 32MB)'' rs, w1)
        | Inr fm \<Rightarrow>
            (case form_file fm ''file'' of
               None \<Rightarrow>
                 (Returned, writeError ctx 400 ErrCodeFileRequired
                    (''missing '' @ [CHR 0x27] @ ''file'' @ [CHR 0x27] @ '' field in form data'') rs, w1)
             | Some up \<Rightarrow>
                 (case up_data up of
                    Inl err \<Rightarrow>
                      (Returned, writeError ctx 500 ErrCodeInternalError ''reading audio file'' rs, w1)
                  | Inr audioBytes \<Rightarrow>
                      (let (res, w2) = run_pipeline E lg po requestID pipelineStart fm up audioBytes w1
                       in case res of
                            Inl err \<Rightarrow>
                              (Returned, writeError ctx 502 ErrCodeBackendError
                                 (''STT stage failed: '' @ err) rs, w2)
                          | Inr resp \<Rightarrow>
                              (Returned, writeJSON 200 (PipelineResponse_json resp) rs, w2)))))"


subsection \<open>The handler does not look at its log\<close>

text \<open>
  \<open>replay lg l w\<close> is the world \<open>w\<close>, whose log recorded the events themselves, with the state
  the logger \<open>lg\<close> reaches from \<open>l\<close> on those events. Every operation of the pipeline commutes
  with it.
\<close>

definition with_log :: "'m \<Rightarrow> 'l world \<Rightarrow> 'm world" where
  "with_log l w =
     \<lparr>w_clock = w_clock w, w_rand = w_rand w, w_sent = w_sent w, w_events = l, w_access = w_access w,
      w_requests_total = w_requests_total w, w_durations = w_durations w, w_in_flight = w_in_flight w\<rparr>"

definition record_log :: "event \<Rightarrow> event list \<Rightarrow> goerror option \<times> event list" where
  "record_log e l = (None, l @ [e])"

definition replay :: "(event \<Rightarrow> 'l \<Rightarrow> goerror option \<times> 'l) \<Rightarrow> 'l \<Rightarrow> event list world \<Rightarrow> 'l world" where
  "replay lg l w = with_log (run_log lg (w_events w) l) w"

lemma time_now_replay [simp]:
  "time_now E (replay lg l w) = map_prod id (replay lg l) (time_now E w)"
  by (simp add: time_now_def replay_def with_log_def)

lemma time_since_replay [simp]:
  "time_since E t (replay lg l w) = map_prod id (replay lg l) (time_since E t w)"
  by (simp add: time_since_def replay_def with_log_def)

lemma http_do_replay [simp]:
  "http_do E rq (replay lg l w) = map_prod id (replay lg l) (http_do E rq w)"
  by (simp add: http_do_def replay_def with_log_def)

lemma emit_replay [simp]:
  "emit E lg rid ty st data (replay lg l w) = replay lg l (emit E record_log rid ty st data w)"
  by (simp add: emit_def replay_def with_log_def time_now_def record_log_def run_log_append)

lemma Transcribe_replay [simp]:
  "Transcribe E url file fn req (replay lg l w) = map_prod id (replay lg l) (Transcribe E url file fn req w)"
  by (auto simp: Transcribe_def Let_def split: sum.split option.split prod.split)

lemma runSTT_replay [simp]:
  "runSTT E po audio fn m la (replay lg l w) = map_prod id (replay lg l) (runSTT E po audio fn m la w)"
  by (simp add: runSTT_def)

lemma runDiarize_replay [simp]:
  "runDiarize E po audio fn (replay lg l w) = map_prod id (replay lg l) (runDiarize E po audio fn w)"
  by (auto simp: runDiarize_def Let_def split: sum.split option.split prod.split)

lemma runSummarize_replay [simp]:
  "runSummarize E po tx sg (replay lg l w) = map_prod id (replay lg l) (runSummarize E po tx sg w)"
  by (auto simp: runSummarize_def Let_def split: sum.split option.split prod.split)

lemma stt_stage_replay [simp]:
  "stt_stage E lg po rid audio fn m la stages resp (replay lg l w) =
   map_prod id (replay lg l) (stt_stage E record_log po rid audio fn m la stages resp w)"
  by (auto simp: stt_stage_def Let_def split: sum.split prod.split)

lemma diarize_stage_replay [simp]:
  "diarize_stage E lg po rid audio fn stages resp (replay lg l w) =
   map_prod id (replay lg l) (diarize_stage E record_log po rid audio fn stages resp w)"
  by (auto simp: diarize_stage_def Let_def split: sum.split prod.split)

lemma summarize_stage_replay [simp]:
  "summarize_stage E lg po rid stages resp (replay lg l w) =
   map_prod id (replay lg l) (summarize_stage E record_log po rid stages resp w)"
  by (auto simp: summarize_stage_def Let_def split: sum.split prod.split)

lemma run_pipeline_replay [simp]:
  "run_pipeline E lg po rid t fm up audio (replay lg l w) =
   map_prod id (replay lg l) (run_pipeline E record_log po rid t fm up audio w)"
  by (auto simp: run_pipeline_def Let_def split: sum.split prod.split)

lemma handlePipeline_replay:
  "handlePipeline E lg po rq ctx (rs, replay lg l w) =
   map_prod id (map_prod id (replay lg l)) (handlePipeline E record_log po rq ctx (rs, w))"
  by (auto simp: handlePipeline_def Let_def split: sum.split option.split prod.split)

lemma replay_start: "w = replay lg (w_events w) (with_log [] w)"
  by (simp add: replay_def with_log_def)


subsection \<open>What a run logs and sends\<close>

text \<open>
  \<open>extends rid tys sent E w w'\<close>: from \<open>w\<close> to \<open>w'\<close> the log grew by events of the request
  \<open>rid\<close> with the types and stages \<open>tys\<close>, and the requests \<open>sent\<close> went out, those with a URL
  the client refuses excepted.
\<close>

definition types :: "event list \<Rightarrow> (string \<times> string) list" where
  "types es = map (\<lambda>e. (ev_Type e, ev_Stage e)) es"

definition stage_block :: "string \<Rightarrow> bool \<Rightarrow> (string \<times> string) list" where
  "stage_block name ok =
     [(''stage.start'', name), (if ok then ''stage.complete'' else ''stage.error'', name)]"

definition stt_request :: "PipelineOrchestrator \<Rightarrow> string \<Rightarrow> bytes \<Rightarrow> string \<Rightarrow> string \<Rightarrow> out_request" where
  "stt_request po filename audio model language =
     \<lparr>or_method = ''POST'', or_url = po_whisperURL po @ ''/v1/audio/transcriptions'',
      or_content_type = multipart_type,
      or_body = MultipartOut (transcription_form filename audio
        \<lparr>tr_Model = (if model = '''' then default_model else model), tr_Language = language,
         tr_ResponseFormat = ''''\<rparr>)\<rparr>"

definition diarize_request :: "PipelineOrchestrator \<Rightarrow> string \<Rightarrow> bytes \<Rightarrow> out_request" where
  "diarize_request po filename audio =
     \<lparr>or_method = ''POST'', or_url = po_diarizerURL po @ ''/diarize'', or_content_type = multipart_type,
      or_body = MultipartOut [FilePart ''file'' filename audio]\<rparr>"

definition summarize_request :: "PipelineOrchestrator \<Rightarrow> string \<Rightarrow> speakerSegment list option \<Rightarrow> out_request" where
  "summarize_request po transcript segments =
     \<lparr>or_method = ''POST'', or_url = po_summarizerURL po @ ''/summarize'',
      or_content_type = ''application/json'',
      or_body = JsonOut (JObj [(''segments'', segments_value segments), (''transcript'', JStr transcript)])\<rparr>"

definition stage_request where
  "stage_request po filename audio model language resp name =
     (if name = ''stt'' then stt_request po filename audio model language
      else if name = ''diarize'' then diarize_request po filename audio
      else summarize_request po (pr_Transcript resp) (pr_Segments resp))"

definition extends :: "string \<Rightarrow> (string \<times> string) list \<Rightarrow> out_request list \<Rightarrow> env \<Rightarrow>
    event list world \<Rightarrow> event list world \<Rightarrow> bool" where
  "extends rid tys sent E w w' \<longleftrightarrow>
     (\<exists>es. w_events w' = w_events w @ es \<and> types es = tys \<and> (\<forall>e \<in> set es. ev_RequestID e = rid) \<and>
        w_sent w' = w_sent w @ filter (\<lambda>rq. url_error E (or_url rq) = None) sent)"

lemma extends_refl: "extends rid [] [] E w w"
  by (auto simp: extends_def types_def)

lemma extends_trans:
  assumes "extends rid ta ua E w1 w2" and "extends rid tb ub E w2 w3"
  shows "extends rid (ta @ tb) (ua @ ub) E w1 w3"
  using assms by (fastforce simp: extends_def types_def)

lemma extends_time_now: "time_now E w = (t, w') \<Longrightarrow> extends rid [] [] E w w'"
  by (auto simp: extends_def types_def time_now_def)

lemma extends_time_since: "time_since E s w = (t, w') \<Longrightarrow> extends rid [] [] E w w'"
  by (auto simp: extends_def types_def time_since_def)

lemma extends_emit: "extends rid [(ty, st)] [] E w (emit E record_log rid ty st data w)"
  by (auto simp: extends_def types_def emit_def time_now_def record_log_def)

lemma extends_runSTT:
  "runSTT E po audio fn m la w = (res, w') \<Longrightarrow> extends rid [] [stt_request po fn audio m la] E w w'"
  by (auto simp: extends_def types_def runSTT_def Transcribe_def stt_request_def http_do_def Let_def
        split: sum.splits option.splits if_splits)

lemma extends_runDiarize:
  "runDiarize E po audio fn w = (res, w') \<Longrightarrow> extends rid [] [diarize_request po fn audio] E w w'"
  by (auto simp: extends_def types_def runDiarize_def diarize_request_def http_do_def Let_def
        split: sum.splits option.splits if_splits prod.splits)

lemma extends_runSummarize:
  "runSummarize E po tx sg w = (res, w') \<Longrightarrow> extends rid [] [summarize_request po tx sg] E w w'"
  by (auto simp: extends_def types_def runSummarize_def summarize_request_def http_do_def Let_def
        split: sum.splits option.splits if_splits prod.splits)

text \<open>The shape every stage has: clock, start event, backend call, clock, end event.\<close>

lemma extends_stage:
  assumes "time_now E w = (t, w1)"
    and "extends rid [] [u] E (emit E record_log rid ''stage.start'' name [] w1) w3"
    and "time_since E s w3 = (d, w4)"
  shows "extends rid [(''stage.start'', name), (ty, name)] [u] E w (emit E record_log rid ty name data w4)"
  using extends_trans [OF extends_trans [OF extends_trans [OF extends_trans
      [OF extends_time_now [OF assms(1)] extends_emit] assms(2)] extends_time_since [OF assms(3)]] extends_emit]
  by simp

definition stage_trace :: "(string \<times> stageResult) list \<Rightarrow> (string \<times> string) list" where
  "stage_trace rs = concat (map (\<lambda>(name, r). stage_block name (sr_Success r)) rs)"

text \<open>Since the world \<open>w0\<close> exactly the stages \<open>names\<close> ran, with the requests \<open>sent\<close>; the
  response, the log and the network agree on it.\<close>

definition stages_done ::
    "string \<Rightarrow> env \<Rightarrow> string list \<Rightarrow> out_request list \<Rightarrow> event list world \<Rightarrow>
     PipelineResponse \<times> event list world \<Rightarrow> bool" where
  "stages_done rid E names sent w0 = (\<lambda>(resp, w).
     map fst (pr_Stages resp) = names \<and> pr_RequestID resp = rid \<and>
     extends rid (stage_trace (pr_Stages resp)) sent E w0 w)"

lemma update_fresh: "k \<notin> set (map fst al) \<Longrightarrow> AList.update k v al = al @ [(k, v)]"
  by (induction al) auto

lemma stages_done_add:
  assumes "stages_done rid E names sent w0 (resp, w)" and "n \<notin> set names"
    and "extends rid (stage_block n (sr_Success r)) [rq] E w w'"
    and "pr_Stages resp' = AList.update n r (pr_Stages resp)" and "pr_RequestID resp' = pr_RequestID resp"
  shows "stages_done rid E (names @ [n]) (sent @ [rq]) w0 (resp', w')"
proof -
  have "n \<notin> set (map fst (pr_Stages resp))"
    using assms(1,2) by (simp add: stages_done_def)
  then have "pr_Stages resp' = pr_Stages resp @ [(n, r)]"
    using assms(4) update_fresh by metis
  then show ?thesis
    using assms(1,5) extends_trans [OF _ assms(3)] by (auto simp: stages_done_def stage_trace_def)
qed

lemma set_stage_simps [simp]:
  "pr_Stages (set_stage n r p) = AList.update n r (pr_Stages p)"
  "pr_Transcript (set_stage n r p) = pr_Transcript p"
  "pr_RequestID (set_stage n r p) = pr_RequestID p"
  "pr_Segments (set_stage n r p) = pr_Segments p"
  "pr_Summary (set_stage n r p) = pr_Summary p"
  by (simp_all add: set_stage_def)

lemma stage_result_simps [simp]:
  "sr_Success (stage_ok d)" "\<not> sr_Success (stage_failed d err)"
  by (simp_all add: stage_ok_def stage_failed_def)

lemma stt_stage_done:
  assumes "stt_stage E record_log po rid audio fn m la stages resp w = (res, w')"
    and "stages_done rid E names sent w0 (resp, w)" and "''stt'' \<notin> set names"
  shows "case res of
      Inr resp' \<Rightarrow> stages_done rid E (names @ (if ''stt'' \<in> set stages then [''stt''] else []))
        (sent @ (if ''stt'' \<in> set stages then [stt_request po fn audio m la] else [])) w0 (resp', w') \<and>
        pr_Segments resp' = pr_Segments resp
    | Inl err \<Rightarrow> ''stt'' \<in> set stages \<and> extends rid (stage_block ''stt'' False) [stt_request po fn audio m la] E w w'"
proof (cases "''stt'' \<in> set stages")
  case False
  with assms show ?thesis by (auto simp: stt_stage_def)
next
  case True
  obtain t w1 where t: "time_now E w = (t, w1)" by fastforce
  obtain r w3 where r: "runSTT E po audio fn m la (emit E record_log rid ''stage.start'' ''stt'' [] w1) = (r, w3)"
    by fastforce
  obtain d w4 where d: "time_since E t w3 = (d, w4)" by fastforce
  note ext = extends_stage [OF t extends_runSTT [OF r] d]
  show ?thesis
  proof (cases r)
    case (Inl err)
    with assms(1) True t r d ext show ?thesis
      by (auto simp: stt_stage_def stage_block_def Let_def)
  next
    case (Inr tx)
    let ?resp = "set_stage ''stt'' (stage_ok (seconds_of d)) (resp\<lparr>pr_Transcript := tx\<rparr>)"
    have "res = Inr ?resp" "extends rid (stage_block ''stt'' True) [stt_request po fn audio m la] E w w'"
      using assms(1) True t r d ext Inr by (auto simp: stt_stage_def stage_block_def Let_def)
    with True show ?thesis
      using stages_done_add [OF assms(2,3), of "stage_ok (seconds_of d)" _ w' ?resp] by simp
  qed
qed

lemma diarize_stage_done:
  assumes "diarize_stage E record_log po rid audio fn stages resp w = (resp', w')"
    and "stages_done rid E names sent w0 (resp, w)" and "''diarize'' \<notin> set names"
  shows "stages_done rid E
      (names @ (if ''diarize'' \<in> set stages \<and> po_diarizerURL po \<noteq> '''' then [''diarize''] else []))
      (sent @ (if ''diarize'' \<in> set stages \<and> po_diarizerURL po \<noteq> ''''
               then [diarize_request po fn audio] else [])) w0 (resp', w') \<and>
    pr_Transcript resp' = pr_Transcript resp"
proof (cases "''diarize'' \<in> set stages \<and> po_diarizerURL po \<noteq> ''''")
  case False
  with assms show ?thesis by (auto simp: diarize_stage_def)
next
  case True
  obtain t w1 where t: "time_now E w = (t, w1)" by fastforce
  obtain r w3 where r: "runDiarize E po audio fn (emit E record_log rid ''stage.start'' ''diarize'' [] w1) = (r, w3)"
    by fastforce
  obtain d w4 where d: "time_since E t w3 = (d, w4)" by fastforce
  note ext = extends_stage [OF t extends_runDiarize [OF r] d]
  obtain sr where "pr_Stages resp' = AList.update ''diarize'' sr (pr_Stages resp)"
    and "pr_RequestID resp' = pr_RequestID resp" and "pr_Transcript resp' = pr_Transcript resp"
    and "extends rid (stage_block ''diarize'' (sr_Success sr)) [diarize_request po fn audio] E w w'"
    using assms(1) True t r d ext
    by (cases r) (auto simp: diarize_stage_def stage_block_def Let_def)
  with True show ?thesis
    using stages_done_add [OF assms(2,3), of sr _ w' resp'] by simp
qed

lemma summarize_stage_done:
  assumes "summarize_stage E record_log po rid stages resp w = (resp', w')"
    and "stages_done rid E names sent w0 (resp, w)" and "''summarize'' \<notin> set names"
  shows "stages_done rid E
      (names @ (if ''summarize'' \<in> set stages \<and> po_summarizerURL po \<noteq> '''' \<and> pr_Transcript resp \<noteq> ''''
                then [''summarize''] else []))
      (sent @ (if ''summarize'' \<in> set stages \<and> po_summarizerURL po \<noteq> '''' \<and> pr_Transcript resp \<noteq> ''''
               then [summarize_request po (pr_Transcript resp) (pr_Segments resp)] else [])) w0 (resp', w') \<and>
    pr_Segments resp' = pr_Segments resp \<and>
    pr_Transcript resp' = pr_Transcript resp"
proof (cases "''summarize'' \<in> set stages \<and> po_summarizerURL po \<noteq> '''' \<and> pr_Transcript resp \<noteq> ''''")
  case False
  with assms show ?thesis by (auto simp: summarize_stage_def)
next
  case True
  obtain t w1 where t: "time_now E w = (t, w1)" by fastforce
  obtain r w3 where r: "runSummarize E po (pr_Transcript resp) (pr_Segments resp)
      (emit E record_log rid ''stage.start'' ''summarize'' [] w1) = (r, w3)"
    by fastforce
  obtain d w4 where d: "time_since E t w3 = (d, w4)" by fastforce
  note ext = extends_stage [OF t extends_runSummarize [OF r] d]
  obtain sr where "pr_Stages resp' = AList.update ''summarize'' sr (pr_Stages resp)"
    and "pr_RequestID resp' = pr_RequestID resp" and "pr_Transcript resp' = pr_Transcript resp"
    and "pr_Segments resp' = pr_Segments resp"
    and "extends rid (stage_block ''summarize'' (sr_Success sr)) [summarize_request po (pr_Transcript resp) (pr_Segments resp)] E w w'"
    using assms(1) True t r d ext
    by (cases r) (auto simp: summarize_stage_def stage_block_def Let_def)
  with True show ?thesis
    using stages_done_add [OF assms(2,3), of sr _ w' resp'] by simp
qed

definition planned :: "PipelineOrchestrator \<Rightarrow> string list \<Rightarrow> string \<Rightarrow> string list" where
  "planned po stages transcript =
     (if ''stt'' \<in> set stages then [''stt''] else []) @
     (if ''diarize'' \<in> set stages \<and> po_diarizerURL po \<noteq> '''' then [''diarize''] else []) @
     (if ''summarize'' \<in> set stages \<and> po_summarizerURL po \<noteq> '''' \<and> transcript \<noteq> '''' then [''summarize''] else [])"

lemma run_pipeline_spec:
  assumes "run_pipeline E record_log po rid t fm up audio w = (res, w')"
  shows "case res of
      Inl err \<Rightarrow> ''stt'' \<in> set (parseStages (form_value fm ''stages'')) \<and>
        extends rid ([(''pipeline.start'', '''')] @ stage_block ''stt'' False)
          [stt_request po (up_filename up) audio (form_value fm ''model'') (form_value fm ''language'')] E w w'
    | Inr resp \<Rightarrow>
        map fst (pr_Stages resp) = planned po (parseStages (form_value fm ''stages'')) (pr_Transcript resp) \<and>
        pr_RequestID resp = rid \<and>
        extends rid ([(''pipeline.start'', '''')] @ stage_trace (pr_Stages resp) @ [(''pipeline.complete'', '''')])
          (map (stage_request po (up_filename up) audio (form_value fm ''model'') (form_value fm ''language'') resp)
             (map fst (pr_Stages resp))) E w w'"
proof -
  let ?stages = "parseStages (form_value fm ''stages'')"
  let ?stt = "stt_request po (up_filename up) audio (form_value fm ''model'') (form_value fm ''language'')"
  define w1 where "w1 = emit E record_log rid ''pipeline.start'' ''''
    [(''stages'', stages_value ?stages), (''filename'', JStr (up_filename up))] w"
  obtain created w2 where t2: "time_now E w1 = (created, w2)" by fastforce
  define r0 where "r0 = \<lparr>pr_RequestID = rid, pr_CreatedAt = format_rfc3339 created, pr_ProcessingSeconds = 0,
                  pr_Stages = [], pr_Transcript = '''', pr_Segments = None, pr_Summary = ''''\<rparr>"
  have e12: "extends rid [(''pipeline.start'', '''')] [] E w w2"
    using extends_trans [OF extends_emit extends_time_now [OF t2 [unfolded w1_def]]] by simp
  have d0: "stages_done rid E [] [] w2 (r0, w2)"
    by (simp add: stages_done_def r0_def stage_trace_def extends_refl)
  obtain res1 w3 where s3: "stt_stage E record_log po rid audio (up_filename up) (form_value fm ''model'')
      (form_value fm ''language'') ?stages r0 w2 = (res1, w3)" by fastforce
  note e3 = stt_stage_done [OF s3 d0, simplified]
  show ?thesis
  proof (cases res1)
    case (Inl err)
    then have "res = Inl err" "w' = w3"
      using assms t2 s3 by (auto simp: run_pipeline_def Let_def w1_def r0_def)
    then show ?thesis
      using e3 Inl extends_trans [OF e12] by fastforce
  next
    case (Inr r1)
    obtain r2 w4 where s4: "diarize_stage E record_log po rid audio (up_filename up) ?stages r1 w3 = (r2, w4)"
      by fastforce
    obtain r3 w5 where s5: "summarize_stage E record_log po rid ?stages r2 w4 = (r3, w5)" by fastforce
    obtain d w6 where s6: "time_since E t w5 = (d, w6)" by fastforce
    define r4 where "r4 = r3\<lparr>pr_ProcessingSeconds := seconds_of d\<rparr>"
    have fin: "res = Inr r4" "w' = emit E record_log rid ''pipeline.complete'' ''''
        [(''duration_seconds'', JFloat (pr_ProcessingSeconds r4))] w6"
      using assms t2 s3 s4 s5 s6 Inr by (auto simp: run_pipeline_def Let_def w1_def r0_def r4_def)
    have e56: "extends rid [(''pipeline.complete'', '''')] [] E w5 w'"
      using extends_trans [OF extends_time_since [OF s6] extends_emit] fin by simp
    have d1: "stages_done rid E (if ''stt'' \<in> set ?stages then [''stt''] else [])
        (if ''stt'' \<in> set ?stages then [?stt] else []) w2 (r1, w3)"
      using e3 Inr by simp
    note d2 = diarize_stage_done [OF s4 d1]
    note d3 = summarize_stage_done [OF s5]
    have d: "stages_done rid E (planned po ?stages (pr_Transcript r3))
        (map (stage_request po (up_filename up) audio (form_value fm ''model'') (form_value fm ''language'') r4)
           (planned po ?stages (pr_Transcript r3))) w2 (r3, w5)"
      using d2 d3 [OF conjunct1 [OF d2]] by (auto simp: planned_def stage_request_def r4_def split: if_splits)
    have "extends rid ([(''pipeline.start'', '''')] @ stage_trace (pr_Stages r3) @ [(''pipeline.complete'', '''')])
          (map (stage_request po (up_filename up) audio (form_value fm ''model'') (form_value fm ''language'') r4)
             (planned po ?stages (pr_Transcript r3))) E w w'"
      using extends_trans [OF extends_trans [OF e12] e56] d by (fastforce simp: stages_done_def)
    then show ?thesis
      using fin d by (simp add: r4_def stages_done_def)
  qed
qed


lemma types_append [simp]: "types (a @ b) = types a @ types b"
  by (simp add: types_def)

lemma pipeline_outcomes:
  assumes fm: "parse_multipart_form max_form_bytes rq = Inr fm" and up: "form_file fm ''file'' = Some up"
    and audio: "up_data up = Inr audio" and run: "handlePipeline E lg po rq ctx (rs, w) = (oc, rs', w')"
  shows "oc = Returned \<and> (\<exists>es res.
      w_events w' = run_log lg es (w_events w) \<and> (\<forall>e \<in> set es. ev_RequestID e = RequestIDFromContext ctx) \<and>
      (case res of
         Inl err \<Rightarrow>
           rs' = writeError ctx 502 ErrCodeBackendError (''STT stage failed: '' @ err) rs \<and>
           types es = [(''pipeline.start'', '''')] @ stage_block ''stt'' False \<and>
           w_sent w' = w_sent w @ filter (\<lambda>rq. url_error E (or_url rq) = None)
             [stt_request po (up_filename up) audio (form_value fm ''model'') (form_value fm ''language'')]
       | Inr resp \<Rightarrow>
           rs' = writeJSON 200 (PipelineResponse_json resp) rs \<and>
           pr_RequestID resp = RequestIDFromContext ctx \<and>
           map fst (pr_Stages resp) = planned po (parseStages (form_value fm ''stages'')) (pr_Transcript resp) \<and>
           types es = [(''pipeline.start'', '''')] @ stage_trace (pr_Stages resp) @ [(''pipeline.complete'', '''')] \<and>
           w_sent w' = w_sent w @ filter (\<lambda>rq. url_error E (or_url rq) = None)
             (map (stage_request po (up_filename up) audio (form_value fm ''model'') (form_value fm ''language'') resp)
                (map fst (pr_Stages resp)))))"
proof -
  define w0 where "w0 = with_log ([] :: event list) w"
  obtain t w1 where t: "time_now E w0 = (t, w1)" by fastforce
  obtain res w2 where r: "run_pipeline E record_log po (RequestIDFromContext ctx) t fm up audio w1 = (res, w2)"
    by fastforce
  have w1: "w_events w1 = []" "w_sent w1 = w_sent w"
    using t by (auto simp: w0_def with_log_def time_now_def)
  define rs2 where "rs2 = (case res of
      Inl err \<Rightarrow> writeError ctx 502 ErrCodeBackendError (''STT stage failed: '' @ err) rs
    | Inr resp \<Rightarrow> writeJSON 200 (PipelineResponse_json resp) rs)"
  have "handlePipeline E record_log po rq ctx (rs, w0) = (Returned, rs2, w2)"
    using fm up audio t r by (simp add: handlePipeline_def rs2_def split: sum.split)
  then have out: "oc = Returned" "rs' = rs2" "w' = replay lg (w_events w) w2"
    using handlePipeline_replay [of E lg po rq ctx rs "w_events w" w0] replay_start [of w lg] run
    by (simp_all add: w0_def)
  note spec = run_pipeline_spec [OF r]
  show ?thesis
    using out w1 spec rs2_def
    by (cases res) (auto simp: replay_def with_log_def extends_def simp del: map_map intro!: exI [of _ "w_events w2"] exI [of _ res])
qed


subsection \<open>The status code\<close>

lemma runSTT_result_frame:
  assumes "w_sent w = w_sent w'"
  shows "fst (runSTT E po audio fn m la w) = fst (runSTT E po audio fn m la w')"
  using assms by (auto simp: runSTT_def Transcribe_def http_do_def Let_def split: sum.split option.split)

definition pipeline_status :: "env \<Rightarrow> PipelineOrchestrator \<Rightarrow> request \<Rightarrow> 'l world \<Rightarrow> nat" where
  "pipeline_status E po rq w =
     (case parse_multipart_form max_form_bytes rq of
        Inl err \<Rightarrow> 400
      | Inr fm \<Rightarrow>
          (case form_file fm ''file'' of
             None \<Rightarrow> 400
           | Some up \<Rightarrow>
               (case up_data up of
                  Inl err \<Rightarrow> 500
                | Inr audio \<Rightarrow>
                    if ''stt'' \<in> set (parseStages (form_value fm ''stages'')) \<and>
                       isl (fst (runSTT E po audio (up_filename up) (form_value fm ''model'')
                                   (form_value fm ''language'') w))
                    then 502 else 200)))"

lemma stt_stage_isl:
  "isl (fst (stt_stage E lg po rid audio fn m la stages resp w)) \<longleftrightarrow>
   ''stt'' \<in> set stages \<and> isl (fst (runSTT E po audio fn m la w))"
proof -
  have "w_sent (emit E lg rid ''stage.start'' ''stt'' [] (snd (time_now E w))) = w_sent w"
    by (simp add: emit_def time_now_def)
  from runSTT_result_frame [OF this, of E po audio fn m la] show ?thesis
    by (cases "fst (runSTT E po audio fn m la w)")
       (auto simp: stt_stage_def Let_def split: prod.split sum.split)
qed

lemma run_pipeline_isl:
  "isl (fst (run_pipeline E lg po rid t fm up audio w)) \<longleftrightarrow>
   ''stt'' \<in> set (parseStages (form_value fm ''stages'')) \<and>
   isl (fst (runSTT E po audio (up_filename up) (form_value fm ''model'') (form_value fm ''language'') w))"
  (is "_ = (?r \<and> isl (fst (?stt w)))")
proof -
  let ?stages = "parseStages (form_value fm ''stages'')"
  define w1 where "w1 = emit E lg rid ''pipeline.start'' ''''
    [(''stages'', stages_value ?stages), (''filename'', JStr (up_filename up))] w"
  obtain created w2 where t2: "time_now E w1 = (created, w2)" by fastforce
  define r0 where "r0 = \<lparr>pr_RequestID = rid, pr_CreatedAt = format_rfc3339 created, pr_ProcessingSeconds = 0,
                  pr_Stages = [], pr_Transcript = '''', pr_Segments = None, pr_Summary = ''''\<rparr>"
  have "w_sent w2 = w_sent w" using t2 by (auto simp: w1_def emit_def time_now_def)
  then have "fst (?stt w2) = fst (?stt w)" by (rule runSTT_result_frame)
  with stt_stage_isl [of E lg po rid audio "up_filename up" "form_value fm ''model''"
      "form_value fm ''language''" ?stages r0 w2] show ?thesis
    using t2 by (auto simp: run_pipeline_def Let_def w1_def r0_def split: sum.split prod.split)
qed

lemma handlePipeline_status:
  assumes "fresh rs" and "handlePipeline E lg po rq ctx (rs, w) = (oc, rs', w')"
  shows "oc = Returned \<and>
    rs_sent rs' = Some (pipeline_status E po rq w, (rs_header rs)(''Content-Type'' \<mapsto> ''application/json''))"
proof -
  have "oc = Returned \<and> (\<exists>j. rs' = write_body (pipeline_status E po rq w) j rs)"
  proof (cases "\<exists>fm up audio. parse_multipart_form max_form_bytes rq = Inr fm \<and>
      form_file fm ''file'' = Some up \<and> up_data up = Inr audio")
    case False
    then show ?thesis
      using assms(2)
      by (auto simp: handlePipeline_def pipeline_status_def writeError_def Let_def
            split: sum.splits option.splits prod.splits)
  next
    case True
    then obtain fm up audio where ok: "parse_multipart_form max_form_bytes rq = Inr fm"
      "form_file fm ''file'' = Some up" "up_data up = Inr audio" by blast
    obtain t w1 where t: "time_now E w = (t, w1)" by fastforce
    obtain res w2 where r: "run_pipeline E lg po (RequestIDFromContext ctx) t fm up audio w1 = (res, w2)"
      by fastforce
    have "w_sent w1 = w_sent w" using t by (auto simp: time_now_def)
    note stt = runSTT_result_frame [OF this, of E po audio "up_filename up" "form_value fm ''model''"
        "form_value fm ''language''"]
    have "isl res \<longleftrightarrow> pipeline_status E po rq w = 502" "pipeline_status E po rq w \<in> {200, 502}"
      using run_pipeline_isl [of E lg po "RequestIDFromContext ctx" t fm up audio w1] ok r stt
      by (auto simp: pipeline_status_def)
    then show ?thesis
      using assms(2) ok t r
      by (cases res) (auto simp: handlePipeline_def writeError_def writeJSON_def)
  qed
  then show ?thesis
    using assms(1) by (auto simp: fresh_def write_body_fresh)
qed

lemma trim_space_subset: "set (trim_space s) \<subseteq> set s"
  by (auto simp: trim_space_def dest!: set_dropWhileD)

lemma ascii_lower_comma: "ascii_lower c = CHR '','' \<longleftrightarrow> c = CHR '',''"
proof
  assume "ascii_lower c = CHR '',''"
  then have "(of_char (ascii_lower c) :: nat) = of_char (CHR '','')" by simp
  then have "(of_char c :: nat) = of_char (CHR '','')"
    by (auto simp: ascii_lower_def split: if_splits)
  then show "c = CHR '',''" by (simp only: of_char_eq_iff)
qed (simp add: ascii_lower_def)

lemma parseStages_elem:
  assumes "x \<in> set (parseStages p)"
  shows "x \<noteq> '''' \<and> to_lower x = x \<and> trim_space x = x \<and> CHR '','' \<notin> set x"
proof (cases "p = ''''")
  case True
  with assms have "x \<in> set [''stt'', ''diarize'', ''summarize'']" by (simp add: parseStages_def)
  moreover have "\<forall>x \<in> set [''stt'', ''diarize'', ''summarize'']. x \<noteq> '''' \<and> to_lower x = x \<and> trim_space x = x \<and> CHR '','' \<notin> set x"
    by code_simp
  ultimately show ?thesis by blast
next
  case False
  with assms obtain y where y: "y \<in> set (split_on CHR '','' p)" "x = trim_space (to_lower y)" "x \<noteq> ''''"
    by (auto simp: parseStages_def)
  have "CHR '','' \<notin> set (to_lower y)"
    using split_on_no_sep [OF y(1)] unfolding to_lower_def by (metis ascii_lower_comma imageE list.set_map)
  with y trim_space_subset show ?thesis by (auto simp: to_lower_trim)
qed



text \<open>C10: the handler's behaviour does not depend on the event logger. Run with any logger, it
  gives the outcome and the response of a run that only records its events, leaves the same world,
  and the logger's state is the one the recorded events lead to, whatever errors it returned.\<close>

theorem handlePipeline_logger_transparent:
  "handlePipeline E lg po rq ctx (rs, w) =
     (let (oc, rs', w') = handlePipeline E record_log po rq ctx (rs, with_log [] w)
      in (oc, rs', with_log (run_log lg (w_events w') (w_events w)) w'))"
  using handlePipeline_replay [of E lg po rq ctx rs "w_events w" "with_log [] w"] replay_start [of w lg]
  by (simp add: replay_def split: prod.split)

text \<open>C1: the log of a request matches its response. A run that reaches the stages logs
  \<open>pipeline.start\<close> and then, for every stage it reports, in order, \<open>stage.start\<close> followed by
  \<open>stage.complete\<close> or \<open>stage.error\<close> as the response says, and last \<open>pipeline.complete\<close>; the
  stages reported are exactly the requested ones that are configured, the summary only for a
  transcript that is not empty. When transcription fails the response is a 502 and the log ends
  with that stage's error.\<close>

theorem handlePipeline_events:
  assumes "parse_multipart_form max_form_bytes rq = Inr fm" and "form_file fm ''file'' = Some up"
    and "up_data up = Inr audio" and "handlePipeline E lg po rq ctx (rs, w) = (oc, rs', w')"
  shows "\<exists>es. w_events w' = run_log lg es (w_events w) \<and>
    list_all (\<lambda>e. ev_RequestID e = RequestIDFromContext ctx) es \<and>
    ((\<exists>err. rs' = writeError ctx 502 ErrCodeBackendError (''STT stage failed: '' @ err) rs \<and>
        types es = [(''pipeline.start'', ''''), (''stage.start'', ''stt''), (''stage.error'', ''stt'')]) \<or>
     (\<exists>resp. rs' = writeJSON 200 (PipelineResponse_json resp) rs \<and>
        map fst (pr_Stages resp) = planned po (parseStages (form_value fm ''stages'')) (pr_Transcript resp) \<and>
        types es = [(''pipeline.start'', '''')] @ stage_trace (pr_Stages resp) @ [(''pipeline.complete'', '''')]))"
  using pipeline_outcomes [OF assms]
  apply (elim conjE exE)
  subgoal for es res
    by (cases res) (auto simp: list_all_iff stage_block_def intro!: exI [of _ es])
  done

text \<open>C13: the pipeline contacts exactly the backends of the stages it reports, one request each in
  the order transcription, diarization, summary (a URL the HTTP client refuses is not contacted).
  The transcriber and the diarizer get the uploaded audio unchanged under its file name, the
  summarizer gets the transcript and the segments that the response carries.\<close>

theorem handlePipeline_requests:
  assumes "parse_multipart_form max_form_bytes rq = Inr fm" and "form_file fm ''file'' = Some up"
    and "up_data up = Inr audio" and "handlePipeline E lg po rq ctx (rs, w) = (Returned, rs', w')"
  shows "(\<exists>err. rs' = writeError ctx 502 ErrCodeBackendError (''STT stage failed: '' @ err) rs \<and>
        w_sent w' = w_sent w @ filter (\<lambda>rq. url_error E (or_url rq) = None)
          [stt_request po (up_filename up) audio (form_value fm ''model'') (form_value fm ''language'')]) \<or>
     (\<exists>resp. rs' = writeJSON 200 (PipelineResponse_json resp) rs \<and>
        w_sent w' = w_sent w @ filter (\<lambda>rq. url_error E (or_url rq) = None)
          (map (stage_request po (up_filename up) audio (form_value fm ''model'') (form_value fm ''language'') resp)
             (planned po (parseStages (form_value fm ''stages'')) (pr_Transcript resp))))"
  using pipeline_outcomes [OF assms]
  apply (elim conjE exE)
  subgoal for es res by (cases res) (auto simp del: map_map)
  done

definition example_po :: PipelineOrchestrator where
  "example_po = \<lparr>po_whisperURL = ''http://w'', po_diarizerURL = ''http://d'', po_summarizerURL = ''''\<rparr>"

definition example_pipeline_env :: env where
  "example_pipeline_env = example_env (\<lambda>n rq.
     if or_url rq = ''http://w/v1/audio/transcriptions''
     then Inr \<lparr>hr_status = 200, hr_body = Inr ''{\"text\":\"hi\"}''\<rparr>
     else Inr \<lparr>hr_status = 500, hr_body = Inr ''''\<rparr>)"

definition example_pipeline_form :: form where
  "example_pipeline_form = \<lparr>fm_values = [], fm_files = [(''file'', example_upload ''a.wav'' [1, 2])]\<rparr>"

definition example_pipeline_request :: request where
  "example_pipeline_request = example_request ''POST'' ''/v1/pipeline/run'' example_pipeline_form"

lemma example_po_urls:
  "po_whisperURL example_po = ''http://w''" "po_diarizerURL example_po = ''http://d''"
  by (simp_all add: example_po_def)

lemma example_pipeline_facts:
  "parse_multipart_form max_form_bytes example_pipeline_request = Inr example_pipeline_form"
  "form_file example_pipeline_form ''file'' = Some (example_upload ''a.wav'' [1, 2])"
  "up_data (example_upload ''a.wav'' [1, 2]) = Inr [1, 2]"
  by (simp_all add: parse_multipart_form_def max_form_bytes_def example_pipeline_request_def
      example_request_def example_pipeline_form_def form_file_def example_upload_def)

theorem handlePipeline_events_witness:
  "\<exists>rs' w'. handlePipeline example_pipeline_env record_log example_po example_pipeline_request (Some ''r'')
       (new_resp False, new_world []) = (Returned, rs', w') \<and>
     (types (w_events w') = [(''pipeline.start'', ''''), (''stage.start'', ''stt''), (''stage.error'', ''stt'')] \<or>
      (\<exists>stages. map fst stages = [''stt'', ''diarize''] \<and>
         types (w_events w') = [(''pipeline.start'', '''')] @ stage_trace stages @ [(''pipeline.complete'', '''')]))"
proof -
  obtain oc rs' w' where r: "handlePipeline example_pipeline_env record_log example_po example_pipeline_request
      (Some ''r'') (new_resp False, new_world []) = (oc, rs', w')"
    using prod_cases3 by blast
  have rec: "run_log record_log es l = l @ es" for es l
    by (induction es arbitrary: l) (auto simp: record_log_def)
  have p: "planned example_po (parseStages (form_value example_pipeline_form ''stages'')) tx = [''stt'', ''diarize'']" for tx
    by (simp add: example_pipeline_form_def form_value_def parseStages_def planned_def example_po_def)
  have "oc = Returned" using pipeline_outcomes [OF example_pipeline_facts r] by blast
  with r handlePipeline_events [OF example_pipeline_facts r] show ?thesis
    by (simp add: rec p new_world_def) metis
qed

theorem handlePipeline_requests_witness:
  "\<exists>rs' w'. handlePipeline example_pipeline_env record_log example_po example_pipeline_request (Some ''r'')
       (new_resp False, new_world []) = (Returned, rs', w') \<and>
     (map or_url (w_sent w') = [''http://w/v1/audio/transcriptions''] \<or>
      map or_url (w_sent w') = [''http://w/v1/audio/transcriptions'', ''http://d/diarize''])"
proof -
  obtain oc rs' w' where r: "handlePipeline example_pipeline_env record_log example_po example_pipeline_request
      (Some ''r'') (new_resp False, new_world []) = (oc, rs', w')"
    using prod_cases3 by blast
  have p: "planned example_po (parseStages (form_value example_pipeline_form ''stages'')) tx = [''stt'', ''diarize'']" for tx
    by (simp add: example_pipeline_form_def form_value_def parseStages_def planned_def example_po_def)
  have "oc = Returned" using pipeline_outcomes [OF example_pipeline_facts r] by blast
  with r handlePipeline_requests [OF example_pipeline_facts r [unfolded this]] show ?thesis
    by (auto simp: p new_world_def example_pipeline_env_def example_env_def stage_request_def
        stt_request_def diarize_request_def example_po_urls)
qed

text \<open>C21: the status of the response. 400 for a form that does not parse or has no \<open>file\<close>, 500
  when the upload cannot be read, 502 exactly when transcription was requested and failed, and 200
  otherwise: a failing diarizer or summarizer never fails the request. The response is JSON and
  the handler does not panic.\<close>

theorem handlePipeline_status_code:
  assumes "fresh rs" and "handlePipeline E lg po rq ctx (rs, w) = (oc, rs', w')"
  shows "oc = Returned \<and>
    rs_sent rs' = Some (pipeline_status E po rq w, (rs_header rs)(''Content-Type'' \<mapsto> ''application/json''))"
  by (rule handlePipeline_status [OF assms])

lemma example_pipeline_stt:
  "fst (runSTT example_pipeline_env example_po [1, 2] ''a.wav'' '''' '''' (new_world [])) = Inr ''hi''"
  by code_simp

lemma example_pipeline_status:
  "pipeline_status example_pipeline_env example_po example_pipeline_request (new_world []) = 200"
  unfolding pipeline_status_def example_pipeline_facts
  by (simp add: example_upload_def example_pipeline_form_def form_value_def form_file_def example_pipeline_stt)

theorem handlePipeline_status_code_witness:
  "\<exists>rs' w'. handlePipeline example_pipeline_env record_log example_po example_pipeline_request (Some ''r'')
       (new_resp False, new_world []) = (Returned, rs', w') \<and> wire_status rs' = 200"
proof -
  obtain oc rs' w' where r: "handlePipeline example_pipeline_env record_log example_po example_pipeline_request
      (Some ''r'') (new_resp False, new_world []) = (oc, rs', w')"
    using prod_cases3 by blast
  from handlePipeline_status_code [OF _ r] r show ?thesis
    by (auto simp: example_pipeline_status wire_status_def)
qed

lemma pipeline_event_list:
  assumes "parse_multipart_form max_form_bytes rq = Inr fm" and "form_file fm ''file'' = Some up"
    and "up_data up = Inr audio" and "handlePipeline E lg po rq ctx (rs, w) = (oc, rs', w')"
  shows "\<exists>es. w_events w' = run_log lg es (w_events w) \<and>
    (\<forall>e \<in> set es. ev_RequestID e = RequestIDFromContext ctx) \<and> hd (types es) = (''pipeline.start'', '''')"
  using pipeline_outcomes [OF assms]
  apply (elim conjE exE)
  subgoal for es res by (cases res) (auto intro!: exI [of _ es])
  done


definition quiet_os :: os where
  "quiet_os = \<lparr>os_mkdir_error = (\<lambda>d. None), os_open_error = (\<lambda>p n. None),
               os_write_error = (\<lambda>p. None), os_close_error = (\<lambda>p. None)\<rparr>"

definition empty_local_log :: local_log where
  "empty_local_log = \<lparr>ll_files = Map.empty, ll_fds = None\<rparr>"


end
