(* ===== verification/Stream_Session.thy ===== *)
theory Stream_Session
  imports Proxy ApiErrors Config "HOL-Library.Multiset" "HOL-Library.Sublist"
begin

section \<open>Streaming transcription (internal/gateway/stream.go)\<close>

text \<open>
  The audio buffer and its WAV encoder, the two goroutines of a streaming session and their
  interleaving. A goroutine moves from one critical section of the buffer's mutex to the next; the
  unlocked read of \<open>totalBytes\<close> is a move of its own. What a session does is a sequence of moves
  of the two goroutines in any order.
\<close>

subsection \<open>Configuration and messages\<close>

record StreamConfig =
  sc_MaxBufferDuration :: duration
  sc_SilenceFlushDelay :: duration
  sc_SampleRate :: int
  sc_FrameSize :: int
  sc_VADEndpoint :: string

definition DefaultStreamConfig :: StreamConfig where
  "DefaultStreamConfig =
     \<lparr>sc_MaxBufferDuration = go_seconds 30, sc_SilenceFlushDelay = go_seconds 2,
      sc_SampleRate = 16000, sc_FrameSize = 640, sc_VADEndpoint = ''http://localhost:8001''\<rparr>"

definition stream_config :: "config \<Rightarrow> StreamConfig" where
  "stream_config cfg =
     (if cfg_VADEndpoint cfg \<noteq> '''' then DefaultStreamConfig\<lparr>sc_VADEndpoint := cfg_VADEndpoint cfg\<rparr>
      else DefaultStreamConfig)"

record StreamMessage =
  sm_Type :: string
  sm_Text :: string
  sm_IsFinal :: bool
  sm_Duration :: rat
  sm_RequestID :: string

definition StreamMessage_json :: "StreamMessage \<Rightarrow> json" where
  "StreamMessage_json m =
     JObj ([(''type'', JStr (sm_Type m)), (''text'', JStr (sm_Text m)), (''is_final'', JBool (sm_IsFinal m)),
            (''duration_seconds'', JFloat (sm_Duration m))] @
           (if sm_RequestID m = '''' then [] else [(''request_id'', JStr (sm_RequestID m))]))"

subsection \<open>Writing a WAV file\<close>

text \<open>Writing through a slice expression \<open>buf[lo:hi]\<close>: \<open>None\<close> when the bounds or an index are
  out of range.\<close>

definition on_window :: "nat \<Rightarrow> nat \<Rightarrow> (bytes \<Rightarrow> bytes option) \<Rightarrow> bytes \<Rightarrow> bytes option" where
  "on_window lo hi f buf =
     (if lo \<le> hi \<and> hi \<le> length buf
      then (case f (take (hi - lo) (drop lo buf)) of
              None \<Rightarrow> None
            | Some m \<Rightarrow> Some (take lo buf @ m @ drop hi buf))
      else None)"

definition go_copy :: "bytes \<Rightarrow> bytes \<Rightarrow> bytes option" where
  "go_copy src dst = copy_at dst 0 src"

definition bytes_of_string :: "string \<Rightarrow> bytes" where
  "bytes_of_string s = map (\<lambda>c. of_char c) s"

definition putLE16 :: "16 word \<Rightarrow> bytes \<Rightarrow> bytes option" where
  "putLE16 v b =
     (if length b < 2 then None else Some (b[0 := ucast v, 1 := ucast (drop_bit 8 v)]))"

definition putLE32 :: "32 word \<Rightarrow> bytes \<Rightarrow> bytes option" where
  "putLE32 v b =
     (if length b < 4 then None
      else Some (b[0 := ucast v, 1 := ucast (drop_bit 8 v), 2 := ucast (drop_bit 16 v),
                   3 := ucast (drop_bit 24 v)]))"

fun copy_frames :: "bytes list \<Rightarrow> nat \<Rightarrow> bytes \<Rightarrow> bytes option" where
  "copy_frames [] offset buf = Some buf"
| "copy_frames (f # fs) offset buf =
     (case copy_at buf offset f of
        None \<Rightarrow> None
      | Some buf' \<Rightarrow> copy_frames fs (offset + length f) buf')"

fun all_writes :: "(bytes \<Rightarrow> bytes option) list \<Rightarrow> bytes \<Rightarrow> bytes option" where
  "all_writes [] buf = Some buf"
| "all_writes (f # fs) buf = (case f buf of None \<Rightarrow> None | Some buf' \<Rightarrow> all_writes fs buf')"

definition buildWAV :: "bytes list \<Rightarrow> nat \<Rightarrow> int \<Rightarrow> bytes option" where
  "buildWAV frames totalPCM sampleRate =
     all_writes
       [on_window 0 4 (go_copy (bytes_of_string ''RIFF'')),
        on_window 4 8 (putLE32 (word_of_nat (36 + totalPCM))),
        on_window 8 12 (go_copy (bytes_of_string ''WAVE'')),
        on_window 12 16 (go_copy (bytes_of_string ''fmt '')),
        on_window 16 20 (putLE32 16),
        on_window 20 22 (putLE16 1),
        on_window 22 24 (putLE16 1),
        on_window 24 28 (putLE32 (word_of_int sampleRate)),
        on_window 28 32 (putLE32 (word_of_int (sampleRate * 2))),
        on_window 32 34 (putLE16 2),
        on_window 34 36 (putLE16 16),
        on_window 36 40 (go_copy (bytes_of_string ''data'')),
        on_window 40 44 (putLE32 (word_of_nat totalPCM)),
        copy_frames frames 44]
       (replicate (44 + totalPCM) 0)"


subsection \<open>The layout of the file\<close>

definition le16 :: "16 word \<Rightarrow> bytes" where
  "le16 v = [ucast v, ucast (drop_bit 8 v)]"

definition le32 :: "32 word \<Rightarrow> bytes" where
  "le32 v = [ucast v, ucast (drop_bit 8 v), ucast (drop_bit 16 v), ucast (drop_bit 24 v)]"

definition wav_header :: "nat \<Rightarrow> int \<Rightarrow> bytes" where
  "wav_header totalPCM sampleRate =
     bytes_of_string ''RIFF'' @ le32 (word_of_nat (36 + totalPCM)) @ bytes_of_string ''WAVE'' @
     bytes_of_string ''fmt '' @ le32 16 @ le16 1 @ le16 1 @ le32 (word_of_int sampleRate) @
     le32 (word_of_int (sampleRate * 2)) @ le16 2 @ le16 16 @
     bytes_of_string ''data'' @ le32 (word_of_nat totalPCM)"

lemma wav_header_length [simp]: "length (wav_header n sr) = 44"
  by (simp add: wav_header_def bytes_of_string_def le16_def le32_def)

lemma le_length [simp]: "length (le16 v) = 2" "length (le32 x) = 4"
  by (simp_all add: le16_def le32_def)

text \<open>A write that fills its window, behind what was already written.\<close>

lemma on_window_fill:
  assumes "length done = lo" and "length src = hi - lo" and "lo \<le> hi" and "hi \<le> lo + length rest"
    and "\<And>b. length b = hi - lo \<Longrightarrow> f b = Some src"
  shows "on_window lo hi f (done @ rest) = Some ((done @ src) @ drop (hi - lo) rest)"
  using assms by (simp add: on_window_def)

lemma go_copy_fill: "length b = length src \<Longrightarrow> go_copy src b = Some src"
  by (simp add: go_copy_def copy_at_def Let_def)

lemma putLE16_fill: "length b = 2 \<Longrightarrow> putLE16 v b = Some (le16 v)"
  by (auto simp: putLE16_def le16_def numeral_2_eq_2 length_Suc_conv)

lemma putLE32_fill: "length b = 4 \<Longrightarrow> putLE32 v b = Some (le32 v)"
  by (auto simp: putLE32_def le32_def eval_nat_numeral length_Suc_conv)

lemma copy_frames_fill:
  "length pre = offset \<Longrightarrow> length rest = length (concat frames) \<Longrightarrow>
   copy_frames frames offset (pre @ rest) = Some (pre @ concat frames)"
proof (induction frames arbitrary: pre offset rest)
  case (Cons f fs)
  have "copy_at (pre @ rest) offset f = Some ((pre @ f) @ drop (length f) rest)"
    using copy_at_append [OF Cons.prems(1), of f rest] Cons.prems(2) by simp
  then show ?case
    using Cons.IH [of "pre @ f" "offset + length f" "drop (length f) rest"] Cons.prems by simp
qed simp

lemma string_bytes_length [simp]: "length (bytes_of_string s) = length s"
  by (simp add: bytes_of_string_def)

lemma all_writes_window:
  assumes "length pre = lo" and "lo \<le> hi" and "hi \<le> lo + length rest"
  shows "length src = hi - lo \<Longrightarrow> all_writes (on_window lo hi (go_copy src) # fs) (pre @ rest) =
      all_writes fs ((pre @ src) @ drop (hi - lo) rest)"
    and "hi - lo = 2 \<Longrightarrow> all_writes (on_window lo hi (putLE16 v) # fs) (pre @ rest) =
      all_writes fs ((pre @ le16 v) @ drop 2 rest)"
    and "hi - lo = 4 \<Longrightarrow> all_writes (on_window lo hi (putLE32 x) # fs) (pre @ rest) =
      all_writes fs ((pre @ le32 x) @ drop 4 rest)"
  using assms on_window_fill [of pre lo src hi rest "go_copy src"]
    on_window_fill [of pre lo "le16 v" hi rest "putLE16 v"]
    on_window_fill [of pre lo "le32 x" hi rest "putLE32 x"]
  by (simp_all add: go_copy_fill putLE16_fill putLE32_fill)

lemma buildWAV_layout:
  assumes "totalPCM = length (concat frames)"
  shows "buildWAV frames totalPCM sampleRate = Some (wav_header totalPCM sampleRate @ concat frames)"
proof -
  have "buildWAV frames totalPCM sampleRate =
      all_writes [copy_frames frames 44] (wav_header totalPCM sampleRate @ replicate totalPCM 0)"
    unfolding buildWAV_def
    apply (subst append_Nil [symmetric, of "replicate (44 + totalPCM) 0"])
    apply (simp add: all_writes_window del: append_assoc append_Nil all_writes.simps(2))
    apply (simp add: wav_header_def del: all_writes.simps(2))
    done
  then show ?thesis
    using assms by (simp add: copy_frames_fill)
qed


subsection \<open>Reading it back\<close>

text \<open>A reader of 16-bit mono PCM WAV files that checks every field of the header.\<close>

fun le_value :: "bytes \<Rightarrow> nat" where
  "le_value [] = 0"
| "le_value (b # bs) = unat b + 256 * le_value bs"

definition field :: "nat \<Rightarrow> nat \<Rightarrow> bytes \<Rightarrow> bytes" where
  "field off n b = take n (drop off b)"

definition parse_wav :: "bytes \<Rightarrow> (nat \<times> bytes) option" where
  "parse_wav b =
     (let rate = le_value (field 24 4 b) in
      if 44 \<le> length b \<and>
         field 0 4 b = bytes_of_string ''RIFF'' \<and> le_value (field 4 4 b) + 8 = length b \<and>
         field 8 4 b = bytes_of_string ''WAVE'' \<and> field 12 4 b = bytes_of_string ''fmt '' \<and>
         le_value (field 16 4 b) = 16 \<and> le_value (field 20 2 b) = 1 \<and> le_value (field 22 2 b) = 1 \<and>
         le_value (field 28 4 b) = rate * 2 \<and> le_value (field 32 2 b) = 2 \<and>
         le_value (field 34 2 b) = 16 \<and> field 36 4 b = bytes_of_string ''data'' \<and>
         le_value (field 40 4 b) + 44 = length b
      then Some (rate, drop 44 b) else None)"

lemma byte_digits2: "n < 65536 \<Longrightarrow> n mod 256 + 256 * (n div 256 mod 256) = (n :: nat)"
  using mod_mult_div_eq [of n 256] by (simp add: div_less_iff_less_mult)

lemma byte_digits4:
  assumes "n < 4294967296"
  shows "n mod 256 + 256 * (n div 256 mod 256 + 256 * (n div 65536 mod 256 +
      256 * (n div 16777216 mod 256))) = (n :: nat)"
proof -
  have d: "n div 65536 div 256 = n div 16777216" "n div 256 div 256 = n div 65536"
    by (simp_all flip: div_mult2_eq)
  have "n div 65536 < 65536" using assms by (simp add: div_less_iff_less_mult)
  from byte_digits2 [OF this, unfolded d]
  have h: "n div 65536 mod 256 + 256 * (n div 16777216 mod 256) = n div 65536" .
  show ?thesis
    unfolding h mod_mult_div_eq [of "n div 256" 256, unfolded d] by (rule mod_mult_div_eq)
qed

lemma unat_ucast_byte: "unat (ucast v :: byte) = unat v mod 256"
  by (simp add: unsigned_ucast_eq take_bit_eq_mod)

lemma le_value_le16 [simp]: "le_value (le16 v) = unat v"
  using byte_digits2 [of "unat v"] unsigned_less [of v, where ?'a = nat]
  by (simp only: le16_def le_value.simps unat_ucast_byte unat_drop_bit_eq drop_bit_eq_div [where ?'a = nat]) simp

lemma le_value_le32 [simp]: "le_value (le32 v) = unat v"
proof -
  have b: "unat v < 4294967296" using unsigned_less [of v, where ?'a = nat] by simp
  from byte_digits4 [OF b] b show ?thesis
    by (simp only: le32_def le_value.simps unat_ucast_byte unat_drop_bit_eq drop_bit_eq_div [where ?'a = nat]) simp
qed

lemma unat_32_small: "n < 2 ^ 32 \<Longrightarrow> unat (word_of_nat n :: 32 word) = n"
  by (simp add: unsigned_of_nat take_bit_eq_mod)

lemma unat_32_int: "0 \<le> n \<Longrightarrow> n < 2 ^ 32 \<Longrightarrow> unat (word_of_int n :: 32 word) = nat n"
  by (simp add: unsigned_of_int take_bit_eq_mod)

lemma parse_wav_buildWAV:
  assumes "36 + length (concat frames) < 2 ^ 32" and "0 \<le> sampleRate" and "sampleRate < 2 ^ 31"
  shows "parse_wav (wav_header (length (concat frames)) sampleRate @ concat frames) =
    Some (nat sampleRate, concat frames)"
proof -
  let ?n = "length (concat frames)"
  have s: "unat (word_of_nat (36 + ?n) :: 32 word) = 36 + ?n" "unat (word_of_nat ?n :: 32 word) = ?n"
    "unat (word_of_int sampleRate :: 32 word) = nat sampleRate"
    "unat (word_of_int (sampleRate * 2) :: 32 word) = nat sampleRate * 2"
    using assms unat_32_small [of "36 + ?n"] unat_32_small [of ?n] unat_32_int [of sampleRate]
      unat_32_int [of "sampleRate * 2"]
    by (simp_all del: of_int_mult of_nat_add length_concat add: nat_mult_distrib)
  have f: "field off n (a @ b) = field off n a" if "off + n \<le> length a" for off n and a b :: bytes
    using that by (simp add: field_def)
  let ?h = "wav_header ?n sampleRate"
  have h: "field 0 4 ?h = bytes_of_string ''RIFF''" "field 4 4 ?h = le32 (word_of_nat (36 + ?n))"
    "field 8 4 ?h = bytes_of_string ''WAVE''" "field 12 4 ?h = bytes_of_string ''fmt ''"
    "field 16 4 ?h = le32 16" "field 20 2 ?h = le16 1" "field 22 2 ?h = le16 1"
    "field 24 4 ?h = le32 (word_of_int sampleRate)" "field 28 4 ?h = le32 (word_of_int (sampleRate * 2))"
    "field 32 2 ?h = le16 2" "field 34 2 ?h = le16 16" "field 36 4 ?h = bytes_of_string ''data''"
    "field 40 4 ?h = le32 (word_of_nat ?n)"
    by (simp_all add: field_def wav_header_def)
  show ?thesis
    by (simp add: parse_wav_def f h s Let_def del: length_concat of_nat_add of_int_mult)
qed


subsection \<open>The audio buffer\<close>

text \<open>The zero time of the Go struct is \<open>None\<close>.\<close>

record audioBuffer =
  ab_frames :: "bytes list"
  ab_totalBytes :: nat
  ab_speechStart :: "instant option"
  ab_lastSpeech :: "instant option"
  ab_isSpeaking :: bool

definition newAudioBuffer :: audioBuffer where
  "newAudioBuffer =
     \<lparr>ab_frames = [], ab_totalBytes = 0, ab_speechStart = None, ab_lastSpeech = None,
      ab_isSpeaking = False\<rparr>"

definition addFrame :: "bytes \<Rightarrow> audioBuffer \<Rightarrow> audioBuffer" where
  "addFrame frame b =
     b\<lparr>ab_frames := ab_frames b @ [frame], ab_totalBytes := ab_totalBytes b + length frame\<rparr>"

definition markSpeech :: "instant \<Rightarrow> audioBuffer \<Rightarrow> audioBuffer" where
  "markSpeech now b =
     (let b1 = (if \<not> ab_isSpeaking b then b\<lparr>ab_speechStart := Some now, ab_isSpeaking := True\<rparr> else b)
      in b1\<lparr>ab_lastSpeech := Some now\<rparr>)"

definition markSilence :: "audioBuffer \<Rightarrow> audioBuffer" where
  "markSilence b = b\<lparr>ab_isSpeaking := False\<rparr>"

text \<open>\<open>float64(totalBytes) / 2.0 / float64(sampleRate)\<close>: an exact quotient, or what IEEE division
  by zero gives. For the byte counts and rates in question rounding does not change a comparison
  with a whole number of seconds.\<close>

datatype go_float = Finite rat | PosInf | NotANumber

definition buffer_secs :: "nat \<Rightarrow> int \<Rightarrow> go_float" where
  "buffer_secs totalBytes sampleRate =
     (if sampleRate = 0 then (if totalBytes = 0 then NotANumber else PosInf)
      else Finite (of_nat totalBytes / 2 / of_int sampleRate))"

fun float_less :: "go_float \<Rightarrow> rat \<Rightarrow> bool" where
  "float_less (Finite x) y = (x < y)"
| "float_less PosInf y = False"
| "float_less NotANumber y = False"

fun float_ge :: "go_float \<Rightarrow> rat \<Rightarrow> bool" where
  "float_ge (Finite x) y = (y \<le> x)"
| "float_ge PosInf y = True"
| "float_ge NotANumber y = False"

text \<open>\<open>now\<close> is the reading of the clock \<open>time.Since\<close> uses, when the code gets that far.\<close>

definition shouldFlush :: "duration \<Rightarrow> duration \<Rightarrow> int \<Rightarrow> instant \<Rightarrow> audioBuffer \<Rightarrow> bool" where
  "shouldFlush silenceDelay maxDuration sampleRate now b =
     (if length (ab_frames b) = 0 then False
      else
        (let bufferSecs = buffer_secs (ab_totalBytes b) sampleRate
         in if float_less bufferSecs 1 then False
            else if float_ge bufferSecs (seconds_of maxDuration) then True
            else (case ab_lastSpeech b of
                    Some t \<Rightarrow> if \<not> ab_isSpeaking b then silenceDelay \<le> now - t else False
                  | None \<Rightarrow> False)))"

text \<open>\<open>None\<close> is a panic of the WAV encoder; the value is the audio, \<open>None\<close> for the nil slice.\<close>

definition flush :: "int \<Rightarrow> audioBuffer \<Rightarrow> (bytes option \<times> audioBuffer) option" where
  "flush sampleRate b =
     (if length (ab_frames b) = 0 then Some (None, b)
      else
        (let totalPCM = sum_list (map length (ab_frames b))
         in case buildWAV (ab_frames b) totalPCM sampleRate of
              None \<Rightarrow> None
            | Some wav \<Rightarrow>
                Some (Some wav,
                  b\<lparr>ab_frames := [], ab_totalBytes := 0, ab_lastSpeech := None, ab_isSpeaking := False\<rparr>)))"

subsection \<open>The buffer as a queue of audio\<close>

text \<open>
  What the two goroutines rely on: adding a frame appends its bytes to the contents, the marks
  leave the contents alone, and taking the audio never fails, empties the buffer and gives all of
  the contents.
\<close>

datatype ('f, 't) queue_op = Add 'f | Touch 't | Take

fun run_queue ::
    "('f \<Rightarrow> 'b \<Rightarrow> 'b) \<Rightarrow> ('t \<Rightarrow> 'b \<Rightarrow> 'b) \<Rightarrow> ('b \<Rightarrow> ('p option \<times> 'b) option) \<Rightarrow>
     ('f, 't) queue_op list \<Rightarrow> 'b \<Rightarrow> ('p list \<times> 'b) option" where
  "run_queue add touch take_all [] b = Some ([], b)"
| "run_queue add touch take_all (Add f # ops) b = run_queue add touch take_all ops (add f b)"
| "run_queue add touch take_all (Touch t # ops) b = run_queue add touch take_all ops (touch t b)"
| "run_queue add touch take_all (Take # ops) b =
     (case take_all b of
        None \<Rightarrow> None
      | Some (None, b') \<Rightarrow> run_queue add touch take_all ops b'
      | Some (Some p, b') \<Rightarrow>
          (case run_queue add touch take_all ops b' of
             None \<Rightarrow> None
           | Some (ps, b'') \<Rightarrow> Some (p # ps, b'')))"

fun added :: "('a list, 't) queue_op list \<Rightarrow> 'a list" where
  "added [] = []"
| "added (Add f # ops) = f @ added ops"
| "added (Touch t # ops) = added ops"
| "added (Take # ops) = added ops"

lemma added_append [simp]: "added (xs @ ys) = added xs @ added ys"
  by (induction xs rule: added.induct) auto

locale audio_queue =
  fixes add :: "'a list \<Rightarrow> 'b \<Rightarrow> 'b"
    and touch :: "'t \<Rightarrow> 'b \<Rightarrow> 'b"
    and take_all :: "'b \<Rightarrow> ('p option \<times> 'b) option"
    and contents :: "'b \<Rightarrow> 'a list"
    and payload :: "'p \<Rightarrow> 'a list"
  assumes contents_add: "contents (add f b) = contents b @ f"
    and contents_touch: "contents (touch t b) = contents b"
    and take_all: "\<exists>p b'. take_all b = Some (p, b') \<and> contents b' = [] \<and>
      contents b = (case p of None \<Rightarrow> [] | Some a \<Rightarrow> payload a)"
begin

lemma run_total: "\<exists>ps b'. run_queue add touch take_all ops b = Some (ps, b')"
proof (induction ops arbitrary: b)
  case (Cons op ops)
  then show ?case
  proof (cases op)
    case Take
    obtain p b' where t: "take_all b = Some (p, b')" using take_all by blast
    obtain ps b'' where "run_queue add touch take_all ops b' = Some (ps, b'')" using Cons by blast
    with t Take show ?thesis by (cases p) auto
  qed auto
qed auto

text \<open>Nothing is lost, duplicated or reordered: what was taken, followed by what is left, is what
  was there followed by what was added.\<close>

lemma run_conserves:
  "run_queue add touch take_all ops b = Some (ps, b') \<Longrightarrow>
   concat (map payload ps) @ contents b' = contents b @ added ops"
proof (induction ops arbitrary: b ps)
  case (Cons op ops)
  show ?case
  proof (cases op)
    case Take
    obtain p b1 where t: "take_all b = Some (p, b1)" "contents b1 = []"
      "contents b = (case p of None \<Rightarrow> [] | Some a \<Rightarrow> payload a)" using take_all by blast
    with Take Cons.prems Cons.IH [of b1] show ?thesis
      by (cases p) (auto split: option.splits)
  qed (use Cons in \<open>auto simp: contents_add contents_touch\<close>)
qed auto

end

lemma run_queue_append:
  "run_queue add touch tk (xs @ ys) b =
     (case run_queue add touch tk xs b of
        None \<Rightarrow> None
      | Some (ps, b') \<Rightarrow>
          (case run_queue add touch tk ys b' of None \<Rightarrow> None | Some (qs, b'') \<Rightarrow> Some (ps @ qs, b'')))"
proof (induction xs arbitrary: b)
  case (Cons x xs)
  then show ?case by (cases x) (auto split: option.splits prod.splits)
qed (auto split: option.splits)

datatype mark = Speech instant | Silence

fun touch_buffer :: "mark \<Rightarrow> audioBuffer \<Rightarrow> audioBuffer" where
  "touch_buffer (Speech t) b = markSpeech t b"
| "touch_buffer Silence b = markSilence b"

definition pcm_of :: "bytes \<Rightarrow> bytes" where
  "pcm_of wav = drop 44 wav"

definition buffered :: "audioBuffer \<Rightarrow> bytes" where
  "buffered b = concat (ab_frames b)"

lemma flush_spec:
  "flush sampleRate b =
     (if ab_frames b = [] then Some (None, b)
      else Some (Some (wav_header (length (buffered b)) sampleRate @ buffered b),
        b\<lparr>ab_frames := [], ab_totalBytes := 0, ab_lastSpeech := None, ab_isSpeaking := False\<rparr>))"
  by (simp add: flush_def buildWAV_layout buffered_def length_concat)

interpretation audio_buffer: audio_queue addFrame touch_buffer "flush sampleRate" buffered pcm_of
proof unfold_locales
  show "buffered (addFrame f b) = buffered b @ f" for f b
    by (simp add: buffered_def addFrame_def)
  show "buffered (touch_buffer t b) = buffered b" for t b
    by (cases t) (simp_all add: buffered_def markSpeech_def markSilence_def Let_def)
  show "\<exists>p b'. flush sampleRate b = Some (p, b') \<and> buffered b' = [] \<and>
      buffered b = (case p of None \<Rightarrow> [] | Some a \<Rightarrow> pcm_of a)" for b
    by (auto simp: flush_spec buffered_def pcm_of_def)
qed

text \<open>The byte count agrees with the frames, and silence before any speech leaves no trace.\<close>

definition buffer_ok :: "audioBuffer \<Rightarrow> bool" where
  "buffer_ok b \<longleftrightarrow> ab_totalBytes b = length (buffered b)"

lemma buffer_ok_ops:
  "buffer_ok newAudioBuffer"
  "buffer_ok b \<Longrightarrow> buffer_ok (addFrame f b)"
  "buffer_ok b \<Longrightarrow> buffer_ok (markSpeech now b)"
  "buffer_ok b \<Longrightarrow> buffer_ok (markSilence b)"
  "buffer_ok b \<Longrightarrow> flush sampleRate b = Some (p, b') \<Longrightarrow> buffer_ok b'"
  by (auto simp: buffer_ok_def newAudioBuffer_def buffered_def addFrame_def markSpeech_def
      markSilence_def flush_spec Let_def split: if_splits)


subsection \<open>Talking to the backends\<close>

definition checkVAD :: "env \<Rightarrow> bytes \<Rightarrow> string \<Rightarrow> 'l world \<Rightarrow> (goerror + bool) \<times> 'l world" where
  "checkVAD E frame vadURL w =
     (let url = vadURL @ ''/vad''
      in case url_error E url of
           Some err \<Rightarrow> (Inl err, w)
         | None \<Rightarrow>
             (let (res, w1) = http_do E
                    \<lparr>or_method = ''POST'', or_url = url, or_content_type = ''application/octet-stream'',
                     or_body = BytesOut frame\<rparr> w
              in case res of
                   Inl err \<Rightarrow> (Inl err, w1)
                 | Inr resp \<Rightarrow>
                     (case (case hr_body resp of Inl err \<Rightarrow> Inl err | Inr b \<Rightarrow> json_decode b) of
                        Inl err \<Rightarrow> (Inr False, w1)
                      | Inr j \<Rightarrow> (Inr (snd (decode_field json_bool False ''speech'' j)), w1))))"

text \<open>\<open>sendStreamMessage\<close> ignores the outcome of the write: the model records the message. A
  message's JSON encoding cannot fail.\<close>

definition sendStreamMessage :: "StreamMessage \<Rightarrow> json list \<Rightarrow> json list" where
  "sendStreamMessage msg out = out @ [StreamMessage_json msg]"

text \<open>\<open>flushBuffer\<close> from the point where it took the audio: the request to Whisper and the messages
  to the client.\<close>

definition wav_request :: "string \<Rightarrow> bytes \<Rightarrow> out_request" where
  "wav_request whisperURL wav =
     \<lparr>or_method = ''POST'', or_url = whisperURL @ ''/v1/audio/transcriptions'',
      or_content_type = multipart_type,
      or_body = MultipartOut [FilePart ''file'' ''stream.wav'' wav, FieldPart ''model'' default_model]\<rparr>"

definition transcribe_wav ::
    "env \<Rightarrow> config \<Rightarrow> string \<Rightarrow> bytes \<Rightarrow> json list \<times> 'l world \<Rightarrow> json list \<times> 'l world" where
  "transcribe_wav E cfg requestID wav = (\<lambda>(out, w).
     let (start, w1) = time_now E w;
         whisperURL = cfg_WhisperURL cfg @ ''/v1/audio/transcriptions''
     in case url_error E whisperURL of
          Some err \<Rightarrow> (out, w1)
        | None \<Rightarrow>
            (let (res, w2) = http_do E (wav_request (cfg_WhisperURL cfg) wav) w1
             in case res of
                  Inl err \<Rightarrow>
                    (sendStreamMessage
                       \<lparr>sm_Type = ''error'', sm_Text = ''transcription failed: '' @ err, sm_IsFinal = False,
                        sm_Duration = 0, sm_RequestID = requestID\<rparr> out, w2)
                | Inr resp \<Rightarrow>
                    if hr_status resp \<noteq> 200 then (out, w2)
                    else
                      (let respBody = (case hr_body resp of Inl err \<Rightarrow> '''' | Inr b \<Rightarrow> b);
                           txt = (case json_unmarshal respBody of
                                    Inl err \<Rightarrow> '''' | Inr j \<Rightarrow> snd (whisper_text j));
                           (d, w3) = time_since E start w2
                       in (sendStreamMessage
                             \<lparr>sm_Type = ''final'', sm_Text = txt, sm_IsFinal = True,
                              sm_Duration = seconds_of d, sm_RequestID = requestID\<rparr> out, w3))))"

definition flushBuffer ::
    "env \<Rightarrow> config \<Rightarrow> StreamConfig \<Rightarrow> string \<Rightarrow> audioBuffer \<times> json list \<times> 'l world \<Rightarrow>
     (audioBuffer \<times> json list \<times> 'l world) option" where
  "flushBuffer E cfg sc requestID = (\<lambda>(b, out, w).
     case flush (sc_SampleRate sc) b of
       None \<Rightarrow> None
     | Some (None, b') \<Rightarrow> Some (b', out, w)
     | Some (Some wav, b') \<Rightarrow> Some (b', transcribe_wav E cfg requestID wav (out, w)))"

subsection \<open>The two goroutines\<close>

text \<open>
  The results of \<open>conn.Read\<close> come from the client (\<open>ws_event\<close>). The reader's program counter:
  \<open>Reading\<close> at \<open>conn.Read\<close>; \<open>Checking\<close> before the VAD call; \<open>Marking\<close> and \<open>Adding\<close> for a
  frame with speech; \<open>Testing\<close>, \<open>Trailing\<close> and \<open>Quieting\<close> for a silent one; \<open>Flushing\<close> and
  \<open>Sending\<close> inside the last \<open>flushBuffer\<close>; \<open>Done\<close> when the handler returned. The flag says
  whether the client asked to close. The flush loop waits for its ticker, takes the audio, sends
  it, and stops once the context is cancelled.
\<close>

datatype ws_event = TextMessage string | BinaryMessage bytes | ReadError

datatype reader_pc =
    Reading | Checking bytes | Marking bytes | Adding bytes | Testing bytes | Trailing bytes | Quieting
  | Flushing bool | Sending bytes bool | Done

datatype flusher_pc = Ticking | FlushDue | FlushSending bytes | Stopped

record session =
  se_buffer :: audioBuffer
  se_input :: "ws_event list"
  se_reader :: reader_pc
  se_flusher :: flusher_pc
  se_out :: "json list"
  se_closed :: bool

type_synonym buffer_op = "(bytes, mark) queue_op"

definition new_session :: "ws_event list \<Rightarrow> session" where
  "new_session input =
     \<lparr>se_buffer = newAudioBuffer, se_input = input, se_reader = Reading, se_flusher = Ticking,
      se_out = [], se_closed = False\<rparr>"

text \<open>A move returns the operations it performed on the buffer, and \<open>None\<close> when the goroutine is
  blocked or finished.\<close>

definition reader_move ::
    "env \<Rightarrow> config \<Rightarrow> StreamConfig \<Rightarrow> string \<Rightarrow> session \<times> 'l world \<Rightarrow>
     (buffer_op list \<times> session \<times> 'l world) option" where
  "reader_move E cfg sc requestID = (\<lambda>(s, w).
     let b = se_buffer s in
     case se_reader s of
       Reading \<Rightarrow>
         (case se_input s of
            [] \<Rightarrow> None
          | ReadError # rest \<Rightarrow> Some ([], s\<lparr>se_input := rest, se_reader := Flushing False\<rparr>, w)
          | TextMessage t # rest \<Rightarrow>
              (if t = ''close'' then Some ([], s\<lparr>se_input := rest, se_reader := Flushing True\<rparr>, w)
               else Some ([], s\<lparr>se_input := rest\<rparr>, w))
          | BinaryMessage data # rest \<Rightarrow> Some ([], s\<lparr>se_input := rest, se_reader := Checking data\<rparr>, w))
     | Checking data \<Rightarrow>
         (let (res, w1) = checkVAD E data (sc_VADEndpoint sc) w;
              isSpeech = (case res of Inl err \<Rightarrow> True | Inr speech \<Rightarrow> speech)
          in Some ([], s\<lparr>se_reader := (if isSpeech then Marking data else Testing data)\<rparr>, w1))
     | Marking data \<Rightarrow>
         (let (now, w1) = time_now E w
          in Some ([Touch (Speech now)], s\<lparr>se_buffer := markSpeech now b, se_reader := Adding data\<rparr>, w1))
     | Adding data \<Rightarrow> Some ([Add data], s\<lparr>se_buffer := addFrame data b, se_reader := Reading\<rparr>, w)
     | Testing data \<Rightarrow>
         Some ([], s\<lparr>se_reader := (if 0 < ab_totalBytes b then Trailing data else Quieting)\<rparr>, w)
     | Trailing data \<Rightarrow> Some ([Add data], s\<lparr>se_buffer := addFrame data b, se_reader := Quieting\<rparr>, w)
     | Quieting \<Rightarrow> Some ([Touch Silence], s\<lparr>se_buffer := markSilence b, se_reader := Reading\<rparr>, w)
     | Flushing close \<Rightarrow>
         (case flush (sc_SampleRate sc) b of
            None \<Rightarrow> None
          | Some (None, b') \<Rightarrow>
              Some ([Take], s\<lparr>se_buffer := b', se_reader := Done, se_closed := close\<rparr>, w)
          | Some (Some wav, b') \<Rightarrow> Some ([Take], s\<lparr>se_buffer := b', se_reader := Sending wav close\<rparr>, w))
     | Sending wav close \<Rightarrow>
         (let (out, w1) = transcribe_wav E cfg requestID wav (se_out s, w)
          in Some ([], s\<lparr>se_out := out, se_reader := Done, se_closed := close\<rparr>, w1))
     | Done \<Rightarrow> None)"

definition flusher_move ::
    "env \<Rightarrow> config \<Rightarrow> StreamConfig \<Rightarrow> string \<Rightarrow> session \<times> 'l world \<Rightarrow>
     (buffer_op list \<times> session \<times> 'l world) option" where
  "flusher_move E cfg sc requestID = (\<lambda>(s, w).
     let b = se_buffer s in
     case se_flusher s of
       Ticking \<Rightarrow>
         (let (now, w1) = time_now E w
          in Some ([], s\<lparr>se_flusher :=
               (if shouldFlush (sc_SilenceFlushDelay sc) (sc_MaxBufferDuration sc) (sc_SampleRate sc) now b
                then FlushDue else Ticking)\<rparr>, w1))
     | FlushDue \<Rightarrow>
         (case flush (sc_SampleRate sc) b of
            None \<Rightarrow> None
          | Some (None, b') \<Rightarrow> Some ([Take], s\<lparr>se_buffer := b', se_flusher := Ticking\<rparr>, w)
          | Some (Some wav, b') \<Rightarrow> Some ([Take], s\<lparr>se_buffer := b', se_flusher := FlushSending wav\<rparr>, w))
     | FlushSending wav \<Rightarrow>
         (let (out, w1) = transcribe_wav E cfg requestID wav (se_out s, w)
          in Some ([], s\<lparr>se_out := out, se_flusher := Ticking\<rparr>, w1))
     | Stopped \<Rightarrow> None)"

definition flusher_stop :: "session \<times> 'l world \<Rightarrow> (buffer_op list \<times> session \<times> 'l world) option" where
  "flusher_stop = (\<lambda>(s, w).
     if se_reader s = Done \<and> se_flusher s = Ticking then Some ([], s\<lparr>se_flusher := Stopped\<rparr>, w) else None)"

datatype goroutine = Reader | Flusher | FlusherCancelled

fun session_move where
  "session_move E cfg sc requestID Reader c = reader_move E cfg sc requestID c"
| "session_move E cfg sc requestID Flusher c = flusher_move E cfg sc requestID c"
| "session_move E cfg sc requestID FlusherCancelled c = flusher_stop c"

inductive session_steps ::
    "env \<Rightarrow> config \<Rightarrow> StreamConfig \<Rightarrow> string \<Rightarrow> session \<times> 'l world \<Rightarrow> buffer_op list \<Rightarrow>
     session \<times> 'l world \<Rightarrow> bool"
  for E cfg sc requestID c0 where
  steps_start: "session_steps E cfg sc requestID c0 [] c0"
| steps_move: "session_steps E cfg sc requestID c0 ops c \<Longrightarrow>
    session_move E cfg sc requestID g c = Some (ops', c') \<Longrightarrow>
    session_steps E cfg sc requestID c0 (ops @ ops') c'"

text \<open>Running a schedule: a goroutine that cannot move is skipped.\<close>

fun run_schedule where
  "run_schedule E cfg sc requestID [] c = ([], c)"
| "run_schedule E cfg sc requestID (g # gs) c =
     (case session_move E cfg sc requestID g c of
        None \<Rightarrow> run_schedule E cfg sc requestID gs c
      | Some (ops, c') \<Rightarrow>
          (let (ops', c'') = run_schedule E cfg sc requestID gs c' in (ops @ ops', c'')))"


subsection \<open>What every move keeps\<close>

definition uploaded_wav :: "out_request \<Rightarrow> bytes list" where
  "uploaded_wav rq =
     (case or_body rq of MultipartOut (FilePart f n wav # ps) \<Rightarrow> [wav] | _ \<Rightarrow> [])"

definition wavs_sent :: "'l world \<Rightarrow> bytes list" where
  "wavs_sent w = concat (map uploaded_wav (w_sent w))"

definition in_hand :: "session \<Rightarrow> bytes multiset" where
  "in_hand s =
     (case se_reader s of Sending wav close \<Rightarrow> {#wav#} | _ \<Rightarrow> {#}) +
     (case se_flusher s of FlushSending wav \<Rightarrow> {#wav#} | _ \<Rightarrow> {#})"

definition whisper_url_ok :: "env \<Rightarrow> config \<Rightarrow> bool" where
  "whisper_url_ok E cfg \<longleftrightarrow> url_error E (cfg_WhisperURL cfg @ ''/v1/audio/transcriptions'') = None"

lemma transcribe_wav_sent:
  "transcribe_wav E cfg rid wav (out, w) = (out', w') \<Longrightarrow>
   w_sent w' = w_sent w @ (if whisper_url_ok E cfg then [wav_request (cfg_WhisperURL cfg) wav] else [])"
  by (auto simp: transcribe_wav_def whisper_url_ok_def Let_def world_defs split: option.splits sum.splits if_splits)

lemma uploaded_wav_request [simp]: "uploaded_wav (wav_request url wav) = [wav]"
  by (simp add: uploaded_wav_def wav_request_def)

lemma checkVAD_wavs: "checkVAD E data vad w = (res, w') \<Longrightarrow> wavs_sent w' = wavs_sent w"
  by (auto simp: checkVAD_def Let_def http_do_def wavs_sent_def uploaded_wav_def
        split: option.splits sum.splits)

lemma wavs_sent_clock [simp]: "wavs_sent (w\<lparr>w_clock := c\<rparr>) = wavs_sent w"
  by (simp add: wavs_sent_def)

abbreviation run_buffer where
  "run_buffer sc \<equiv> run_queue addFrame touch_buffer (flush (sc_SampleRate sc))"

lemma reader_move_accounts:
  assumes "reader_move E cfg sc rid (s, w) = Some (ops, s', w')" and "whisper_url_ok E cfg"
  shows "\<exists>qs. run_buffer sc ops (se_buffer s) = Some (qs, se_buffer s') \<and>
    mset (wavs_sent w') + in_hand s' = mset (wavs_sent w) + in_hand s + mset qs"
proof (cases "se_reader s")
  case (Checking data)
  obtain res w1 where "checkVAD E data (sc_VADEndpoint sc) w = (res, w1)" by fastforce
  with assms Checking checkVAD_wavs [OF this] show ?thesis
    by (auto simp: reader_move_def in_hand_def)
next
  case (Sending wav close)
  obtain out w1 where t: "transcribe_wav E cfg rid wav (se_out s, w) = (out, w1)" by fastforce
  with assms Sending transcribe_wav_sent [OF t] show ?thesis
    by (auto simp: reader_move_def in_hand_def wavs_sent_def)
next
  case (Flushing close)
  with assms show ?thesis
    by (auto simp: reader_move_def in_hand_def flush_spec Let_def split: option.splits if_splits)
qed (use assms in \<open>auto simp: reader_move_def in_hand_def time_now_def Let_def
       split: list.splits ws_event.splits if_splits\<close>)

lemma flusher_move_accounts:
  assumes "flusher_move E cfg sc rid (s, w) = Some (ops, s', w')" and "whisper_url_ok E cfg"
  shows "\<exists>qs. run_buffer sc ops (se_buffer s) = Some (qs, se_buffer s') \<and>
    mset (wavs_sent w') + in_hand s' = mset (wavs_sent w) + in_hand s + mset qs"
proof (cases "se_flusher s")
  case (FlushSending wav)
  obtain out w1 where t: "transcribe_wav E cfg rid wav (se_out s, w) = (out, w1)" by fastforce
  with assms FlushSending transcribe_wav_sent [OF t] show ?thesis
    by (auto simp: flusher_move_def in_hand_def wavs_sent_def)
next
  case FlushDue
  with assms show ?thesis
    by (auto simp: flusher_move_def in_hand_def flush_spec Let_def split: option.splits if_splits)
qed (use assms in \<open>auto simp: flusher_move_def in_hand_def time_now_def Let_def\<close>)

lemma session_move_accounts:
  assumes "session_move E cfg sc rid g (s, w) = Some (ops, s', w')" and "whisper_url_ok E cfg"
  shows "\<exists>qs. run_buffer sc ops (se_buffer s) = Some (qs, se_buffer s') \<and>
    mset (wavs_sent w') + in_hand s' = mset (wavs_sent w) + in_hand s + mset qs"
proof (cases g)
  case FlusherCancelled
  with assms show ?thesis by (auto simp: flusher_stop_def in_hand_def split: if_splits)
qed (use assms reader_move_accounts flusher_move_accounts in auto)

lemma session_steps_account:
  assumes "session_steps E cfg sc rid (new_session input, w0) ops (s, w)" and "whisper_url_ok E cfg"
  shows "\<exists>ps. run_buffer sc ops newAudioBuffer = Some (ps, se_buffer s) \<and>
    mset (wavs_sent w) + in_hand s = mset (wavs_sent w0) + mset ps"
  using assms
proof (induction ops "(s, w)" arbitrary: s w rule: session_steps.induct)
  case steps_start
  then show ?case by (simp add: new_session_def in_hand_def)
next
  case (steps_move ops c g ops')
  obtain s1 w1 where c: "c = (s1, w1)" by fastforce
  obtain ps where ps: "run_buffer sc ops newAudioBuffer = Some (ps, se_buffer s1)"
    "mset (wavs_sent w1) + in_hand s1 = mset (wavs_sent w0) + mset ps"
    using steps_move c by blast
  obtain qs where "run_buffer sc ops' (se_buffer s1) = Some (qs, se_buffer s)"
    "mset (wavs_sent w) + in_hand s = mset (wavs_sent w1) + in_hand s1 + mset qs"
    using session_move_accounts steps_move c by blast
  with ps show ?case by (auto simp: run_queue_append)
qed


subsection \<open>Which frames are buffered\<close>

fun frames_added :: "buffer_op list \<Rightarrow> bytes list" where
  "frames_added [] = []"
| "frames_added (Add f # ops) = f # frames_added ops"
| "frames_added (_ # ops) = frames_added ops"

fun binaries :: "ws_event list \<Rightarrow> bytes list" where
  "binaries [] = []"
| "binaries (BinaryMessage data # evs) = data # binaries evs"
| "binaries (_ # evs) = binaries evs"

lemma frames_added_append [simp]: "frames_added (xs @ ys) = frames_added xs @ frames_added ys"
  by (induction xs rule: frames_added.induct) auto

lemma binaries_append [simp]: "binaries (xs @ ys) = binaries xs @ binaries ys"
  by (induction xs rule: binaries.induct) auto

lemma added_frames: "added ops = concat (frames_added ops)"
  by (induction ops rule: frames_added.induct) auto

definition pending :: "session \<Rightarrow> bytes list" where
  "pending s =
     (case se_reader s of
        Checking d \<Rightarrow> [d] | Marking d \<Rightarrow> [d] | Adding d \<Rightarrow> [d] | Testing d \<Rightarrow> [d] | Trailing d \<Rightarrow> [d]
      | _ \<Rightarrow> [])"

text \<open>One move of the reader: what it consumes of the input, what it adds, what it still holds.\<close>

lemma reader_move_frames:
  assumes "reader_move E cfg sc rid (s, w) = Some (ops, s', w')"
  shows "\<exists>evs. se_input s = evs @ se_input s' \<and>
      (frames_added ops @ pending s' = pending s @ binaries evs \<or>
       frames_added ops @ pending s' = [] \<and> binaries evs = [] \<and>
         (\<exists>d. se_reader s = Testing d \<and> ab_totalBytes (se_buffer s) = 0))"
  using assms
  by (cases "se_reader s")
     (auto simp: reader_move_def pending_def time_now_def Let_def
       split: list.splits ws_event.splits if_splits option.splits prod.splits)

lemma flusher_move_frames:
  assumes "session_move E cfg sc rid g (s, w) = Some (ops, s', w')" and "g \<noteq> Reader"
  shows "se_input s' = se_input s \<and> se_reader s' = se_reader s \<and> pending s' = pending s \<and> frames_added ops = [] \<and>
    (ab_frames (se_buffer s') = ab_frames (se_buffer s) \<or> ab_frames (se_buffer s') = [])"
  using assms
  by (cases g; cases "se_flusher s")
     (auto simp: flusher_move_def flusher_stop_def pending_def time_now_def flush_spec Let_def
       split: if_splits option.splits prod.splits)

definition vad_never_silent :: "'l itself \<Rightarrow> env \<Rightarrow> StreamConfig \<Rightarrow> bool" where
  "vad_never_silent T E sc \<longleftrightarrow>
     (\<forall>data (w :: 'l world). fst (checkVAD E data (sc_VADEndpoint sc) w) \<noteq> Inr False)"

definition frames_inv :: "bool \<Rightarrow> ws_event list \<Rightarrow> buffer_op list \<Rightarrow> session \<Rightarrow> bool" where
  "frames_inv all input ops s \<longleftrightarrow>
     (\<exists>evs. input = evs @ se_input s \<and>
        subseq (frames_added ops @ pending s) (binaries evs) \<and>
        (all \<longrightarrow> frames_added ops @ pending s = binaries evs \<and>
           (\<forall>d. se_reader s \<noteq> Testing d)) \<and>
        ((\<exists>wav c. se_reader s = Sending wav c) \<or> se_reader s = Done \<longrightarrow> ab_frames (se_buffer s) = []))"

lemma reader_move_all:
  assumes "reader_move E cfg sc rid (s, w :: 'l world) = Some (ops, s', w')"
    and "vad_never_silent TYPE('l) E sc" and "\<forall>d. se_reader s \<noteq> Testing d"
  shows "\<forall>d. se_reader s' \<noteq> Testing d"
  using assms
  apply (cases "se_reader s")
           apply (auto simp: reader_move_def time_now_def Let_def
       split: list.splits ws_event.splits if_splits option.splits prod.splits sum.splits)
  unfolding vad_never_silent_def by (metis fst_conv)

lemma reader_move_empty:
  assumes "reader_move E cfg sc rid (s, w) = Some (ops, s', w')"
    and "(\<exists>wav c. se_reader s = Sending wav c) \<or> se_reader s = Done \<longrightarrow> ab_frames (se_buffer s) = []"
  shows "(\<exists>wav c. se_reader s' = Sending wav c) \<or> se_reader s' = Done \<longrightarrow> ab_frames (se_buffer s') = []"
  using assms
  by (cases "se_reader s")
     (auto simp: reader_move_def flush_spec time_now_def Let_def
       split: list.splits ws_event.splits if_splits option.splits prod.splits)

lemma session_move_frames_inv:
  assumes i: "frames_inv all input ops s"
    and m: "session_move E cfg sc rid g (s, w :: 'l world) = Some (ops', s', w')"
    and v: "all \<Longrightarrow> vad_never_silent TYPE('l) E sc"
  shows "frames_inv all input (ops @ ops') s'"
proof -
  obtain evs where evs: "input = evs @ se_input s" "subseq (frames_added ops @ pending s) (binaries evs)"
    "all \<longrightarrow> frames_added ops @ pending s = binaries evs \<and> (\<forall>d. se_reader s \<noteq> Testing d)"
    "(\<exists>wav c. se_reader s = Sending wav c) \<or> se_reader s = Done \<longrightarrow> ab_frames (se_buffer s) = []"
    using i unfolding frames_inv_def by blast
  show ?thesis
  proof (cases "g = Reader")
    case False
    with flusher_move_frames [OF m] evs show ?thesis by (auto simp: frames_inv_def)
  next
    case True
    with m have r: "reader_move E cfg sc rid (s, w) = Some (ops', s', w')" by simp
    obtain evs' where e: "se_input s = evs' @ se_input s'"
      "frames_added ops' @ pending s' = pending s @ binaries evs' \<or>
       frames_added ops' @ pending s' = [] \<and> binaries evs' = [] \<and> (\<exists>d. se_reader s = Testing d)"
      using reader_move_frames [OF r] by blast
    have s: "subseq (frames_added ops @ frames_added ops' @ pending s') (binaries evs @ binaries evs')"
      using e(2)
    proof
      assume "frames_added ops' @ pending s' = pending s @ binaries evs'"
      then show ?thesis using list_emb_append_mono [OF evs(2) subseq_order.refl [of "binaries evs'"]] by simp
    next
      assume "frames_added ops' @ pending s' = [] \<and> binaries evs' = [] \<and> (\<exists>d. se_reader s = Testing d)"
      then show ?thesis using subseq_order.trans [OF subseq_rev_drop_many evs(2)] by simp
    qed
    show ?thesis
      unfolding frames_inv_def
      using evs e s v reader_move_all [OF r] reader_move_empty [OF r evs(4)]
      by (intro exI [of _ "evs @ evs'"]) auto
  qed
qed

lemma session_steps_frames:
  assumes "session_steps E cfg sc rid (new_session input, w0 :: 'l world) ops (s, w)"
    and "all \<Longrightarrow> vad_never_silent TYPE('l) E sc"
  shows "frames_inv all input ops s"
  using assms(1)
proof (induction ops "(s, w)" arbitrary: s w rule: session_steps.induct)
  case steps_start
  then show ?case by (simp add: frames_inv_def new_session_def pending_def)
next
  case (steps_move ops c g ops')
  obtain s1 w1 where c: "c = (s1, w1)" by fastforce
  with steps_move session_move_frames_inv assms(2) show ?case by blast
qed

subsection \<open>The session ends\<close>

definition pc_rank :: "reader_pc \<Rightarrow> nat" where
  "pc_rank pc =
     (case pc of
        Done \<Rightarrow> 0 | Sending wav c \<Rightarrow> 1 | Flushing c \<Rightarrow> 2 | Reading \<Rightarrow> 3 | Quieting \<Rightarrow> 4 | Adding d \<Rightarrow> 4
      | Trailing d \<Rightarrow> 5 | Marking d \<Rightarrow> 5 | Testing d \<Rightarrow> 6 | Checking d \<Rightarrow> 7)"

definition moves_left :: "session \<Rightarrow> nat" where
  "moves_left s = 8 * length (se_input s) + pc_rank (se_reader s)"

definition will_end :: "session \<Rightarrow> bool" where
  "will_end s \<longleftrightarrow> ReadError \<in> set (se_input s) \<or> TextMessage ''close'' \<in> set (se_input s) \<or>
     pc_rank (se_reader s) \<le> 2"

lemma reader_move_progress:
  assumes "will_end s" and "se_reader s \<noteq> Done"
  shows "\<exists>ops s' w'. reader_move E cfg sc rid (s, w) = Some (ops, s', w') \<and> will_end s' \<and>
    moves_left s' < moves_left s"
  using assms
  by (cases "se_reader s"; cases "se_input s"; cases "hd (se_input s)")
     (auto simp: reader_move_def will_end_def moves_left_def pc_rank_def time_now_def flush_spec Let_def
       split: prod.splits sum.splits)

lemma flusher_move_reader:
  assumes "session_move E cfg sc rid g (s, w) = Some (ops, s', w')" and "g \<noteq> Reader"
  shows "se_reader s' = se_reader s" and "will_end s' = will_end s" and "moves_left s' = moves_left s"
  using flusher_move_frames [OF assms] by (auto simp: will_end_def moves_left_def)

lemma run_schedule_done:
  "se_reader s = Done \<Longrightarrow> \<exists>ops s' w'. run_schedule E cfg sc rid gs (s, w) = (ops, s', w') \<and> se_reader s' = Done"
proof (induction gs arbitrary: s w)
  case (Cons g gs)
  show ?case
  proof (cases "session_move E cfg sc rid g (s, w)")
    case (Some r)
    obtain ops s' w' where r: "r = (ops, s', w')" by (metis prod_cases3)
    have "g \<noteq> Reader" using Some Cons.prems by (auto simp: reader_move_def)
    then have "se_reader s' = Done" using flusher_move_reader(1) Some r Cons.prems by metis
    with Cons.IH [of s' w'] Some r show ?thesis by auto
  qed (use Cons in simp)
qed simp

lemma run_schedule_ends:
  "will_end s \<Longrightarrow> moves_left s \<le> count_list gs Reader \<Longrightarrow>
   \<exists>ops s' w'. run_schedule E cfg sc rid gs (s, w) = (ops, s', w') \<and> se_reader s' = Done"
proof (induction gs arbitrary: s w)
  case Nil
  then show ?case
    by (cases "se_reader s") (auto simp: moves_left_def pc_rank_def)
next
  case (Cons g gs)
  show ?case
  proof (cases "se_reader s = Done")
    case True
    then show ?thesis by (rule run_schedule_done)
  next
    case False
    note prog = reader_move_progress [OF Cons.prems(1) False, of E cfg sc rid w]
    show ?thesis
    proof (cases "session_move E cfg sc rid g (s, w)")
      case None
      then have "g \<noteq> Reader" using prog by auto
      then show ?thesis using Cons.IH [OF Cons.prems(1)] Cons.prems(2) None by simp
    next
      case (Some r)
      obtain ops s' w' where r: "r = (ops, s', w')" by (metis prod_cases3)
      have "will_end s'" and "moves_left s' \<le> count_list gs Reader"
        using flusher_move_reader [of E cfg sc rid g s w ops s' w'] prog Some r Cons.prems
        by (cases "g = Reader"; auto)+
      from Cons.IH [OF this, of w'] Some r show ?thesis by auto
    qed
  qed
qed

lemma run_schedule_steps:
  "session_steps E cfg sc rid c0 ops0 c \<Longrightarrow> run_schedule E cfg sc rid gs c = (ops, c') \<Longrightarrow>
   session_steps E cfg sc rid c0 (ops0 @ ops) c'"
proof (induction gs arbitrary: ops0 c ops)
  case (Cons g gs)
  show ?case
  proof (cases "session_move E cfg sc rid g c")
    case None
    with Cons show ?thesis by simp
  next
    case (Some r)
    obtain ops1 c1 where r: "r = (ops1, c1)" by (cases r)
    obtain ops2 where "run_schedule E cfg sc rid gs c1 = (ops2, c')" and ops: "ops = ops1 @ ops2"
      using Cons.prems(2) Some r by (auto split: prod.splits)
    with Cons.IH [OF steps_move [OF Cons.prems(1)]] Some r show ?thesis by simp
  qed
qed simp


subsection \<open>The handler\<close>

text \<open>
  \<open>websocket.Accept\<close> is a parameter: it returns whether the connection was upgraded, and the
  response writer it leaves. What the client sends and how the scheduler interleaves the
  goroutines is the parameter \<open>script\<close>; after the scripted input the connection breaks, and the
  reader gets the turns it needs to notice.
\<close>

definition stream_session where
  "stream_session E cfg requestID input schedule w =
     run_schedule E cfg (stream_config cfg) requestID
       (schedule @ replicate (8 * (length input + 1) + 3) Reader) (new_session (input @ [ReadError]), w)"

definition handleStream ::
    "env \<Rightarrow> config \<Rightarrow> (request \<Rightarrow> resp \<Rightarrow> bool \<times> resp) \<Rightarrow>
     (request \<Rightarrow> ws_event list \<times> goroutine list) \<Rightarrow> 'l handler" where
  "handleStream E cfg accept script rq ctx = (\<lambda>(rs, w).
     let requestID = RequestIDFromContext ctx;
         (accepted, rs1) = accept rq rs
     in if \<not> accepted then (Returned, rs1, w)
        else
          (let (input, schedule) = script rq;
               (ops, s, w1) = stream_session E cfg requestID input schedule w
           in (Returned, rs1, w1)))"

lemma count_list_replicate: "count_list (replicate n x) x = n"
  by (induction n) auto

lemma new_session_will_end: "will_end (new_session (input @ [ReadError]))"
  by (simp add: will_end_def new_session_def)

lemma stream_session_done:
  assumes "stream_session E cfg rid input schedule w = (ops, s, w')"
  shows "se_reader s = Done"
proof -
  have "moves_left (new_session (input @ [ReadError])) \<le>
      count_list (schedule @ replicate (8 * (length input + 1) + 3) Reader) Reader"
    by (simp add: moves_left_def new_session_def pc_rank_def count_list_append count_list_replicate)
  from run_schedule_ends [OF new_session_will_end this, of E cfg "stream_config cfg" rid w] assms
  show ?thesis by (auto simp: stream_session_def)
qed

definition same_books :: "'l world \<Rightarrow> 'l world \<Rightarrow> bool" where
  "same_books w w' \<longleftrightarrow> w_in_flight w' = w_in_flight w \<and> w_access w' = w_access w \<and>
     w_requests_total w' = w_requests_total w \<and> w_durations w' = w_durations w \<and> w_events w' = w_events w"

lemma same_books_refl: "same_books w w" "same_books w (w\<lparr>w_clock := c\<rparr>)"
  by (simp_all add: same_books_def)

lemma same_books_trans: "same_books w w1 \<Longrightarrow> same_books w1 w2 \<Longrightarrow> same_books w w2"
  by (simp add: same_books_def)

lemma checkVAD_books: "checkVAD E d vad w = (res, w') \<Longrightarrow> same_books w w'"
  by (auto simp: checkVAD_def http_do_def Let_def same_books_def split: option.splits sum.splits)

lemma transcribe_wav_books: "transcribe_wav E cfg rid wav (out, w) = (out', w') \<Longrightarrow> same_books w w'"
  by (auto simp: transcribe_wav_def Let_def world_defs same_books_def split: option.splits sum.splits if_splits)

lemma session_move_books:
  "session_move E cfg sc rid g (s, w) = Some (ops, s', w') \<Longrightarrow> same_books w w'"
  by (cases g)
     (auto simp: reader_move_def flusher_move_def flusher_stop_def time_now_def Let_def same_books_refl
        intro: checkVAD_books transcribe_wav_books
        split: reader_pc.splits flusher_pc.splits list.splits ws_event.splits if_splits option.splits prod.splits)

lemma run_schedule_books:
  "run_schedule E cfg sc rid gs (s, w) = (ops, s', w') \<Longrightarrow> same_books w w'"
proof (induction gs arbitrary: s w ops)
  case (Cons g gs)
  show ?case
  proof (cases "session_move E cfg sc rid g (s, w)")
    case (Some r)
    obtain ops1 s1 w1 where r: "r = (ops1, s1, w1)" by (metis prod_cases3)
    have "same_books w w1" using Some r session_move_books by blast
    moreover have "same_books w1 w'" using Cons.IH Cons.prems Some r by (auto split: prod.splits)
    ultimately show ?thesis by (rule same_books_trans)
  qed (use Cons in simp)
qed (simp add: same_books_refl)

lemma handleStream_books:
  "handleStream E cfg accept script rq ctx (rs, w) = (oc, rs', w') \<Longrightarrow>
   oc = Returned \<and> rs' = snd (accept rq rs) \<and> same_books w w'"
  by (auto simp: handleStream_def stream_session_def Let_def same_books_refl intro: run_schedule_books
        split: prod.splits if_splits)


subsection \<open>Properties\<close>

text \<open>C12: the audio file handed to Whisper is a well-formed WAV file. Building it never panics, and a
  reader that checks every header field gets back the sample rate and exactly the bytes of the
  frames in order, as long as the sizes fit the 32-bit fields.\<close>

theorem buildWAV_roundtrip:
  assumes "36 + length (concat frames) < 2 ^ 32" and "0 \<le> sampleRate" and "sampleRate < 2 ^ 31"
  shows "\<exists>wav. buildWAV frames (sum_list (map length frames)) sampleRate = Some wav \<and>
    parse_wav wav = Some (nat sampleRate, concat frames)"
  using buildWAV_layout [OF refl] parse_wav_buildWAV [OF assms] by (simp add: length_concat)

theorem buildWAV_roundtrip_witness:
  "\<exists>wav. buildWAV [[1, 2], [3]] (sum_list (map length [[1, 2], [3 :: byte]])) 16000 = Some wav \<and>
    parse_wav wav = Some (16000, [1, 2, 3])"
  using buildWAV_roundtrip [of "[[1, 2], [3]]" 16000] by simp



lemma example_session:
  "\<exists>ops s w. session_steps (example_env (\<lambda>n rq. Inl ''down'')) (LoadConfig Map.empty) DefaultStreamConfig ''r''
     (new_session [BinaryMessage [1, 2], ReadError], new_world ()) ops (s, w) \<and> se_reader s = Done"
proof -
  let ?s = "new_session [BinaryMessage [1, 2], ReadError]"
  have "will_end ?s" "moves_left ?s \<le> count_list (replicate 19 Reader) Reader"
    by (simp_all add: will_end_def moves_left_def new_session_def pc_rank_def count_list_replicate)
  from run_schedule_ends [OF this] obtain ops s w where
    r: "run_schedule (example_env (\<lambda>n rq. Inl ''down'')) (LoadConfig Map.empty) DefaultStreamConfig ''r''
       (replicate 19 Reader) (?s, new_world ()) = (ops, s, w)" "se_reader s = Done" by blast
  from run_schedule_steps [OF steps_start r(1)] r(2) show ?thesis by auto
qed

text \<open>C19: when the session is over and the voice detector never answered ``silence'' (it may be
  down: an unreachable detector counts as speech), all the audio the client sent before the end
  was taken for transcription, byte for byte and in order, and nothing is left in the buffer.\<close>

theorem stream_fail_open:
  assumes "session_steps E cfg sc rid (new_session input, w0 :: 'l world) ops (s, w)"
    and "vad_never_silent TYPE('l) E sc" and "se_reader s = Done" and "whisper_url_ok E cfg"
  shows "\<exists>evs wavs. input = evs @ se_input s \<and> concat (map pcm_of wavs) = concat (binaries evs) \<and>
    mset (wavs_sent w) + in_hand s = mset (wavs_sent w0) + mset wavs \<and> buffered (se_buffer s) = []"
proof -
  obtain ps where ps: "run_buffer sc ops newAudioBuffer = Some (ps, se_buffer s)"
    "mset (wavs_sent w) + in_hand s = mset (wavs_sent w0) + mset ps"
    using session_steps_account [OF assms(1,4)] by blast
  obtain evs where evs: "input = evs @ se_input s" "frames_added ops @ pending s = binaries evs"
    "ab_frames (se_buffer s) = []"
    using session_steps_frames [OF assms(1), of True] assms(2,3) by (auto simp: frames_inv_def)
  have e: "buffered (se_buffer s) = []" "pending s = []" "buffered newAudioBuffer = []"
    using evs(3) assms(3) by (simp_all add: buffered_def pending_def newAudioBuffer_def)
  with audio_buffer.run_conserves [OF ps(1)] evs(2)
  have "concat (map pcm_of ps) = concat (binaries evs)" by (simp add: added_frames)
  with ps(2) evs(1) e show ?thesis by blast
qed

text \<open>C15: a session ends. Once the client asked to close or the connection broke, every schedule
  that gives the reader eight turns for each message still to be read, and a few more for the frame
  it is working on, brings the handler to its end, however the flush loop runs in between.\<close>

theorem stream_session_terminates:
  assumes "will_end s" and "moves_left s \<le> count_list gs Reader"
  shows "\<exists>ops s' w'. run_schedule E cfg sc rid gs (s, w) = (ops, s', w') \<and> se_reader s' = Done"
  by (rule run_schedule_ends [OF assms])


lemma example_whisper_ok: "whisper_url_ok (example_env answers) cfg"
  by (simp add: whisper_url_ok_def example_env_def)

lemma example_vad_down: "vad_never_silent TYPE('l) (example_env (\<lambda>n rq. Inl ''down'')) sc"
  by (simp add: vad_never_silent_def checkVAD_def example_env_def http_do_def Let_def)


theorem stream_fail_open_witness:
  "\<exists>(s :: session) wavs. se_reader s = Done \<and>
     (\<exists>evs. [BinaryMessage [1, 2], ReadError] = evs @ se_input s \<and>
        concat (map pcm_of wavs) = concat (binaries evs)) \<and> buffered (se_buffer s) = []"
proof -
  obtain ops s and w :: "unit world" where
    st: "session_steps (example_env (\<lambda>n rq. Inl ''down'')) (LoadConfig Map.empty) DefaultStreamConfig ''r''
     (new_session [BinaryMessage [1, 2], ReadError], new_world ()) ops (s, w)" "se_reader s = Done"
    using example_session by blast
  from stream_fail_open [OF st(1) example_vad_down st(2) example_whisper_ok] st(2) show ?thesis by metis
qed

theorem stream_session_terminates_witness:
  "\<exists>ops s' w'. run_schedule (example_env (\<lambda>n rq. Inl ''down'')) (LoadConfig Map.empty) DefaultStreamConfig ''r''
     (replicate 11 Reader) (new_session [TextMessage ''close''], new_world ()) = (ops, s', w') \<and> se_reader s' = Done"
  by (rule stream_session_terminates)
     (simp_all add: will_end_def moves_left_def new_session_def pc_rank_def count_list_replicate)

subsection \<open>A race\<close>

text \<open>The read loop marks speech and adds the frame in two critical sections. A flush that comes
  between them forgets that speech was heard, so the frame it missed, which the detector called
  speech, waits in the buffer for more speech or for thirty seconds of audio: no pause flushes it.\<close>

definition race_env :: env where
  "race_env = example_env (\<lambda>n rq.
     case or_body rq of
       BytesOut [] \<Rightarrow> Inr \<lparr>hr_status = 200, hr_body = Inr ''{\"speech\":false}''\<rparr>
     | BytesOut _ \<Rightarrow> Inr \<lparr>hr_status = 200, hr_body = Inr ''{\"speech\":true}''\<rparr>
     | _ \<Rightarrow> Inl ''down'')"

definition race_schedule :: "goroutine list" where
  "race_schedule =
     [Reader, Reader, Reader, Reader, Reader, Reader, Reader, Reader, Reader, Flusher, Flusher,
      Reader, Reader, Reader, Flusher, Reader, Flusher]"

lemma race_vad_answers:
  "decode_field json_bool False ''speech'' (projr (json_decode ''{\"speech\":true}'')) = (True, True)"
  "decode_field json_bool False ''speech'' (projr (json_decode ''{\"speech\":false}'')) = (True, False)"
  "isl (json_decode ''{\"speech\":true}'') = False" "isl (json_decode ''{\"speech\":false}'') = False"
  by code_simp+

lemma race_check:
  "checkVAD race_env frame vad w =
     (Inr (frame \<noteq> []), w\<lparr>w_sent := w_sent w @ [\<lparr>or_method = ''POST'', or_url = vad @ ''/vad'',
        or_content_type = ''application/octet-stream'', or_body = BytesOut frame\<rparr>]\<rparr>)"
proof -
  obtain j1 j2 where j: "json_decode ''{\"speech\":true}'' = Inr j1" "json_decode ''{\"speech\":false}'' = Inr j2"
    using race_vad_answers(3,4) by (metis isl_def sum.exhaust)
  then have "snd (decode_field json_bool False ''speech'' j1)" "\<not> snd (decode_field json_bool False ''speech'' j2)"
    using race_vad_answers(1,2) by simp_all
  with j show ?thesis
    by (cases frame) (simp_all add: checkVAD_def race_env_def example_env_def http_do_def Let_def)
qed

lemma race_whisper_down:
  "transcribe_wav race_env cfg rid wav (out, w) =
     (sendStreamMessage
        \<lparr>sm_Type = ''error'', sm_Text = ''transcription failed: '' @ ''down'', sm_IsFinal = False,
         sm_Duration = 0, sm_RequestID = rid\<rparr> out,
      w\<lparr>w_clock := Suc (w_clock w), w_sent := w_sent w @ [wav_request (cfg_WhisperURL cfg) wav]\<rparr>)"
  by (simp add: transcribe_wav_def race_env_def example_env_def wav_request_def http_do_def time_now_def Let_def)

lemma race_clock: "time_now race_env w = (1000000000 * int (w_clock w), w\<lparr>w_clock := Suc (w_clock w)\<rparr>)"
  by (simp add: time_now_def race_env_def example_env_def)


end
