(* ===== verification/Server.thy ===== *)
theory Server
  imports Middleware Handlers Pipeline Stream_Session
begin

section \<open>The server and its router (internal/gateway/server.go)\<close>

text \<open>
  \<open>NewServer\<close> wires the components, \<open>Router\<close> registers the routes on the standard library's
  \<open>ServeMux\<close> and wraps them in the middleware. The mux is modelled as far as these routes need
  it: exact paths, an optional method (\<open>GET\<close> also serves \<open>HEAD\<close>), the redirect to the cleaned
  path, 404 and 405. A redirect's query string and percent-encoding are left out.
\<close>

subsection \<open>Server\<close>

record gateway_server =
  sv_cfg :: config
  sv_proxy :: string
  sv_pipeline :: PipelineOrchestrator
  sv_events :: logger

definition NewServer :: "os \<Rightarrow> config \<Rightarrow> gateway_server" where
  "NewServer OS cfg =
     (let events = NewEventLogger OS cfg;
          proxy = cfg_WhisperURL cfg
      in \<lparr>sv_cfg = cfg, sv_proxy = proxy, sv_pipeline = NewPipelineOrchestrator cfg proxy,
          sv_events = events\<rparr>)"

subsection \<open>The mux\<close>

datatype route = HealthRoute | ReadyRoute | MetricsRoute | TranscribeRoute | ModelsRoute | StreamRoute | PipelineRoute

definition routes :: "(string option \<times> string \<times> route) list" where
  "routes =
     [(Some ''GET'', ''/healthz'', HealthRoute),
      (Some ''GET'', ''/readyz'', ReadyRoute),
      (Some ''GET'', ''/metrics'', MetricsRoute),
      (Some ''POST'', ''/v1/audio/transcriptions'', TranscribeRoute),
      (Some ''GET'', ''/v1/models'', ModelsRoute),
      (None, ''/v1/audio/stream'', StreamRoute),
      (Some ''POST'', ''/v1/pipeline/run'', PipelineRoute)]"

definition method_matches :: "string option \<Rightarrow> string \<Rightarrow> bool" where
  "method_matches pat m =
     (case pat of None \<Rightarrow> True | Some p \<Rightarrow> p = m \<or> p = ''GET'' \<and> m = ''HEAD'')"

definition clean_url_path :: "string \<Rightarrow> string" where
  "clean_url_path p =
     (if p = '''' then ''/''
      else
        (let p1 = (if hd p = CHR ''/'' then p else CHR ''/'' # p);
             np = path_clean p1
         in if last p1 = CHR ''/'' \<and> np \<noteq> ''/'' then np @ ''/'' else np))"

datatype mux_result = Found route | RedirectTo string | MethodNotAllowed string | NotFound | BadTarget

definition allowed_methods :: "string \<Rightarrow> string list" where
  "allowed_methods path =
     concat (map (\<lambda>(m, p, r). if p = path then (case m of None \<Rightarrow> [] | Some x \<Rightarrow> if x = ''GET'' then [''GET'', ''HEAD''] else [x])
                              else []) routes)"

definition mux_find :: "request \<Rightarrow> mux_result" where
  "mux_find rq =
     (let path = (if rq_method rq = ''CONNECT'' then rq_path rq else clean_url_path (rq_path rq))
      in if rq_path rq = ''*'' then BadTarget
         else if path \<noteq> rq_path rq then RedirectTo path
         else (case filter (\<lambda>(m, p, r). p = path \<and> method_matches m (rq_method rq)) routes of
                 (m, p, r) # _ \<Rightarrow> Found r
               | [] \<Rightarrow>
                   (let allowed = allowed_methods path
                    in if allowed \<noteq> [] then MethodNotAllowed (join_with '', '' allowed) else NotFound)))"

definition http_error :: "nat \<Rightarrow> string \<Rightarrow> resp \<Rightarrow> resp" where
  "http_error code msg rs =
     write_chunk (TextBody (msg @ [CHR 0x0A]))
       (write_header code
          (set_header ''X-Content-Type-Options'' ''nosniff''
             (set_header ''Content-Type'' ''text/plain; charset=utf-8'' rs)))"

definition http_redirect :: "request \<Rightarrow> string \<Rightarrow> resp \<Rightarrow> resp" where
  "http_redirect rq url rs =
     (let rs1 = set_header ''Location'' url rs;
          rs2 = (if rq_method rq = ''GET'' \<or> rq_method rq = ''HEAD''
                 then set_header ''Content-Type'' ''text/html; charset=utf-8'' rs1 else rs1);
          rs3 = write_header 301 rs2
      in if rq_method rq = ''GET'' then write_chunk (TextBody ''Moved Permanently'') rs3 else rs3)"

text \<open>The handlers the routes stand for. \<open>prom\<close>, \<open>accept\<close> and \<open>script\<close> are the Prometheus
  page, \<open>websocket.Accept\<close> and what streaming clients do.\<close>

record 'l deps =
  dp_prom :: "'l handler"
  dp_accept :: "request \<Rightarrow> resp \<Rightarrow> bool \<times> resp"
  dp_script :: "request \<Rightarrow> ws_event list \<times> goroutine list"

definition route_handler ::
    "os \<Rightarrow> env \<Rightarrow> log_state deps \<Rightarrow> gateway_server \<Rightarrow> route \<Rightarrow> log_state handler" where
  "route_handler OS E D sv r =
     (case r of
        HealthRoute \<Rightarrow> handleHealth
      | ReadyRoute \<Rightarrow> handleReady E (sv_proxy sv)
      | MetricsRoute \<Rightarrow> handleMetrics (dp_prom D)
      | TranscribeRoute \<Rightarrow> handleTranscribe E (sv_proxy sv)
      | ModelsRoute \<Rightarrow> handleListModels
      | StreamRoute \<Rightarrow> handleStream E (sv_cfg sv) (dp_accept D) (dp_script D)
      | PipelineRoute \<Rightarrow> handlePipeline E (logger_Log OS E (sv_events sv)) (sv_pipeline sv))"

definition mux :: "(route \<Rightarrow> 'l handler) \<Rightarrow> 'l handler" where
  "mux handler rq ctx = (\<lambda>(rs, w).
     case mux_find rq of
       Found r \<Rightarrow> handler r rq ctx (rs, w)
     | RedirectTo url \<Rightarrow> (Returned, http_redirect rq url rs, w)
     | MethodNotAllowed allow \<Rightarrow>
         (Returned, http_error 405 ''Method Not Allowed'' (set_header ''Allow'' allow rs), w)
     | NotFound \<Rightarrow> (Returned, http_error 404 ''404 page not found'' rs, w)
     | BadTarget \<Rightarrow> (Returned, write_header 400 (set_header ''Connection'' ''close'' rs), w))"

definition middleware_stack :: "env \<Rightarrow> 'l handler \<Rightarrow> 'l handler" where
  "middleware_stack E handler =
     (let h1 = recoveryMiddleware handler;
          h2 = metricsMiddleware E h1;
          h3 = loggingMiddleware E h2
      in requestIDMiddleware E h3)"

definition Router :: "os \<Rightarrow> env \<Rightarrow> log_state deps \<Rightarrow> gateway_server \<Rightarrow> log_state handler" where
  "Router OS E D sv = middleware_stack E (mux (route_handler OS E D sv))"


subsection \<open>Every route meets the handler contract\<close>

text \<open>Most handlers answer with one JSON body and leave the gauge alone.\<close>

definition answers_json :: "'l handler \<Rightarrow> bool" where
  "answers_json h \<longleftrightarrow> (\<forall>rq ctx rs w oc rs' w'. h rq ctx (rs, w) = (oc, rs', w') \<longrightarrow>
     oc = Returned \<and> quiet w w' \<and> (\<exists>c j. rs' = write_body c j rs))"

lemma answers_jsonI:
  assumes "\<And>rq ctx rs w oc rs' w'. h rq ctx (rs, w) = (oc, rs', w') \<Longrightarrow>
     oc = Returned \<and> quiet w w' \<and> (\<exists>c j. rs' = write_body c j rs)"
  shows "answers_json h"
  unfolding answers_json_def by (intro allI impI) (rule assms)

definition leaves_books :: "'l handler \<Rightarrow> bool" where
  "leaves_books h \<longleftrightarrow> (\<forall>rq ctx rs w oc rs' w'. h rq ctx (rs, w) = (oc, rs', w') \<longrightarrow> quiet w w')"

definition good_handler :: "(request \<Rightarrow> bool) \<Rightarrow> 'l handler \<Rightarrow> bool" where
  "good_handler P h \<longleftrightarrow> sound_handler P h \<and> keeps_id h \<and> leaves_books h"

lemma answers_json_good:
  assumes "answers_json h"
  shows "good_handler P h"
proof -
  have "sound_handler P h"
  proof (rule sound_handlerI)
    fix rq ctx rs w oc rs' w'
    assume "h rq ctx (rs, w) = (oc, rs', w')"
    with assms show "length (rs_wrappers rs') = length (rs_wrappers rs) \<and> w_in_flight w' = w_in_flight w \<and>
      (P rq \<longrightarrow> fresh rs \<longrightarrow> in_step rs \<longrightarrow> in_step rs' \<and> (oc \<noteq> Returned \<longrightarrow> fresh rs'))"
      unfolding answers_json_def fresh_def quiet_def using write_body_in_step by fastforce
  qed
  moreover have "keeps_id h"
    by (rule keeps_idI) (use assms in \<open>auto simp: answers_json_def, metis tagged_ops(6)\<close>)
  moreover have "leaves_books h"
    using assms by (auto simp: answers_json_def leaves_books_def)
  ultimately show ?thesis by (simp add: good_handler_def)
qed

lemma one_request_quiet: "one_request w w' \<Longrightarrow> quiet w w'"
  by (auto simp: quiet_def one_request_def)

lemma plain_handlers_answer: "answers_json handleHealth" "answers_json handleListModels"
  by (rule answers_jsonI, auto simp: handleHealth_def handleListModels_def writeJSON_def)+

lemma ready_handler_answers: "answers_json (handleReady E url)"
proof (rule answers_jsonI)
  fix rq ctx rs and w w' :: "'a world" and oc rs'
  assume r: "handleReady E url rq ctx (rs, w) = (oc, rs', w')"
  obtain err w1 where h: "HealthCheck E url w = (err, w1)" by fastforce
  note one_request_quiet [OF HealthCheck_one_request [OF h]]
  with r h show "oc = Returned \<and> quiet w w' \<and> (\<exists>c j. rs' = write_body c j rs)"
    by (auto simp: handleReady_def writeError_def writeJSON_def Let_def split: option.splits)
qed

lemma transcribe_handler_answers: "answers_json (handleTranscribe E url)"
proof (rule answers_jsonI)
  fix rq ctx rs and w w' :: "'a world" and oc rs'
  assume r: "handleTranscribe E url rq ctx (rs, w) = (oc, rs', w')"
  have t: "quiet w1 w2" if "Transcribe E url f fn req w1 = (res, w2)" for f fn req res and w1 w2 :: "'a world"
    by (rule one_request_quiet [OF Transcribe_one_request [OF that]])
  from r show "oc = Returned \<and> quiet w w' \<and> (\<exists>c j. rs' = write_body c j rs)"
    by (auto simp: handleTranscribe_def writeError_def writeJSON_def time_now_def time_since_def Let_def quiet_def
        split: sum.splits option.splits prod.splits dest!: t [unfolded quiet_def])
qed

lemma run_stage_quiet:
  "runSTT E po audio fn m la w = (r1, w1) \<Longrightarrow> quiet w w1"
  "runDiarize E po audio fn w = (r2, w1) \<Longrightarrow> quiet w w1"
  "runSummarize E po tx sg w = (r3, w1) \<Longrightarrow> quiet w w1"
  by (auto simp: runSTT_def runDiarize_def runSummarize_def http_do_def quiet_def Let_def
      dest!: Transcribe_one_request one_request_quiet
      split: sum.splits option.splits prod.splits if_splits)

lemma clock_quiet:
  "time_now E w = (t, w') \<Longrightarrow> quiet w w'"
  "time_since E s w = (d, w') \<Longrightarrow> quiet w w'"
  "quiet w0 (emit E lg rid ty st data w) = quiet w0 w"
  by (auto simp: emit_def world_defs quiet_def)

lemmas quiet_steps = run_stage_quiet clock_quiet(1,2)

lemma stage_quiet:
  "stt_stage E lg po rid audio fn m la stages resp w = (res, w1) \<Longrightarrow> quiet w w1"
  "diarize_stage E lg po rid audio fn stages resp w = (resp', w1) \<Longrightarrow> quiet w w1"
  "summarize_stage E lg po rid stages resp w = (resp', w1) \<Longrightarrow> quiet w w1"
  by (auto simp: stt_stage_def diarize_stage_def summarize_stage_def Let_def clock_quiet(3)
      split: sum.splits prod.splits if_splits)
     (auto dest!: quiet_steps simp: quiet_def emit_def world_defs)

lemma run_pipeline_quiet:
  "run_pipeline E lg po rid t fm up audio w = (res, w1) \<Longrightarrow> quiet w w1"
  by (auto simp: run_pipeline_def Let_def clock_quiet(3) split: sum.splits prod.splits)
     (auto dest!: stage_quiet clock_quiet(1,2) simp: quiet_def emit_def world_defs)

lemma pipeline_handler_answers: "answers_json (handlePipeline E lg po)"
proof (rule answers_jsonI)
  fix rq ctx rs and w w' :: "'a world" and oc rs'
  assume r: "handlePipeline E lg po rq ctx (rs, w) = (oc, rs', w')"
  from r show "oc = Returned \<and> quiet w w' \<and> (\<exists>c j. rs' = write_body c j rs)"
    by (auto simp: handlePipeline_def writeError_def writeJSON_def Let_def
        split: sum.splits option.splits prod.splits
        dest!: run_pipeline_quiet clock_quiet(1) intro: quiet_trans)
qed

text \<open>
  What is expected of the two library handlers: the Prometheus page meets the contract of a
  handler, and \<open>websocket.Accept\<close> leaves the wrappers in place, writes at most one status (101 or
  an error) on a fresh response, and keeps the headers it does not know.
\<close>

definition deps_ok :: "(request \<Rightarrow> bool) \<Rightarrow> 'l deps \<Rightarrow> bool" where
  "deps_ok P D \<longleftrightarrow> good_handler P (dp_prom D) \<and>
     (\<forall>rq rs. length (rs_wrappers (snd (dp_accept D rq rs))) = length (rs_wrappers rs) \<and>
        (fresh rs \<longrightarrow> in_step rs \<longrightarrow> in_step (snd (dp_accept D rq rs))) \<and>
        (\<forall>v. tagged v rs \<longrightarrow> tagged v (snd (dp_accept D rq rs))))"

lemma metrics_handler_id: "handleMetrics prom = prom"
  by (intro ext) (simp add: handleMetrics_def split: prod.split)

lemma stream_handler_good:
  assumes "deps_ok P D"
  shows "good_handler P (handleStream E cfg (dp_accept D) script)"
  unfolding good_handler_def
proof (intro conjI)
  show "sound_handler P (handleStream E cfg (dp_accept D) script)"
    by (rule sound_handlerI, drule handleStream_books)
       (use assms in \<open>auto simp: deps_ok_def same_books_def\<close>)
  show "keeps_id (handleStream E cfg (dp_accept D) script)"
    by (rule keeps_idI, drule handleStream_books) (use assms in \<open>auto simp: deps_ok_def\<close>)
  show "leaves_books (handleStream E cfg (dp_accept D) script)"
    unfolding leaves_books_def by (auto dest!: handleStream_books simp: same_books_def quiet_def)
qed

lemma route_handler_good:
  assumes "deps_ok P D"
  shows "good_handler P (route_handler OS E D sv r)"
  using assms
  by (cases r)
     (auto simp: route_handler_def metrics_handler_id deps_ok_def stream_handler_good [OF assms]
       answers_json_good plain_handlers_answer ready_handler_answers transcribe_handler_answers
       pipeline_handler_answers)

lemma http_error_facts:
  "length (rs_wrappers (http_error c m rs)) = length (rs_wrappers rs)"
  "fresh rs \<Longrightarrow> in_step (http_error c m rs)"
  "tagged v rs \<Longrightarrow> tagged v (http_error c m rs)"
  by (simp_all add: http_error_def fresh_def in_step_write_chunk in_step_write_header)
     (auto simp: fresh_def set_header_def intro!: in_step_write_chunk in_step_write_header)

lemma http_redirect_facts:
  "length (rs_wrappers (http_redirect rq url rs)) = length (rs_wrappers rs)"
  "fresh rs \<Longrightarrow> in_step (http_redirect rq url rs)"
  "tagged v rs \<Longrightarrow> tagged v (http_redirect rq url rs)"
  by (auto simp: http_redirect_def Let_def fresh_def set_header_def
      intro!: in_step_write_chunk in_step_write_header)
     (auto simp: tagged_def resp_defs Let_def split: option.splits)

lemma mux_good:
  assumes "\<And>r. good_handler P (handler r)"
  shows "good_handler P (mux handler)"
  unfolding good_handler_def
proof (intro conjI)
  note h = assms [unfolded good_handler_def]
  show "sound_handler P (mux handler)"
  proof (rule sound_handlerI)
    fix rq ctx rs and w w' :: "'a world" and oc rs'
    assume "mux handler rq ctx (rs, w) = (oc, rs', w')"
    then show "length (rs_wrappers rs') = length (rs_wrappers rs) \<and> w_in_flight w' = w_in_flight w \<and>
      (P rq \<longrightarrow> fresh rs \<longrightarrow> in_step rs \<longrightarrow> in_step rs' \<and> (oc \<noteq> Returned \<longrightarrow> fresh rs'))"
      using sound_handlerD [OF conjunct1 [OF h]]
      by (cases "mux_find rq")
         (auto simp: mux_def http_error_facts http_redirect_facts fresh_def set_header_def
            intro!: in_step_write_header http_error_facts(2))
  qed
  show "keeps_id (mux handler)"
  proof (rule keeps_idI)
    fix rq ctx rs and w w' :: "'a world" and oc rs' v
    assume "mux handler rq ctx (rs, w) = (oc, rs', w')" and "tagged v rs"
    then show "tagged v rs'"
      using keeps_idD [OF conjunct1 [OF conjunct2 [OF h]]]
      by (cases "mux_find rq") (auto simp: mux_def http_error_facts http_redirect_facts)
  qed
  show "leaves_books (mux handler)"
    using h by (auto simp: leaves_books_def mux_def split: mux_result.splits)
qed


subsection \<open>The whole stack\<close>

interpretation access_stack: middleware_pair "labels_accepted E" "requestIDMiddleware E" "loggingMiddleware E"
  by unfold_locales

interpretation guard_stack: middleware_pair "labels_accepted E" "metricsMiddleware E" recoveryMiddleware
  by unfold_locales

lemma middleware_stack_sound:
  assumes "sound_handler (labels_accepted E) h"
  shows "sound_handler (labels_accepted E) (middleware_stack E h)"
  unfolding middleware_stack_def Let_def
  by (rule access_stack.pair_sound, rule guard_stack.pair_sound, rule assms)

definition with_wrappers :: "string \<Rightarrow> resp \<Rightarrow> resp" where
  "with_wrappers rid rs = newResponseWriter (newResponseWriter (set_header ''X-Request-Id'' rid rs))"

definition chosen_id :: "env \<Rightarrow> request \<Rightarrow> 'l world \<Rightarrow> string" where
  "chosen_id E rq w =
     (if rq_request_id_header rq = '''' then hex_encode (map (rnd E (w_rand w)) [0..<8])
      else rq_request_id_header rq)"

text \<open>A request through the stack: what the handler is given and what is made of its outcome.\<close>

lemma middleware_stack_cases:
  assumes "middleware_stack E h rq ctx (rs, w) = (oc, rs', w')"
  obtains oc2 rs2 rs3 w1 w2 where
    "h rq (Some (chosen_id E rq w)) (with_wrappers (chosen_id E rq w) rs, w1) = (oc2, rs2, w2)"
    and "w_access w1 = w_access w" "w_requests_total w1 = w_requests_total w" "w_in_flight w1 = w_in_flight w + 1"
    and "rs3 = (if oc2 = Returned then rs2
                else writeError (Some (chosen_id E rq w)) 500 ErrCodeInternalError ''internal server error'' rs2)"
    and "rs' = pop_wrapper (pop_wrapper rs3)"
    and "oc = (if labels_accepted E rq then Returned else Panicked metrics_panic)"
    and "labels_accepted E rq \<Longrightarrow>
      (let key = (rq_method rq, rq_path rq, StatusText (wrapper_status rs3))
       in w_requests_total w' = (w_requests_total w2)(key := Suc (w_requests_total w2 key)))"
    and "labels_accepted E rq \<Longrightarrow> is_probe_path (rq_path rq) \<Longrightarrow> w_access w' = w_access w2"
    and "labels_accepted E rq \<Longrightarrow> \<not> is_probe_path (rq_path rq) \<Longrightarrow>
      \<exists>d. w_access w' = w_access w2 @
        [\<lparr>al_request_id = chosen_id E rq w, al_method = rq_method rq, al_path = rq_path rq,
          al_status = wrapper_status (pop_wrapper rs3), al_duration_ms = d,
          al_remote_addr = rq_remote_addr rq\<rparr>]"
proof -
  let ?rid = "chosen_id E rq w"
  from assms obtain rid w0 where
    1: "loggingMiddleware E (metricsMiddleware E (recoveryMiddleware h)) rq (Some rid)
        (set_header ''X-Request-Id'' rid rs, w0) = (oc, rs', w')"
    and w0: "w_in_flight w0 = w_in_flight w" "w_requests_total w0 = w_requests_total w" "w_access w0 = w_access w"
    and rid: "rid = ?rid"
    unfolding middleware_stack_def Let_def by (rule requestIDMiddleware_cases) (metis chosen_id_def)
  from 1 obtain rsa wa where
    2: "metricsMiddleware E (recoveryMiddleware h) rq (Some rid)
        (newResponseWriter (set_header ''X-Request-Id'' rid rs), w0\<lparr>w_clock := Suc (w_clock w0)\<rparr>) = (oc, rsa, wa)"
    and a: "rs' = pop_wrapper rsa" "w_requests_total w' = w_requests_total wa"
      "oc \<noteq> Returned \<or> is_probe_path (rq_path rq) \<Longrightarrow> w_access w' = w_access wa"
      "oc = Returned \<Longrightarrow> \<not> is_probe_path (rq_path rq) \<Longrightarrow> \<exists>d. w_access w' = w_access wa @
        [\<lparr>al_request_id = rid, al_method = rq_method rq, al_path = rq_path rq,
          al_status = wrapper_status rsa, al_duration_ms = d, al_remote_addr = rq_remote_addr rq\<rparr>]"
    by (rule loggingMiddleware_cases) (auto simp: RequestIDFromContext_def)
  from 2 obtain oc3 rs3 w3 where
    3: "recoveryMiddleware h rq (Some rid) (with_wrappers rid rs,
        w0\<lparr>w_clock := Suc (Suc (w_clock w0)), w_in_flight := w_in_flight w0 + 1\<rparr>) = (oc3, rs3, w3)"
    and b: "rsa = pop_wrapper rs3" "w_access wa = w_access w3"
      "oc = (if oc3 = Returned \<and> \<not> labels_accepted E rq then Panicked metrics_panic else oc3)"
      "oc = Returned \<Longrightarrow>
        (let key = (rq_method rq, rq_path rq, StatusText (wrapper_status rs3))
         in w_requests_total wa = (w_requests_total w3)(key := Suc (w_requests_total w3 key)))"
    by (rule metricsMiddleware_cases) (auto simp: with_wrappers_def)
  from 3 obtain oc2 rs2 where
    4: "h rq (Some rid) (with_wrappers rid rs,
        w0\<lparr>w_clock := Suc (Suc (w_clock w0)), w_in_flight := w_in_flight w0 + 1\<rparr>) = (oc2, rs2, w3)"
    and c: "oc3 = Returned" "oc2 = Returned \<Longrightarrow> rs3 = rs2"
      "oc2 \<noteq> Returned \<Longrightarrow> rs3 = writeError (Some rid) 500 ErrCodeInternalError ''internal server error'' rs2"
    by (rule recoveryMiddleware_cases) auto
  show ?thesis
    using that [OF 4 [unfolded rid], of rs3] w0 a b c rid by (auto simp: Let_def)
qed


lemma wrapper_lengths:
  assumes "length (rs_wrappers rs2) = length (rs_wrappers (with_wrappers rid rs))" and "in_step rs2"
  shows "wrapper_status rs2 = wire_status rs2" and "wrapper_status (pop_wrapper rs2) = wire_status rs2"
    and "wire_status (pop_wrapper (pop_wrapper rs2)) = wire_status rs2"
proof -
  obtain a b ws where w: "rs_wrappers rs2 = a # b # ws"
    using assms(1) by (auto simp: with_wrappers_def newResponseWriter_def length_Suc_conv)
  with assms(2) show "wrapper_status rs2 = wire_status rs2" "wrapper_status (pop_wrapper rs2) = wire_status rs2"
    "wire_status (pop_wrapper (pop_wrapper rs2)) = wire_status rs2"
    by (simp_all add: in_step_def wrapper_status_def pop_wrapper_def wire_status_def)
qed

lemma with_wrappers_facts:
  assumes "fresh rs" and "in_step rs"
  shows "fresh (with_wrappers rid rs)" and "in_step (with_wrappers rid rs)" and "tagged rid (with_wrappers rid rs)"
  using assms
  by (auto simp: with_wrappers_def in_step_new_wrapper_fresh)
     (auto simp: tagged_def set_header_def fresh_def)

lemma writeError_wrappers [simp]:
  "length (rs_wrappers (writeError ctx c code m rs)) = length (rs_wrappers rs)"
  by (simp add: writeError_facts(1))

text \<open>What the client, the log and the counters see of one request.\<close>

lemma stack_books:
  assumes h: "good_handler (labels_accepted E) h" and ok: "labels_accepted E rq"
    and f: "fresh rs" "in_step rs"
    and run: "middleware_stack E h rq ctx (rs, w) = (oc, rs', w')"
  shows "oc = Returned \<and> w_in_flight w' = w_in_flight w \<and> tagged (chosen_id E rq w) rs' \<and>
    (let key = (rq_method rq, rq_path rq, StatusText (wire_status rs'))
     in w_requests_total w' = (w_requests_total w)(key := Suc (w_requests_total w key))) \<and>
    (is_probe_path (rq_path rq) \<longrightarrow> w_access w' = w_access w) \<and>
    (\<not> is_probe_path (rq_path rq) \<longrightarrow> (\<exists>d. w_access w' = w_access w @
        [\<lparr>al_request_id = chosen_id E rq w, al_method = rq_method rq, al_path = rq_path rq,
          al_status = wire_status rs', al_duration_ms = d, al_remote_addr = rq_remote_addr rq\<rparr>]))"
proof -
  let ?rid = "chosen_id E rq w"
  note good = h [unfolded good_handler_def]
  have inflight: "w_in_flight w' = w_in_flight w"
    using sound_handlerD [OF middleware_stack_sound [OF conjunct1 [OF good]] run] by blast
  from run obtain oc2 rs2 rs3 w1 w2 where
    i: "h rq (Some ?rid) (with_wrappers ?rid rs, w1) = (oc2, rs2, w2)"
    and w1: "w_access w1 = w_access w" "w_requests_total w1 = w_requests_total w"
    and rs3: "rs3 = (if oc2 = Returned then rs2
                else writeError (Some ?rid) 500 ErrCodeInternalError ''internal server error'' rs2)"
    and rs': "rs' = pop_wrapper (pop_wrapper rs3)" and oc: "oc = Returned"
    and tot: "let key = (rq_method rq, rq_path rq, StatusText (wrapper_status rs3))
       in w_requests_total w' = (w_requests_total w2)(key := Suc (w_requests_total w2 key))"
    and acc: "is_probe_path (rq_path rq) \<Longrightarrow> w_access w' = w_access w2"
      "\<not> is_probe_path (rq_path rq) \<Longrightarrow> \<exists>d. w_access w' = w_access w2 @
        [\<lparr>al_request_id = ?rid, al_method = rq_method rq, al_path = rq_path rq,
          al_status = wrapper_status (pop_wrapper rs3), al_duration_ms = d,
          al_remote_addr = rq_remote_addr rq\<rparr>]"
    by (rule middleware_stack_cases) (use ok in auto)
  have s: "length (rs_wrappers rs2) = length (rs_wrappers (with_wrappers ?rid rs))" "in_step rs2"
    "oc2 \<noteq> Returned \<longrightarrow> fresh rs2"
    using sound_handlerD [OF conjunct1 [OF good] i] ok with_wrappers_facts [OF f] by auto
  then have s3: "length (rs_wrappers rs3) = length (rs_wrappers (with_wrappers ?rid rs))" "in_step rs3"
    by (auto simp: rs3 writeError_facts)
  have t3: "tagged ?rid rs3"
    using keeps_idD [OF conjunct1 [OF conjunct2 [OF good]] i] with_wrappers_facts(3) [OF f]
    by (simp add: rs3)
  have q: "w_access w2 = w_access w" "w_requests_total w2 = w_requests_total w"
    using good i w1 by (auto simp: leaves_books_def quiet_def)
  show ?thesis
    using oc inflight t3 tot acc q rs' wrapper_lengths [OF s3] by (simp add: Let_def)
qed

lemma Router_good:
  assumes "deps_ok (labels_accepted E) D"
  shows "good_handler (labels_accepted E) (mux (route_handler OS E D sv))"
  by (rule mux_good, rule route_handler_good, rule assms)


subsection \<open>Properties\<close>

definition example_deps :: "'l deps" where
  "example_deps =
     \<lparr>dp_prom = (\<lambda>rq ctx (rs, w). (Returned, write_chunk MetricsBody rs, w)),
      dp_accept = (\<lambda>rq rs. (False, http_error 426 ''Upgrade Required'' rs)),
      dp_script = (\<lambda>rq. ([], []))\<rparr>"

lemma example_deps_ok: "deps_ok P example_deps"
proof -
  have "sound_handler P (dp_prom example_deps)"
    by (rule sound_handlerI) (auto simp: example_deps_def in_step_write_chunk)
  moreover have "keeps_id (dp_prom example_deps)"
    by (rule keeps_idI) (auto simp: example_deps_def)
  ultimately show ?thesis
    by (auto simp: deps_ok_def good_handler_def leaves_books_def example_deps_def http_error_facts)
qed

text \<open>C4: the gateway's books balance. For every request to the router whose method and path the
  metrics client accepts as labels: the router returns, the in-flight gauge is back where it was,
  the request counter of exactly this method, path and status goes up by one, and a request that is
  not a health probe leaves exactly one access log entry; the counter and the entry carry the status
  the client was sent and the id on its response.\<close>

theorem Router_accounts:
  assumes "deps_ok (labels_accepted E) D" and "labels_accepted E rq" and "fresh rs" and "in_step rs"
    and "Router OS E D sv rq ctx (rs, w) = (oc, rs', w')"
  shows "oc = Returned \<and> w_in_flight w' = w_in_flight w \<and>
    (let key = (rq_method rq, rq_path rq, StatusText (wire_status rs'))
     in w_requests_total w' = (w_requests_total w)(key := Suc (w_requests_total w key))) \<and>
    (if is_probe_path (rq_path rq) then w_access w' = w_access w
     else \<exists>d. w_access w' = w_access w @
        [\<lparr>al_request_id = the (rs_header rs' ''X-Request-Id''), al_method = rq_method rq,
          al_path = rq_path rq, al_status = wire_status rs', al_duration_ms = d,
          al_remote_addr = rq_remote_addr rq\<rparr>])"
  using stack_books [OF Router_good [OF assms(1)] assms(2-4) assms(5) [unfolded Router_def]]
  by (auto simp: tagged_def Let_def)






definition example_get :: "string \<Rightarrow> string \<Rightarrow> request" where
  "example_get method path = example_request method path \<lparr>fm_values = [], fm_files = []\<rparr>"

definition example_server_env :: env where
  "example_server_env = example_env (\<lambda>n rq. Inl ''down'')"

definition example_server :: gateway_server where
  "example_server = NewServer quiet_os (LoadConfig Map.empty)"

lemma example_labels: "labels_accepted example_server_env rq"
  by (simp add: labels_accepted_def example_server_env_def example_env_def)

theorem Router_accounts_witness:
  "\<exists>rs' w'. Router quiet_os example_server_env example_deps example_server (example_get ''GET'' ''/v1/models'') None
       (new_resp True, new_world new_log_state) = (Returned, rs', w') \<and>
     w_in_flight w' = 0 \<and> length (w_access w') = 1 \<and>
     w_requests_total w' (''GET'', ''/v1/models'', StatusText (wire_status rs')) = 1"
proof -
  obtain oc rs' w' where r: "Router quiet_os example_server_env example_deps example_server
      (example_get ''GET'' ''/v1/models'') None (new_resp True, new_world new_log_state) = (oc, rs', w')"
    using prod_cases3 by blast
  from Router_accounts [OF example_deps_ok example_labels _ _ r] r show ?thesis
    by (auto simp: new_world_def example_get_def example_request_def is_probe_path_def Let_def)
qed





subsection \<open>The size of uploads\<close>

definition part_bytes :: "part \<Rightarrow> nat" where
  "part_bytes p = (case p of FilePart name filename data \<Rightarrow> length data | FieldPart name v \<Rightarrow> 0)"

text \<open>The file data an outgoing request carries.\<close>

definition file_bytes :: "out_request \<Rightarrow> nat" where
  "file_bytes r =
     (case or_body r of MultipartOut ps \<Rightarrow> sum_list (map part_bytes ps) | BytesOut bs \<Rightarrow> length bs | _ \<Rightarrow> 0)"

text \<open>The multipart parser cannot find more file data in a body than the body has bytes.\<close>

definition sizes_add_up :: "request \<Rightarrow> bool" where
  "sizes_add_up rq \<longleftrightarrow> (\<forall>fm up data name. rq_form rq = Inr fm \<longrightarrow> form_file fm name = Some up \<longrightarrow>
     up_data up = Inr data \<longrightarrow> length data \<le> rq_form_bytes rq)"

lemma accepted_upload_size:
  assumes "sizes_add_up rq" and "parse_multipart_form limit rq = Inr fm" and "form_file fm name = Some up"
    and "up_data up = Inr data"
  shows "length data \<le> limit"
proof -
  have "rq_form rq = Inr fm" "rq_form_bytes rq \<le> limit"
    using assms(2) by (auto simp: parse_multipart_form_def split: if_splits)
  with assms show ?thesis unfolding sizes_add_up_def by (meson le_trans)
qed

lemma stage_request_size: "file_bytes (stage_request po filename audio model language resp name) \<le> length audio"
  by (simp add: stage_request_def stt_request_def diarize_request_def summarize_request_def file_bytes_def
      transcription_form_def part_bytes_def)

lemma stt_request_size: "file_bytes (stt_request po filename audio model language) \<le> length audio"
  using stage_request_size [of po filename audio model language resp "''stt''"] by (simp add: stage_request_def)

lemma transcribe_request_size: "file_bytes (transcribe_request url fm filename data) \<le> length data"
  by (simp add: transcribe_request_def file_bytes_def transcription_form_def part_bytes_def)

lemma handleTranscribe_sends:
  assumes "sizes_add_up rq" and "handleTranscribe E url rq ctx (rs, w) = (oc, rs', w')"
  shows "\<exists>rqs. w_sent w' = w_sent w @ rqs \<and> list_all (\<lambda>r. file_bytes r \<le> transcribe_max_bytes) rqs \<and> length rqs \<le> 1"
proof (cases "\<exists>fm up. parse_multipart_form transcribe_max_bytes rq = Inr fm \<and> form_file fm ''file'' = Some up")
  case False
  with assms(2) show ?thesis
    by (auto simp: handleTranscribe_def time_now_def split: sum.splits option.splits)
next
  case True
  then obtain fm up where ok: "parse_multipart_form transcribe_max_bytes rq = Inr fm" "form_file fm ''file'' = Some up" by blast
  obtain t w1 where t: "time_now E w = (t, w1)" by fastforce
  obtain res w2 where r: "Transcribe E url (up_data up) (up_filename up) (transcription_params fm) w1 = (res, w2)" by fastforce
  from Transcribe_requests [OF r] obtain rqs where rqs: "w2 = w1\<lparr>w_sent := w_sent w1 @ rqs\<rparr>" "length rqs \<le> 1"
    "\<forall>x \<in> set rqs. \<exists>data. up_data up = Inr data \<and> x = transcribe_request url fm (up_filename up) data" by blast
  have "w_sent w' = w_sent w2"
    using assms(2) ok t r
    by (cases res) (auto simp: handleTranscribe_def time_since_def time_now_def Let_def)
  moreover have "w_sent w1 = w_sent w" using t by (auto simp: time_now_def)
  moreover have "list_all (\<lambda>r. file_bytes r \<le> transcribe_max_bytes) rqs"
    using rqs(3) accepted_upload_size [OF assms(1) ok] transcribe_request_size
    by (fastforce simp: list_all_iff intro: le_trans)
  ultimately show ?thesis using rqs by auto
qed

lemma handlePipeline_sends:
  assumes "sizes_add_up rq" and "handlePipeline E lg po rq ctx (rs, w) = (oc, rs', w')"
  shows "\<exists>rqs. w_sent w' = w_sent w @ rqs \<and> list_all (\<lambda>r. file_bytes r \<le> max_form_bytes) rqs"
proof (cases "\<exists>fm up audio. parse_multipart_form max_form_bytes rq = Inr fm \<and>
      form_file fm ''file'' = Some up \<and> up_data up = Inr audio")
  case False
  then show ?thesis
    using assms(2)
    by (auto simp: handlePipeline_def time_now_def Let_def split: sum.splits option.splits prod.splits)
next
  case True
  then obtain fm up audio where ok: "parse_multipart_form max_form_bytes rq = Inr fm"
    "form_file fm ''file'' = Some up" "up_data up = Inr audio" by blast
  have len: "length audio \<le> max_form_bytes" by (rule accepted_upload_size [OF assms(1) ok])
  from pipeline_outcomes [OF ok assms(2)] obtain res :: "goerror + PipelineResponse" where res: "case res of
         Inl err \<Rightarrow> w_sent w' = w_sent w @ filter (\<lambda>rq. url_error E (or_url rq) = None)
             [stt_request po (up_filename up) audio (form_value fm ''model'') (form_value fm ''language'')]
       | Inr resp \<Rightarrow> w_sent w' = w_sent w @ filter (\<lambda>rq. url_error E (or_url rq) = None)
             (map (stage_request po (up_filename up) audio (form_value fm ''model'') (form_value fm ''language'') resp)
                (map fst (pr_Stages resp)))"
  proof (elim conjE exE)
    fix es res
    assume "case res of Inl err \<Rightarrow> rs' = writeError ctx 502 ErrCodeBackendError (''STT stage failed: '' @ err) rs \<and>
           types es = [(''pipeline.start'', '''')] @ stage_block ''stt'' False \<and>
           w_sent w' = w_sent w @ filter (\<lambda>rq. url_error E (or_url rq) = None)
             [stt_request po (up_filename up) audio (form_value fm ''model'') (form_value fm ''language'')]
       | Inr resp \<Rightarrow> rs' = writeJSON 200 (PipelineResponse_json resp) rs \<and>
           pr_RequestID resp = RequestIDFromContext ctx \<and>
           map fst (pr_Stages resp) = planned po (parseStages (form_value fm ''stages'')) (pr_Transcript resp) \<and>
           types es = [(''pipeline.start'', '''')] @ stage_trace (pr_Stages resp) @ [(''pipeline.complete'', '''')] \<and>
           w_sent w' = w_sent w @ filter (\<lambda>rq. url_error E (or_url rq) = None)
             (map (stage_request po (up_filename up) audio (form_value fm ''model'') (form_value fm ''language'') resp)
                (map fst (pr_Stages resp)))"
    then show thesis by (intro that [of res]) (cases res, simp, simp del: map_map)
  qed
  show ?thesis
  proof (cases res)
    case (Inl err)
    with res le_trans [OF stt_request_size len] show ?thesis by auto
  next
    case (Inr resp)
    with res le_trans [OF stage_request_size len] show ?thesis
      by (intro exI [of _ "filter (\<lambda>rq. url_error E (or_url rq) = None)
             (map (stage_request po (up_filename up) audio (form_value fm ''model'') (form_value fm ''language'') resp)
                (map fst (pr_Stages resp)))"]) (auto simp: list_all_iff)
  qed
qed

text \<open>C28: the gateway bounds what it forwards. Whatever the client sends, neither the transcription
  endpoint nor the pipeline hands a backend more than 32 MiB of file data in a request, and the
  transcription endpoint makes at most one request.\<close>

theorem upload_limit:
  assumes "sizes_add_up rq" and "handleTranscribe E url rq ctx (rs, w) = (oc, rs', w')"
    and "handlePipeline E2 lg po rq ctx2 (rs2, v) = (oc2, rs2', v')"
  shows "(\<exists>rqs. w_sent w' = w_sent w @ rqs \<and> list_all (\<lambda>r. file_bytes r \<le> 33554432) rqs \<and> length rqs \<le> 1) \<and>
    (\<exists>rqs. w_sent v' = w_sent v @ rqs \<and> list_all (\<lambda>r. file_bytes r \<le> 33554432) rqs)"
proof -
  have "transcribe_max_bytes = 33554432" "max_form_bytes = 33554432"
    by (simp_all add: transcribe_max_bytes_def max_form_bytes_def)
  with handleTranscribe_sends [OF assms(1,2)] handlePipeline_sends [OF assms(1,3)] show ?thesis by simp
qed

theorem upload_limit_witness:
  "\<exists>oc rs' w'. handlePipeline example_pipeline_env record_log example_po example_pipeline_request (Some ''r'')
       (new_resp False, new_world []) = (oc, rs', w') \<and> list_all (\<lambda>r. file_bytes r \<le> 33554432) (w_sent w')"
proof -
  obtain oc rs' w' where r: "handlePipeline example_pipeline_env record_log example_po example_pipeline_request
      (Some ''r'') (new_resp False, new_world []) = (oc, rs', w')"
    using prod_cases3 by blast
  obtain oc2 rs2 v' where t: "handleTranscribe example_pipeline_env ''http://w'' example_pipeline_request (Some ''r'')
      (new_resp False, new_world ()) = (oc2, rs2, v')"
    using prod_cases3 by blast
  have s: "sizes_add_up example_pipeline_request"
    by (simp add: sizes_add_up_def example_pipeline_request_def example_request_def example_pipeline_form_def
        form_file_def example_upload_def)
  from upload_limit [OF s t r, THEN conjunct2] have "list_all (\<lambda>r. file_bytes r \<le> 33554432) (w_sent w')"
    by (auto simp: new_world_def)
  with r show ?thesis by blast
qed


subsection \<open>Configuration\<close>

definition config_variables :: "string set" where
  "config_variables =
     {''PORT'', ''WHISPER_URL'', ''VAD_ENDPOINT'', ''DIARIZER_URL'', ''SUMMARIZER_URL'', ''EVENT_LOG_BACKEND'',
      ''EVENT_LOG_DIR'', ''EVENT_LOG_BUCKET''}"

definition set_variables :: "environ \<Rightarrow> environ" where
  "set_variables environ = (\<lambda>k. if k \<in> config_variables \<and> environ k \<noteq> Some '''' then environ k else None)"

lemma getEnv_set_variables: "key \<in> config_variables \<Longrightarrow> getEnv (set_variables environ) key fb = getEnv environ key fb"
  by (simp add: getEnv_def os_getenv_def set_variables_def split: option.splits)

text \<open>C39: the server's configuration. It depends only on the eight variables it documents, and a
  variable set to the empty text counts as not set. Whatever the environment, the transcription and
  voice detection backends and the port are not empty; a pipeline stage is configured exactly when
  its variable is set; and the server never gets a bucket logger without a bucket or a file logger
  whose directory could not be made.\<close>

theorem gateway_configuration:
  "let cfg = LoadConfig environ; sv = NewServer OS cfg
   in cfg = LoadConfig (set_variables environ) \<and>
      cfg_Port cfg \<noteq> '''' \<and> sv_proxy sv \<noteq> '''' \<and> cfg_VADEndpoint cfg \<noteq> '''' \<and>
      (po_diarizerURL (sv_pipeline sv) \<noteq> '''' \<longleftrightarrow> set_variables environ ''DIARIZER_URL'' \<noteq> None) \<and>
      (po_summarizerURL (sv_pipeline sv) \<noteq> '''' \<longleftrightarrow> set_variables environ ''SUMMARIZER_URL'' \<noteq> None) \<and>
      (case sv_events sv of
         GCSLogger bucket \<Rightarrow> bucket \<noteq> '''' \<and> cfg_EventLogBackend cfg = ''gcs''
       | LocalFileLogger dir \<Rightarrow> dir \<noteq> '''' \<and> os_mkdir_error OS dir = None
       | NoOpLogger \<Rightarrow> if cfg_EventLogBackend cfg \<in> {''local'', ''gcs''} then os_mkdir_error OS (cfg_EventLogDir cfg) \<noteq> None else True)"
proof -
  have same: "LoadConfig (set_variables environ) = LoadConfig environ"
    by (simp add: LoadConfig_def getEnv_set_variables config_variables_def)
  have url: "getEnv environ key '''' \<noteq> '''' \<longleftrightarrow> set_variables environ key \<noteq> None" if "key \<in> config_variables" for key
    using that by (auto simp: getEnv_def os_getenv_def set_variables_def split: option.splits)
  have stages: "po_diarizerURL (sv_pipeline (NewServer OS cfg)) = cfg_DiarizerURL cfg"
    "po_summarizerURL (sv_pipeline (NewServer OS cfg)) = cfg_SummarizerURL cfg"
    "sv_proxy (NewServer OS cfg) = cfg_WhisperURL cfg" "sv_events (NewServer OS cfg) = NewEventLogger OS cfg" for cfg
    by (simp_all add: NewServer_def NewPipelineOrchestrator_def Let_def)
  have c: "cfg_DiarizerURL (LoadConfig environ) = getEnv environ ''DIARIZER_URL'' ''''"
    "cfg_SummarizerURL (LoadConfig environ) = getEnv environ ''SUMMARIZER_URL'' ''''"
    by (simp_all add: LoadConfig_def)
  have v: "''DIARIZER_URL'' \<in> config_variables" "''SUMMARIZER_URL'' \<in> config_variables"
    by (simp_all add: config_variables_def)
  have l: "case NewEventLogger OS cfg of
         GCSLogger bucket \<Rightarrow> bucket \<noteq> '''' \<and> cfg_EventLogBackend cfg = ''gcs''
       | LocalFileLogger dir \<Rightarrow> dir \<noteq> '''' \<and> os_mkdir_error OS dir = None
       | NoOpLogger \<Rightarrow> if cfg_EventLogBackend cfg \<in> {''local'', ''gcs''} then os_mkdir_error OS (cfg_EventLogDir cfg) \<noteq> None else True"
    if "cfg_EventLogDir cfg \<noteq> ''''" for cfg
    using that by (auto simp: NewEventLogger_def Let_def split: option.splits)
  show ?thesis
    unfolding Let_def stages same c using url [OF v(1)] url [OF v(2)] l [of "LoadConfig environ"] by simp
qed

end
