(* ===== verification/GatewayMain.thy ===== *)
theory GatewayMain
  imports Server
begin

section \<open>The gateway process (cmd/gateway/main.go)\<close>

text \<open>
  The HTTP server the process starts, and when the process ends. The listener runs in a goroutine of
  its own, so its return, the signals and the return of \<open>Shutdown\<close> come in any order: they are
  events, and the process is a step function on them. Logging and what the HTTP server does with its
  time-outs are left out.
\<close>

record 'h http_server =
  hs_Addr :: string
  hs_Handler :: 'h
  hs_ReadTimeout :: duration
  hs_WriteTimeout :: duration
  hs_IdleTimeout :: duration

definition gateway_http_server ::
    "os \<Rightarrow> env \<Rightarrow> log_state deps \<Rightarrow> environ \<Rightarrow> log_state handler http_server" where
  "gateway_http_server OS E D environ =
     (let cfg = LoadConfig environ;
          srv = NewServer OS cfg
      in \<lparr>hs_Addr = '':'' @ cfg_Port cfg, hs_Handler = Router OS E D srv, hs_ReadTimeout = go_seconds 30,
          hs_WriteTimeout = go_seconds 120, hs_IdleTimeout = go_seconds 60\<rparr>)"

text \<open>\<open>Terminate\<close> is SIGINT or SIGTERM, the two signals the process asked for. \<open>Shutdown\<close> is called
  when the first of them is read from the channel; later ones stay in the channel.\<close>

datatype process_event = ListenReturned goerror | Terminate | ShutdownReturned "goerror option"

datatype process_state = Serving_Requests | ShuttingDown | Exited nat

definition ErrServerClosed :: goerror where "ErrServerClosed = ''http: Server closed''"

fun gateway_step :: "process_event \<Rightarrow> process_state \<Rightarrow> process_state" where
  "gateway_step e (Exited code) = Exited code"
| "gateway_step (ListenReturned err) s = (if err \<noteq> ErrServerClosed then Exited 1 else s)"
| "gateway_step Terminate s = ShuttingDown"
| "gateway_step (ShutdownReturned r) ShuttingDown = Exited 0"
| "gateway_step (ShutdownReturned r) Serving_Requests = Serving_Requests"

definition gateway_main :: "process_event list \<Rightarrow> process_state" where
  "gateway_main events = fold gateway_step events Serving_Requests"

fun listening :: "process_event \<Rightarrow> bool" where
  "listening (ListenReturned err) \<longleftrightarrow> err = ErrServerClosed"
| "listening _ \<longleftrightarrow> True"

fun is_shutdown :: "process_event \<Rightarrow> bool" where
  "is_shutdown (ShutdownReturned r) = True"
| "is_shutdown _ = False"

lemma exited_stays: "fold gateway_step events (Exited code) = Exited code"
  by (induction events) simp_all

lemma shutting_down_exits:
  "fold gateway_step events ShuttingDown = Exited 0 \<longleftrightarrow>
     (\<exists>pre r post. events = pre @ ShutdownReturned r # post \<and> list_all listening pre)"
proof (induction events)
  case (Cons e events)
  have split: "(\<exists>pre r post. e # events = pre @ ShutdownReturned r # post \<and> list_all listening pre) \<longleftrightarrow>
      is_shutdown e \<or> listening e \<and> (\<exists>pre r post. events = pre @ ShutdownReturned r # post \<and> list_all listening pre)"
    (is "?L = ?R")
  proof
    assume ?L
    then obtain pre r post where p: "e # events = pre @ ShutdownReturned r # post" "list_all listening pre" by blast
    then show ?R by (cases pre) auto
  next
    assume ?R
    then show ?L
    proof
      assume "is_shutdown e"
      then obtain r where "e = ShutdownReturned r" by (cases e) auto
      then show ?L by (intro exI [of _ "[]"]) auto
    next
      assume "listening e \<and> (\<exists>pre r post. events = pre @ ShutdownReturned r # post \<and> list_all listening pre)"
      then obtain pre r post where "events = pre @ ShutdownReturned r # post" "list_all listening (e # pre)" by auto
      then show ?L by (intro exI [of _ "e # pre"] exI [of _ r] exI [of _ post]) simp
    qed
  qed
  show ?case unfolding split using Cons by (cases e) (auto simp: exited_stays)
qed simp

lemma serving_exits:
  "fold gateway_step events Serving_Requests = Exited 0 \<longleftrightarrow>
     (\<exists>pre post. events = pre @ Terminate # post \<and> list_all listening pre \<and> fold gateway_step post ShuttingDown = Exited 0)"
proof (induction events)
  case (Cons e events)
  have split: "(\<exists>pre post. e # events = pre @ Terminate # post \<and> list_all listening pre \<and> P post) \<longleftrightarrow>
      e = Terminate \<and> P events \<or> listening e \<and> (\<exists>pre post. events = pre @ Terminate # post \<and> list_all listening pre \<and> P post)"
    (is "?L = ?R") for P
  proof
    assume ?L
    then obtain pre post where p: "e # events = pre @ Terminate # post" "list_all listening pre" "P post" by blast
    then show ?R by (cases pre) auto
  next
    assume ?R
    then show ?L
    proof
      assume "e = Terminate \<and> P events"
      then show ?L by (intro exI [of _ "[]"] exI [of _ events]) simp
    next
      assume "listening e \<and> (\<exists>pre post. events = pre @ Terminate # post \<and> list_all listening pre \<and> P post)"
      then obtain pre post where "events = pre @ Terminate # post" "list_all listening (e # pre)" "P post" by auto
      then show ?L by (intro exI [of _ "e # pre"] exI [of _ post]) simp
    qed
  qed
  have later: "fold gateway_step events ShuttingDown = Exited 0"
    if "events = pre @ Terminate # post" "list_all listening pre" "fold gateway_step post ShuttingDown = Exited 0" for pre post
  proof -
    from that(3) obtain pre' r post' where "post = pre' @ ShutdownReturned r # post'" "list_all listening pre'"
      unfolding shutting_down_exits by blast
    with that(1,2) have "events = (pre @ Terminate # pre') @ ShutdownReturned r # post'" "list_all listening (pre @ Terminate # pre')"
      by simp_all
    then show ?thesis unfolding shutting_down_exits by blast
  qed
  show ?case unfolding split using Cons later by (cases e) (auto simp: exited_stays)
qed simp

text \<open>C40: when the gateway ends. It exits with code 0 exactly when a termination signal came and
  \<open>Shutdown\<close> returned after it, whether or not with an error, and until then the listener had not
  failed for another reason than being closed; it exits with code 1 when it had.\<close>

theorem gateway_exit_code:
  "(gateway_main events = Exited 0 \<longleftrightarrow>
     (\<exists>pre mid r post. events = pre @ Terminate # mid @ ShutdownReturned r # post \<and> list_all listening (pre @ mid))) \<and>
   (gateway_main events = Exited 1 \<longleftrightarrow> gateway_main events \<noteq> Exited 0 \<and> \<not> list_all listening events)"
proof
  show "gateway_main events = Exited 0 \<longleftrightarrow>
     (\<exists>pre mid r post. events = pre @ Terminate # mid @ ShutdownReturned r # post \<and> list_all listening (pre @ mid))"
    unfolding gateway_main_def serving_exits shutting_down_exits by (fastforce simp: list_all_append)
  have "fold gateway_step events s = Exited 1 \<longleftrightarrow> fold gateway_step events s \<noteq> Exited 0 \<and> \<not> list_all listening events"
    if "\<forall>code. s \<noteq> Exited code" for s
    using that
  proof (induction events arbitrary: s)
    case (Cons e events)
    then show ?case by (cases e; cases s) (auto simp: exited_stays)
  qed simp
  then show "gateway_main events = Exited 1 \<longleftrightarrow> gateway_main events \<noteq> Exited 0 \<and> \<not> list_all listening events"
    by (simp add: gateway_main_def)
qed

end
