(* ===== verification/ApiTypes.thy ===== *)
theory ApiTypes
  imports Json
begin

section \<open>The custom resources (operator/api/v1alpha1)\<close>

text \<open>
  The three custom resources of the operator and the metadata every object carries. A pointer
  field is an option, a Go map of strings an association list, an \<open>int32\<close> an \<open>int\<close> (the
  controllers only compare and print them), an enum type a string with named constants. Of the
  object metadata the fields the controllers read or write are kept; \<open>status.conditions\<close>, which
  no controller touches, is carried along.
\<close>

record ObjectMeta =
  om_Name :: string
  om_Namespace :: string
  om_Labels :: "(string \<times> string) list"
  om_Finalizers :: "string list"
  om_DeletionTimestamp :: "instant option"
  om_OwnerReferences :: "(string \<times> string) list"

definition object_meta :: "string \<Rightarrow> string \<Rightarrow> (string \<times> string) list \<Rightarrow> ObjectMeta" where
  "object_meta name namespace labels =
     \<lparr>om_Name = name, om_Namespace = namespace, om_Labels = labels, om_Finalizers = [],
      om_DeletionTimestamp = None, om_OwnerReferences = []\<rparr>"

record ResourceRequirements =
  rr_Requests :: "(string \<times> string) list"
  rr_Limits :: "(string \<times> string) list"

subsection \<open>VoiceModel\<close>

record HealthConfig =
  hc_Path :: string
  hc_InitialDelaySeconds :: int
  hc_PeriodSeconds :: int

record VoiceModelSpec =
  vs_Model :: string
  vs_Replicas :: "int option"
  vs_Device :: string
  vs_Quantization :: string
  vs_Image :: string
  vs_Resources :: "ResourceRequirements option"
  vs_Port :: int
  vs_Health :: "HealthConfig option"
  vs_Metrics :: "bool option"

type_synonym VoiceModelPhase = string

definition PhasePending :: VoiceModelPhase where "PhasePending = ''Pending''"
definition PhaseDeploying :: VoiceModelPhase where "PhaseDeploying = ''Deploying''"
definition PhaseReady :: VoiceModelPhase where "PhaseReady = ''Ready''"
definition PhaseFailed :: VoiceModelPhase where "PhaseFailed = ''Failed''"
definition PhaseTerminating :: VoiceModelPhase where "PhaseTerminating = ''Terminating''"

record VoiceModelStatus =
  vt_Phase :: VoiceModelPhase
  vt_ReadyReplicas :: int
  vt_Endpoint :: string
  vt_Message :: string
  vt_Conditions :: "json list"
  vt_LastTransitionTime :: "instant option"

record VoiceModel =
  vm_Meta :: ObjectMeta
  vm_Spec :: VoiceModelSpec
  vm_Status :: VoiceModelStatus

subsection \<open>InferencePipeline\<close>

record PipelineStage =
  ps_Name :: string
  ps_Model :: string
  ps_Enabled :: "bool option"

record PipelineStageStatus =
  pt_Name :: string
  pt_ModelRef :: string
  pt_Ready :: bool
  pt_Endpoint :: string
  pt_Message :: string

type_synonym InferencePipelinePhase = string

definition PipelinePhasePending :: InferencePipelinePhase where "PipelinePhasePending = ''Pending''"
definition PipelinePhaseValidating :: InferencePipelinePhase where "PipelinePhaseValidating = ''Validating''"
definition PipelinePhaseReady :: InferencePipelinePhase where "PipelinePhaseReady = ''Ready''"
definition PipelinePhaseDegraded :: InferencePipelinePhase where "PipelinePhaseDegraded = ''Degraded''"
definition PipelinePhaseFailed :: InferencePipelinePhase where "PipelinePhaseFailed = ''Failed''"

record InferencePipelineStatus =
  is_Phase :: InferencePipelinePhase
  is_Stages :: "PipelineStageStatus list"
  is_Message :: string
  is_Conditions :: "json list"
  is_LastTransitionTime :: "instant option"

record InferencePipeline =
  ip_Meta :: ObjectMeta
  ip_Stages :: "PipelineStage list"
  ip_Status :: InferencePipelineStatus

subsection \<open>EvalRun\<close>

record EvalRunSpec =
  es_Dataset :: string
  es_GatewayURL :: string
  es_Model :: string
  es_Image :: string
  es_WERThreshold :: string
  es_TimeoutSeconds :: "int option"
  es_Suspend :: bool

type_synonym EvalRunPhase = string

definition EvalRunPhasePending :: EvalRunPhase where "EvalRunPhasePending = ''Pending''"
definition EvalRunPhaseRunning :: EvalRunPhase where "EvalRunPhaseRunning = ''Running''"
definition EvalRunPhaseSucceeded :: EvalRunPhase where "EvalRunPhaseSucceeded = ''Succeeded''"
definition EvalRunPhaseFailed :: EvalRunPhase where "EvalRunPhaseFailed = ''Failed''"

record EvalRunStatus =
  et_Phase :: EvalRunPhase
  et_WorkflowRef :: string
  et_CorpusWER :: string
  et_MeanWER :: string
  et_Passed :: "bool option"
  et_TotalSamples :: int
  et_Message :: string
  et_StartTime :: "instant option"
  et_CompletionTime :: "instant option"
  et_Conditions :: "json list"

record EvalRun =
  er_Meta :: ObjectMeta
  er_Spec :: EvalRunSpec
  er_Status :: EvalRunStatus

lemmas [status_defs] =
  PhasePending_def PhaseDeploying_def PhaseReady_def PhaseFailed_def PhaseTerminating_def
  PipelinePhasePending_def PipelinePhaseValidating_def PipelinePhaseReady_def
  PipelinePhaseDegraded_def PipelinePhaseFailed_def
  EvalRunPhasePending_def EvalRunPhaseRunning_def EvalRunPhaseSucceeded_def EvalRunPhaseFailed_def

end
