(* ===== verification/Kube.thy ===== *)
theory Kube
  imports ApiTypes
begin

section \<open>The Kubernetes API as the controllers use it\<close>

text \<open>
  The cluster objects the controllers build, and the API client. The API server is a parameter
  (\<open>kenv\<close>): its answer to the n-th call may depend on n, so nothing is assumed of caching, of
  other writers or of failures. The world (\<open>kworld\<close>) records every call with the object it
  carried. \<open>Update\<close> overwrites the caller's object with the server's answer.

  From controller-runtime the controllers use \<open>SetControllerReference\<close> and the finalizer
  helpers; these are parameters too. The status of a workflow, an object of another system, is
  what the accessors of the unstructured client report: the phase (empty when absent) and the
  list of output parameters (\<open>None\<close> when absent or not a list).
\<close>

subsection \<open>Objects\<close>

record ContainerPort =
  cp_Name :: string
  cp_ContainerPort :: int
  cp_Protocol :: string

record Probe =
  pb_Path :: string
  pb_Port :: string
  pb_InitialDelaySeconds :: int
  pb_PeriodSeconds :: int

record Container =
  co_Name :: string
  co_Image :: string
  co_ImagePullPolicy :: string
  co_Ports :: "ContainerPort list"
  co_Env :: "(string \<times> string) list"
  co_Resources :: ResourceRequirements
  co_ReadinessProbe :: Probe
  co_LivenessProbe :: Probe

record PodTemplate =
  pd_Labels :: "(string \<times> string) list"
  pd_Annotations :: "(string \<times> string) list"
  pd_Containers :: "Container list"

record DeploymentSpec =
  ds_Replicas :: int
  ds_Selector :: "(string \<times> string) list"
  ds_Template :: PodTemplate

record DeploymentCondition =
  dc_Type :: string
  dc_Status :: string
  dc_Message :: string

record Deployment =
  dp_Meta :: ObjectMeta
  dp_Spec :: DeploymentSpec
  dp_ReadyReplicas :: int
  dp_Conditions :: "DeploymentCondition list"

record ServicePort =
  sp_Name :: string
  sp_Port :: int
  sp_TargetPort :: string
  sp_Protocol :: string

record ServiceSpec =
  ss_Type :: string
  ss_Selector :: "(string \<times> string) list"
  ss_Ports :: "ServicePort list"
  ss_ClusterIP :: string

record Service =
  svc_Meta :: ObjectMeta
  svc_Spec :: ServiceSpec

record Workflow =
  wf_Meta :: ObjectMeta
  wf_Spec :: json
  wf_StatusPhase :: string
  wf_OutputParameters :: "json list option"

subsection \<open>Errors, calls, environment\<close>

datatype api_error = NotFoundError string | AlreadyExistsError string | OtherError string

fun error_text :: "api_error \<Rightarrow> goerror" where
  "error_text (NotFoundError msg) = msg"
| "error_text (AlreadyExistsError msg) = msg"
| "error_text (OtherError msg) = msg"

fun IsNotFound :: "api_error \<Rightarrow> bool" where
  "IsNotFound (NotFoundError msg) = True"
| "IsNotFound _ = False"

fun IsAlreadyExists :: "api_error \<Rightarrow> bool" where
  "IsAlreadyExists (AlreadyExistsError msg) = True"
| "IsAlreadyExists _ = False"

datatype api_call =
    GetVoiceModel string string | UpdateVoiceModel VoiceModel | UpdateVoiceModelStatus VoiceModel
  | GetDeployment string string | CreateDeployment Deployment | UpdateDeployment Deployment
  | GetService string string | CreateService Service | UpdateService Service
  | GetPipeline string string | UpdatePipelineStatus InferencePipeline | ListPipelines string
  | GetEvalRun string string | UpdateEvalRunStatus EvalRun
  | GetWorkflow string string | CreateWorkflow Workflow

record kenv =
  ke_clk :: "nat \<Rightarrow> instant"
  ke_get_voicemodel :: "nat \<Rightarrow> string \<Rightarrow> string \<Rightarrow> api_error + VoiceModel"
  ke_update_voicemodel :: "nat \<Rightarrow> VoiceModel \<Rightarrow> api_error + VoiceModel"
  ke_get_deployment :: "nat \<Rightarrow> string \<Rightarrow> string \<Rightarrow> api_error + Deployment"
  ke_get_service :: "nat \<Rightarrow> string \<Rightarrow> string \<Rightarrow> api_error + Service"
  ke_get_pipeline :: "nat \<Rightarrow> string \<Rightarrow> string \<Rightarrow> api_error + InferencePipeline"
  ke_list_pipelines :: "nat \<Rightarrow> string \<Rightarrow> api_error + InferencePipeline list"
  ke_get_evalrun :: "nat \<Rightarrow> string \<Rightarrow> string \<Rightarrow> api_error + EvalRun"
  ke_get_workflow :: "nat \<Rightarrow> string \<Rightarrow> string \<Rightarrow> api_error + Workflow"
  ke_write_error :: "nat \<Rightarrow> api_call \<Rightarrow> api_error option"
  ke_set_owner :: "ObjectMeta \<Rightarrow> ObjectMeta \<Rightarrow> goerror + ObjectMeta"
  ke_has_finalizer :: "string list \<Rightarrow> string \<Rightarrow> bool"
  ke_add_finalizer :: "string list \<Rightarrow> string \<Rightarrow> string list"
  ke_remove_finalizer :: "string list \<Rightarrow> string \<Rightarrow> string list"

record kworld =
  kw_clock :: nat
  kw_calls :: "api_call list"

definition new_kworld :: kworld where
  "new_kworld = \<lparr>kw_clock = 0, kw_calls = []\<rparr>"

definition record_call :: "api_call \<Rightarrow> kworld \<Rightarrow> kworld" where
  "record_call c w = w\<lparr>kw_calls := kw_calls w @ [c]\<rparr>"

definition call_no :: "kworld \<Rightarrow> nat" where
  "call_no w = length (kw_calls w)"

definition kube_now :: "kenv \<Rightarrow> kworld \<Rightarrow> instant \<times> kworld" where
  "kube_now K w = (ke_clk K (kw_clock w), w\<lparr>kw_clock := Suc (kw_clock w)\<rparr>)"

definition get_voicemodel where
  "get_voicemodel K ns name w = (ke_get_voicemodel K (call_no w) ns name, record_call (GetVoiceModel ns name) w)"

definition update_voicemodel where
  "update_voicemodel K vm w = (ke_update_voicemodel K (call_no w) vm, record_call (UpdateVoiceModel vm) w)"

definition get_deployment where
  "get_deployment K ns name w = (ke_get_deployment K (call_no w) ns name, record_call (GetDeployment ns name) w)"

definition get_service where
  "get_service K ns name w = (ke_get_service K (call_no w) ns name, record_call (GetService ns name) w)"

definition get_pipeline where
  "get_pipeline K ns name w = (ke_get_pipeline K (call_no w) ns name, record_call (GetPipeline ns name) w)"

definition list_pipelines where
  "list_pipelines K ns w = (ke_list_pipelines K (call_no w) ns, record_call (ListPipelines ns) w)"

definition get_evalrun where
  "get_evalrun K ns name w = (ke_get_evalrun K (call_no w) ns name, record_call (GetEvalRun ns name) w)"

definition get_workflow where
  "get_workflow K ns name w = (ke_get_workflow K (call_no w) ns name, record_call (GetWorkflow ns name) w)"

text \<open>A write whose answer the code does not look at beyond its error.\<close>

definition kube_write :: "kenv \<Rightarrow> api_call \<Rightarrow> kworld \<Rightarrow> api_error option \<times> kworld" where
  "kube_write K c w = (ke_write_error K (call_no w) c, record_call c w)"

lemmas [world_defs] =
  record_call_def call_no_def kube_now_def get_voicemodel_def update_voicemodel_def
  get_deployment_def get_service_def get_pipeline_def list_pipelines_def get_evalrun_def
  get_workflow_def kube_write_def

subsection \<open>Results\<close>

text \<open>\<open>ctrl.Result\<close>: after how long to reconcile again, if a timer was asked for.\<close>

type_synonym ctrl_result = "duration option"

definition requeue_delay :: duration where
  "requeue_delay = go_seconds 10"

text \<open>A reconcile request: the namespace and the name of the object.\<close>

type_synonym reconcile_request = "string \<times> string"

subsection \<open>The status contract\<close>

text \<open>
  What two of the controllers promise of their status setter: the new phase is on the object and
  the transition time is the clock's reading when the phase changed and untouched otherwise.
\<close>

locale status_setter =
  fixes phase :: "'o \<Rightarrow> string"
    and transition :: "'o \<Rightarrow> instant option"
    and set_status :: "'a \<Rightarrow> string \<Rightarrow> instant \<Rightarrow> 'o \<Rightarrow> 'o"
  assumes phase_set: "phase (set_status a p now x) = p"
    and transition_set: "transition (set_status a p now x) = (if phase x \<noteq> p then Some now else transition x)"
begin

text \<open>Setting the phase it already has, however often and whatever else changes, never moves the
  transition time.\<close>

lemma stable:
  "phase x = p \<Longrightarrow> transition (fold (\<lambda>(a, now) y. set_status a p now y) steps x) = transition x"
proof -
  have "phase x = p \<Longrightarrow>
    phase (fold (\<lambda>(a, now) y. set_status a p now y) steps x) = p \<and>
    transition (fold (\<lambda>(a, now) y. set_status a p now y) steps x) = transition x" for x
    by (induction steps arbitrary: x) (auto simp: phase_set transition_set)
  then show "phase x = p \<Longrightarrow> transition (fold (\<lambda>(a, now) y. set_status a p now y) steps x) = transition x"
    by blast
qed

end


subsection \<open>A concrete API server\<close>

text \<open>A server whose answers do not change during a reconciliation, for evaluating the controllers
  on concrete objects: it finds each object by its name and accepts every write.\<close>

definition find_named :: "('o \<Rightarrow> ObjectMeta) \<Rightarrow> 'o list \<Rightarrow> string \<Rightarrow> string \<Rightarrow> api_error + 'o" where
  "find_named meta objs ns name =
     (case find (\<lambda>x. om_Name (meta x) = name \<and> om_Namespace (meta x) = ns) objs of
        Some x \<Rightarrow> Inr x
      | None \<Rightarrow> Inl (NotFoundError ''not found''))"

definition example_kenv ::
    "VoiceModel list \<Rightarrow> Deployment list \<Rightarrow> InferencePipeline list \<Rightarrow> EvalRun list \<Rightarrow> Workflow list \<Rightarrow> kenv" where
  "example_kenv vms deps pipes runs wfs =
     \<lparr>ke_clk = (\<lambda>n. 1000000000 * int n),
      ke_get_voicemodel = (\<lambda>n ns name. find_named vm_Meta vms ns name),
      ke_update_voicemodel = (\<lambda>n vm. Inr vm),
      ke_get_deployment = (\<lambda>n ns name. find_named dp_Meta deps ns name),
      ke_get_service = (\<lambda>n ns name. Inl (NotFoundError ''not found'')),
      ke_get_pipeline = (\<lambda>n ns name. find_named ip_Meta pipes ns name),
      ke_list_pipelines = (\<lambda>n ns. Inr (filter (\<lambda>p. om_Namespace (ip_Meta p) = ns) pipes)),
      ke_get_evalrun = (\<lambda>n ns name. find_named er_Meta runs ns name),
      ke_get_workflow = (\<lambda>n ns name. find_named wf_Meta wfs ns name),
      ke_write_error = (\<lambda>n c. None),
      ke_set_owner = (\<lambda>owner meta. Inr (meta\<lparr>om_OwnerReferences := [(''owner'', om_Name owner)]\<rparr>)),
      ke_has_finalizer = (\<lambda>fs f. f \<in> set fs),
      ke_add_finalizer = (\<lambda>fs f. if f \<in> set fs then fs else fs @ [f]),
      ke_remove_finalizer = (\<lambda>fs f. filter (\<lambda>g. g \<noteq> f) fs)\<rparr>"

definition example_voicemodel :: "string list \<Rightarrow> instant option \<Rightarrow> VoiceModel" where
  "example_voicemodel finalizers deleted =
     \<lparr>vm_Meta = \<lparr>om_Name = ''whisper'', om_Namespace = ''vox'', om_Labels = [], om_Finalizers = finalizers,
                om_DeletionTimestamp = deleted, om_OwnerReferences = []\<rparr>,
      vm_Spec = \<lparr>vs_Model = ''small.en'', vs_Replicas = None, vs_Device = ''cpu'', vs_Quantization = ''int8'',
                vs_Image = '''', vs_Resources = None, vs_Port = 0, vs_Health = None, vs_Metrics = None\<rparr>,
      vm_Status = \<lparr>vt_Phase = '''', vt_ReadyReplicas = 0, vt_Endpoint = '''', vt_Message = '''',
                  vt_Conditions = [], vt_LastTransitionTime = None\<rparr>\<rparr>"

end
