(* ===== verification/VoiceModelController.thy ===== *)
theory VoiceModelController
  imports Kube GoStrings
begin

section \<open>The VoiceModel controller (operator/internal/controller/voicemodel_controller.go)\<close>

text \<open>
  Reconciling a VoiceModel: the finalizer, the Deployment and the Service built from the spec, and
  the status derived from the Deployment. Errors the code wraps keep their wrapped text.
\<close>

definition finalizerName :: string where "finalizerName = ''vox.io/voicemodel-cleanup''"
definition defaultCPUImage :: string where "defaultCPUImage = ''fedirz/faster-whisper-server:0.3.0-cpu''"
definition defaultGPUImage :: string where "defaultGPUImage = ''fedirz/faster-whisper-server:0.3.0-cuda''"

subsection \<open>Helpers\<close>

definition deploymentName :: "VoiceModel \<Rightarrow> string" where
  "deploymentName vm = ''vox-'' @ om_Name (vm_Meta vm)"

definition serviceName :: "VoiceModel \<Rightarrow> string" where
  "serviceName vm = ''vox-'' @ om_Name (vm_Meta vm)"

definition getPort :: "VoiceModel \<Rightarrow> int" where
  "getPort vm = (if 0 < vs_Port (vm_Spec vm) then vs_Port (vm_Spec vm) else 8000)"

definition labelsForVoiceModel :: "VoiceModel \<Rightarrow> (string \<times> string) list" where
  "labelsForVoiceModel vm =
     [(''app.kubernetes.io/name'', ''voicemodel''),
      (''app.kubernetes.io/instance'', om_Name (vm_Meta vm)),
      (''app.kubernetes.io/managed-by'', ''voxplatform-operator''),
      (''vox.io/model'', om_Name (vm_Meta vm))]"

definition defaultResources :: "string \<Rightarrow> ResourceRequirements" where
  "defaultResources device =
     (if device = ''gpu'' then
        \<lparr>rr_Requests = [(''cpu'', ''1''), (''memory'', ''4Gi''), (''nvidia.com/gpu'', ''1'')],
         rr_Limits = [(''cpu'', ''4''), (''memory'', ''8Gi''), (''nvidia.com/gpu'', ''1'')]\<rparr>
      else
        \<lparr>rr_Requests = [(''cpu'', ''500m''), (''memory'', ''1Gi'')],
         rr_Limits = [(''cpu'', ''1500m''), (''memory'', ''3Gi'')]\<rparr>)"

definition desired_replicas :: "VoiceModel \<Rightarrow> int" where
  "desired_replicas vm = (case vs_Replicas (vm_Spec vm) of None \<Rightarrow> 1 | Some n \<Rightarrow> n)"

subsection \<open>The Deployment and the Service\<close>

definition buildDeployment :: "VoiceModel \<Rightarrow> Deployment" where
  "buildDeployment vm =
     (let spec = vm_Spec vm;
          labels = labelsForVoiceModel vm;
          replicas = desired_replicas vm;
          image = (if vs_Image spec = '''' then (if vs_Device spec = ''gpu'' then defaultGPUImage else defaultCPUImage)
                   else vs_Image spec);
          port = getPort vm;
          healthPath = (case vs_Health spec of
                          Some h \<Rightarrow> if hc_Path h \<noteq> '''' then hc_Path h else ''/health''
                        | None \<Rightarrow> ''/health'');
          initialDelay = (case vs_Health spec of
                            Some h \<Rightarrow> if 0 < hc_InitialDelaySeconds h then hc_InitialDelaySeconds h else 60
                          | None \<Rightarrow> 60);
          period = (case vs_Health spec of
                      Some h \<Rightarrow> if 0 < hc_PeriodSeconds h then hc_PeriodSeconds h else 10
                    | None \<Rightarrow> 10);
          resources = (case vs_Resources spec of None \<Rightarrow> defaultResources (vs_Device spec) | Some r \<Rightarrow> r);
          env = [(''WHISPER__MODEL'', vs_Model spec), (''WHISPER__INFERENCE_DEVICE'', vs_Device spec),
                 (''WHISPER__COMPUTE_TYPE'', vs_Quantization spec)];
          metricsEnabled = (case vs_Metrics spec of None \<Rightarrow> True | Some m \<Rightarrow> m);
          annotations = (if metricsEnabled
                         then [(''prometheus.io/scrape'', ''true''),
                               (''prometheus.io/port'', string_of_int port),
                               (''prometheus.io/path'', ''/metrics'')]
                         else []);
          probe = \<lparr>pb_Path = healthPath, pb_Port = ''http'', pb_InitialDelaySeconds = initialDelay,
                   pb_PeriodSeconds = period\<rparr>
      in \<lparr>dp_Meta = object_meta (deploymentName vm) (om_Namespace (vm_Meta vm)) labels,
          dp_Spec =
            \<lparr>ds_Replicas = replicas, ds_Selector = labels,
             ds_Template =
               \<lparr>pd_Labels = labels, pd_Annotations = annotations,
                pd_Containers =
                  [\<lparr>co_Name = ''inference'', co_Image = image, co_ImagePullPolicy = ''IfNotPresent'',
                    co_Ports = [\<lparr>cp_Name = ''http'', cp_ContainerPort = port, cp_Protocol = ''TCP''\<rparr>],
                    co_Env = env, co_Resources = resources, co_ReadinessProbe = probe,
                    co_LivenessProbe = probe\<rparr>]\<rparr>\<rparr>,
          dp_ReadyReplicas = 0, dp_Conditions = []\<rparr>)"

definition buildService :: "VoiceModel \<Rightarrow> Service" where
  "buildService vm =
     (let labels = labelsForVoiceModel vm;
          port = getPort vm
      in \<lparr>svc_Meta = object_meta (serviceName vm) (om_Namespace (vm_Meta vm)) labels,
          svc_Spec =
            \<lparr>ss_Type = ''ClusterIP'', ss_Selector = labels,
             ss_Ports = [\<lparr>sp_Name = ''http'', sp_Port = port, sp_TargetPort = ''http'', sp_Protocol = ''TCP''\<rparr>],
             ss_ClusterIP = ''''\<rparr>\<rparr>)"

subsection \<open>Reconciling\<close>

definition reconcileDelete :: "kenv \<Rightarrow> VoiceModel \<Rightarrow> kworld \<Rightarrow> (goerror + ctrl_result) \<times> kworld" where
  "reconcileDelete K vm w =
     (let vm1 = vm\<lparr>vm_Meta := (vm_Meta vm)\<lparr>om_Finalizers :=
                  ke_remove_finalizer K (om_Finalizers (vm_Meta vm)) finalizerName\<rparr>\<rparr>;
          (res, w1) = update_voicemodel K vm1 w
      in case res of
           Inl err \<Rightarrow> (Inl (''removing finalizer: '' @ error_text err), w1)
         | Inr vm2 \<Rightarrow> (Inr None, w1))"

definition reconcileDeployment :: "kenv \<Rightarrow> VoiceModel \<Rightarrow> kworld \<Rightarrow> goerror option \<times> kworld" where
  "reconcileDeployment K vm w =
     (let desired0 = buildDeployment vm
      in case ke_set_owner K (vm_Meta vm) (dp_Meta desired0) of
           Inl err \<Rightarrow> (Some (''setting owner reference: '' @ err), w)
         | Inr meta \<Rightarrow>
             (let desired = desired0\<lparr>dp_Meta := meta\<rparr>;
                  (res, w1) = get_deployment K (om_Namespace (vm_Meta vm)) (deploymentName vm) w
              in case res of
                   Inl err \<Rightarrow>
                     if IsNotFound err
                     then (let (werr, w2) = kube_write K (CreateDeployment desired) w1
                           in (map_option error_text werr, w2))
                     else (Some (''fetching Deployment: '' @ error_text err), w1)
                 | Inr existing \<Rightarrow>
                     (let (werr, w2) = kube_write K (UpdateDeployment (existing\<lparr>dp_Spec := dp_Spec desired\<rparr>)) w1
                      in (map_option error_text werr, w2))))"

definition reconcileService :: "kenv \<Rightarrow> VoiceModel \<Rightarrow> kworld \<Rightarrow> goerror option \<times> kworld" where
  "reconcileService K vm w =
     (let desired0 = buildService vm
      in case ke_set_owner K (vm_Meta vm) (svc_Meta desired0) of
           Inl err \<Rightarrow> (Some (''setting owner reference: '' @ err), w)
         | Inr meta \<Rightarrow>
             (let desired = desired0\<lparr>svc_Meta := meta\<rparr>;
                  (res, w1) = get_service K (om_Namespace (vm_Meta vm)) (serviceName vm) w
              in case res of
                   Inl err \<Rightarrow>
                     if IsNotFound err
                     then (let (werr, w2) = kube_write K (CreateService desired) w1
                           in (map_option error_text werr, w2))
                     else (Some (''fetching Service: '' @ error_text err), w1)
                 | Inr existing \<Rightarrow>
                     (let spec = (svc_Spec desired)\<lparr>ss_ClusterIP := ss_ClusterIP (svc_Spec existing)\<rparr>;
                          (werr, w2) = kube_write K (UpdateService (existing\<lparr>svc_Spec := spec\<rparr>)) w1
                      in (map_option error_text werr, w2))))"

definition vm_with_phase :: "string \<Rightarrow> VoiceModelPhase \<Rightarrow> instant \<Rightarrow> VoiceModel \<Rightarrow> VoiceModel" where
  "vm_with_phase message phase now vm =
     (let st = vm_Status vm;
          st1 = (if vt_Phase st \<noteq> phase then st\<lparr>vt_LastTransitionTime := Some now\<rparr> else st)
      in vm\<lparr>vm_Status := st1\<lparr>vt_Phase := phase, vt_Message := message\<rparr>\<rparr>)"

definition setPhase ::
    "kenv \<Rightarrow> VoiceModel \<Rightarrow> VoiceModelPhase \<Rightarrow> string \<Rightarrow> kworld \<Rightarrow> (goerror + ctrl_result) \<times> kworld" where
  "setPhase K vm phase message w =
     (let (now, w1) = kube_now K w;
          vm1 = vm_with_phase message phase now vm;
          (werr, w2) = kube_write K (UpdateVoiceModelStatus vm1) w1
      in case werr of
           Some err \<Rightarrow> (Inl (''updating status: '' @ error_text err), w2)
         | None \<Rightarrow>
             (Inr (if phase \<noteq> PhaseReady \<and> phase \<noteq> PhaseFailed then Some requeue_delay else None), w2))"

definition replicas_message :: "int \<Rightarrow> int \<Rightarrow> string" where
  "replicas_message ready replicas = string_of_int ready @ ''/'' @ string_of_int replicas @ '' replicas ready''"

fun replica_failure :: "DeploymentCondition list \<Rightarrow> string option" where
  "replica_failure [] = None"
| "replica_failure (c # cs) =
     (if dc_Type c = ''ReplicaFailure'' \<and> dc_Status c = ''True'' then Some (dc_Message c)
      else replica_failure cs)"

definition endpoint_of :: "VoiceModel \<Rightarrow> string" where
  "endpoint_of vm =
     serviceName vm @ ''.'' @ om_Namespace (vm_Meta vm) @ ''.svc.cluster.local:'' @ string_of_int (getPort vm)"

definition updateStatus :: "kenv \<Rightarrow> VoiceModel \<Rightarrow> kworld \<Rightarrow> (goerror + ctrl_result) \<times> kworld" where
  "updateStatus K vm w =
     (let (res, w1) = get_deployment K (om_Namespace (vm_Meta vm)) (deploymentName vm) w
      in case res of
           Inl err \<Rightarrow> setPhase K vm PhaseDeploying ''waiting for Deployment'' w1
         | Inr deploy \<Rightarrow>
             (let ready = dp_ReadyReplicas deploy;
                  vm1 = vm\<lparr>vm_Status := (vm_Status vm)\<lparr>vt_ReadyReplicas := ready, vt_Endpoint := endpoint_of vm\<rparr>\<rparr>;
                  replicas = desired_replicas vm1
              in if replicas \<le> ready then setPhase K vm1 PhaseReady (replicas_message ready replicas) w1
                 else if 0 < ready then setPhase K vm1 PhaseDeploying (replicas_message ready replicas) w1
                 else (case replica_failure (dp_Conditions deploy) of
                         Some msg \<Rightarrow> setPhase K vm1 PhaseFailed msg w1
                       | None \<Rightarrow> setPhase K vm1 PhaseDeploying ''waiting for pods to be ready'' w1)))"

definition reconcile_voicemodel_steps :: "kenv \<Rightarrow> VoiceModel \<Rightarrow> kworld \<Rightarrow> (goerror + ctrl_result) \<times> kworld" where
  "reconcile_voicemodel_steps K vm w =
     (let (derr, w1) = reconcileDeployment K vm w
      in case derr of
           Some err \<Rightarrow> setPhase K vm PhaseFailed err w1
         | None \<Rightarrow>
             (let (serr, w2) = reconcileService K vm w1
              in case serr of
                   Some err \<Rightarrow> setPhase K vm PhaseFailed err w2
                 | None \<Rightarrow> updateStatus K vm w2))"

definition VoiceModel_Reconcile :: "kenv \<Rightarrow> reconcile_request \<Rightarrow> kworld \<Rightarrow> (goerror + ctrl_result) \<times> kworld" where
  "VoiceModel_Reconcile K req w =
     (let (res, w1) = get_voicemodel K (fst req) (snd req) w
      in case res of
           Inl err \<Rightarrow>
             if IsNotFound err then (Inr None, w1)
             else (Inl (''fetching VoiceModel: '' @ error_text err), w1)
         | Inr vm \<Rightarrow>
             if om_DeletionTimestamp (vm_Meta vm) \<noteq> None then reconcileDelete K vm w1
             else if \<not> ke_has_finalizer K (om_Finalizers (vm_Meta vm)) finalizerName then
               (let vm1 = vm\<lparr>vm_Meta := (vm_Meta vm)\<lparr>om_Finalizers :=
                            ke_add_finalizer K (om_Finalizers (vm_Meta vm)) finalizerName\<rparr>\<rparr>;
                    (ures, w2) = update_voicemodel K vm1 w1
                in case ures of
                     Inl err \<Rightarrow> (Inl (''adding finalizer: '' @ error_text err), w2)
                   | Inr vm2 \<Rightarrow> reconcile_voicemodel_steps K vm2 w2)
             else reconcile_voicemodel_steps K vm w1)"

interpretation voicemodel_status: status_setter
  "\<lambda>vm. vt_Phase (vm_Status vm)" "\<lambda>vm. vt_LastTransitionTime (vm_Status vm)" vm_with_phase
  by unfold_locales (simp_all add: vm_with_phase_def Let_def)


subsection \<open>What a reconciliation writes\<close>

fun deployment_specs :: "api_call list \<Rightarrow> DeploymentSpec list" where
  "deployment_specs [] = []"
| "deployment_specs (CreateDeployment d # cs) = dp_Spec d # deployment_specs cs"
| "deployment_specs (UpdateDeployment d # cs) = dp_Spec d # deployment_specs cs"
| "deployment_specs (_ # cs) = deployment_specs cs"

fun service_specs :: "api_call list \<Rightarrow> ServiceSpec list" where
  "service_specs [] = []"
| "service_specs (CreateService s # cs) = svc_Spec s # service_specs cs"
| "service_specs (UpdateService s # cs) = svc_Spec s # service_specs cs"
| "service_specs (_ # cs) = service_specs cs"

lemma deployment_specs_append [simp]:
  "deployment_specs (xs @ ys) = deployment_specs xs @ deployment_specs ys"
  by (induction xs rule: deployment_specs.induct) simp_all

lemma service_specs_append [simp]:
  "service_specs (xs @ ys) = service_specs xs @ service_specs ys"
  by (induction xs rule: service_specs.induct) simp_all

lemma reconcileDeployment_writes:
  assumes "reconcileDeployment K vm w = (err, w')"
  shows "\<exists>cs. kw_calls w' = kw_calls w @ cs \<and> kw_clock w' = kw_clock w \<and> service_specs cs = [] \<and>
    set (deployment_specs cs) \<subseteq> {dp_Spec (buildDeployment vm)} \<and>
    (err = None \<longrightarrow> deployment_specs cs = [dp_Spec (buildDeployment vm)])"
  using assms
  by (auto simp: reconcileDeployment_def world_defs Let_def split: sum.splits if_splits)

definition same_service_spec :: "ServiceSpec \<Rightarrow> ServiceSpec \<Rightarrow> bool" where
  "same_service_spec a b \<longleftrightarrow> a\<lparr>ss_ClusterIP := ''''\<rparr> = b\<lparr>ss_ClusterIP := ''''\<rparr>"

lemma reconcileService_writes:
  assumes "reconcileService K vm w = (err, w')"
  shows "\<exists>cs. kw_calls w' = kw_calls w @ cs \<and> kw_clock w' = kw_clock w \<and> deployment_specs cs = [] \<and>
    (\<forall>s \<in> set (service_specs cs). same_service_spec s (svc_Spec (buildService vm))) \<and>
    (err = None \<longrightarrow> length (service_specs cs) = 1)"
  using assms
  by (auto simp: reconcileService_def world_defs same_service_spec_def Let_def split: sum.splits if_splits)


lemma setPhase_report:
  assumes "setPhase K vm phase msg w = (res, w')"
  shows "kw_calls w' = kw_calls w @ [UpdateVoiceModelStatus (vm_with_phase msg phase (ke_clk K (kw_clock w)) vm)]"
    and "res = Inr r \<Longrightarrow> r = (if phase = PhaseReady \<or> phase = PhaseFailed then None else Some requeue_delay)"
  using assms by (auto simp: setPhase_def world_defs Let_def split: option.splits if_splits)

text \<open>\<open>reports K vm now result cs st\<close>: the calls \<open>cs\<close> end with the status \<open>st\<close>, a status for
  the phase and the transition time of \<open>vm\<close>, and the reconciliation asks for the timer exactly
  when the phase is not final.\<close>

definition reports :: "VoiceModel \<Rightarrow> instant \<Rightarrow> goerror + ctrl_result \<Rightarrow> VoiceModelStatus \<Rightarrow> bool" where
  "reports vm now res st \<longleftrightarrow>
     vt_LastTransitionTime st =
       (if vt_Phase (vm_Status vm) \<noteq> vt_Phase st then Some now else vt_LastTransitionTime (vm_Status vm)) \<and>
     (\<forall>r. res = Inr r \<longrightarrow>
        r = (if vt_Phase st = PhaseReady \<or> vt_Phase st = PhaseFailed then None else Some requeue_delay))"

lemma setPhase_reports:
  assumes "setPhase K vm1 phase msg w = (res, w')"
    and "vm1 = vm\<lparr>vm_Status := st1\<rparr>" and "vt_Phase st1 = vt_Phase (vm_Status vm)"
    and "vt_LastTransitionTime st1 = vt_LastTransitionTime (vm_Status vm)"
  shows "\<exists>st. kw_calls w' = kw_calls w @ [UpdateVoiceModelStatus (vm\<lparr>vm_Status := st\<rparr>)] \<and>
    reports vm (ke_clk K (kw_clock w)) res st \<and> vt_Phase st = phase \<and>
    vt_ReadyReplicas st = vt_ReadyReplicas st1 \<and> vt_Endpoint st = vt_Endpoint st1"
proof -
  let ?st = "vm_Status (vm_with_phase msg phase (ke_clk K (kw_clock w)) vm1)"
  have "vm_with_phase msg phase (ke_clk K (kw_clock w)) vm1 = vm\<lparr>vm_Status := ?st\<rparr>"
    unfolding assms(2) by (simp add: vm_with_phase_def Let_def)
  moreover have "vt_Phase ?st = phase" "vt_ReadyReplicas ?st = vt_ReadyReplicas st1"
    "vt_Endpoint ?st = vt_Endpoint st1"
    "vt_LastTransitionTime ?st =
       (if vt_Phase (vm_Status vm) \<noteq> phase then Some (ke_clk K (kw_clock w)) else vt_LastTransitionTime (vm_Status vm))"
    using assms(3,4) unfolding assms(2) by (simp_all add: vm_with_phase_def Let_def)
  ultimately show ?thesis
    using setPhase_report [OF assms(1)] by (intro exI [of _ ?st]) (auto simp: reports_def)
qed

text \<open>A status \<open>Ready\<close> is backed by a Deployment the API server returned.\<close>

definition backed :: "kenv \<Rightarrow> VoiceModel \<Rightarrow> VoiceModelStatus \<Rightarrow> bool" where
  "backed K vm st \<longleftrightarrow> (\<exists>n d. ke_get_deployment K n (om_Namespace (vm_Meta vm)) (deploymentName vm) = Inr d \<and>
     desired_replicas vm \<le> dp_ReadyReplicas d \<and> vt_ReadyReplicas st = dp_ReadyReplicas d \<and>
     vt_Endpoint st = endpoint_of vm)"

lemma status_self: "vm = vm\<lparr>vm_Status := vm_Status vm\<rparr>"
  by simp

lemma updateStatus_reports:
  assumes "updateStatus K vm w = (res, w')"
  shows "\<exists>st c. kw_calls w' = kw_calls w @ [c, UpdateVoiceModelStatus (vm\<lparr>vm_Status := st\<rparr>)] \<and>
    deployment_specs [c] = [] \<and> service_specs [c] = [] \<and>
    reports vm (ke_clk K (kw_clock w)) res st \<and> (vt_Phase st = PhaseReady \<longrightarrow> backed K vm st)"
proof -
  let ?w1 = "record_call (GetDeployment (om_Namespace (vm_Meta vm)) (deploymentName vm)) w"
  show ?thesis
  proof (cases "ke_get_deployment K (call_no w) (om_Namespace (vm_Meta vm)) (deploymentName vm)")
    case (Inl err)
    with assms have "setPhase K vm PhaseDeploying ''waiting for Deployment'' ?w1 = (res, w')"
      by (simp add: updateStatus_def get_deployment_def)
    from setPhase_reports [OF this status_self refl refl] obtain st where
      "kw_calls w' = kw_calls ?w1 @ [UpdateVoiceModelStatus (vm\<lparr>vm_Status := st\<rparr>)]"
      "reports vm (ke_clk K (kw_clock ?w1)) res st" "vt_Phase st = PhaseDeploying" by blast
    then show ?thesis
      by (intro exI [of _ st] exI [of _ "GetDeployment (om_Namespace (vm_Meta vm)) (deploymentName vm)"])
         (simp add: record_call_def status_defs)
  next
    case (Inr d)
    let ?st1 = "(vm_Status vm)\<lparr>vt_ReadyReplicas := dp_ReadyReplicas d, vt_Endpoint := endpoint_of vm\<rparr>"
    obtain phase msg where p: "setPhase K (vm\<lparr>vm_Status := ?st1\<rparr>) phase msg ?w1 = (res, w')"
      and ready: "phase = PhaseReady \<Longrightarrow> desired_replicas vm \<le> dp_ReadyReplicas d"
      using assms Inr
      by (auto simp: updateStatus_def get_deployment_def desired_replicas_def status_defs Let_def
          split: if_splits option.splits)
    from setPhase_reports [OF p, of ?st1 vm] obtain st where
      "kw_calls w' = kw_calls ?w1 @ [UpdateVoiceModelStatus (vm\<lparr>vm_Status := st\<rparr>)]"
      "reports vm (ke_clk K (kw_clock ?w1)) res st" "vt_Phase st = phase"
      "vt_ReadyReplicas st = dp_ReadyReplicas d" "vt_Endpoint st = endpoint_of vm" by auto
    with ready Inr show ?thesis
      by (intro exI [of _ st] exI [of _ "GetDeployment (om_Namespace (vm_Meta vm)) (deploymentName vm)"])
         (auto simp: record_call_def backed_def)
  qed
qed

lemma reconcile_steps_report:
  assumes "reconcile_voicemodel_steps K vm w = (res, w')"
  shows "\<exists>cs st. kw_calls w' = kw_calls w @ cs @ [UpdateVoiceModelStatus (vm\<lparr>vm_Status := st\<rparr>)] \<and>
    reports vm (ke_clk K (kw_clock w)) res st \<and> (vt_Phase st = PhaseReady \<longrightarrow> backed K vm st) \<and>
    set (deployment_specs cs) \<subseteq> {dp_Spec (buildDeployment vm)} \<and>
    (\<forall>s \<in> set (service_specs cs). same_service_spec s (svc_Spec (buildService vm))) \<and>
    (vt_Phase st = PhaseFailed \<or> deployment_specs cs \<noteq> [] \<and> service_specs cs \<noteq> [])"
proof -
  obtain derr w1 where d: "reconcileDeployment K vm w = (derr, w1)" by fastforce
  obtain cs1 where cs1: "kw_calls w1 = kw_calls w @ cs1" "kw_clock w1 = kw_clock w" "service_specs cs1 = []"
    "set (deployment_specs cs1) \<subseteq> {dp_Spec (buildDeployment vm)}"
    "derr = None \<longrightarrow> deployment_specs cs1 = [dp_Spec (buildDeployment vm)]"
    using reconcileDeployment_writes [OF d] by blast
  show ?thesis
  proof (cases derr)
    case (Some err)
    with assms d have "setPhase K vm PhaseFailed err w1 = (res, w')"
      by (simp add: reconcile_voicemodel_steps_def)
    from setPhase_reports [OF this status_self refl refl] obtain st where
      "kw_calls w' = kw_calls w1 @ [UpdateVoiceModelStatus (vm\<lparr>vm_Status := st\<rparr>)]"
      "reports vm (ke_clk K (kw_clock w1)) res st" "vt_Phase st = PhaseFailed" by blast
    with cs1 show ?thesis
      by (intro exI [of _ cs1] exI [of _ st]) (simp add: status_defs)
  next
    case None
    obtain serr w2 where s: "reconcileService K vm w1 = (serr, w2)" by fastforce
    obtain cs2 where cs2: "kw_calls w2 = kw_calls w1 @ cs2" "kw_clock w2 = kw_clock w1" "deployment_specs cs2 = []"
      "\<forall>s \<in> set (service_specs cs2). same_service_spec s (svc_Spec (buildService vm))"
      "serr = None \<longrightarrow> length (service_specs cs2) = 1"
      using reconcileService_writes [OF s] by blast
    show ?thesis
    proof (cases serr)
      case (Some err)
      with assms d s None have "setPhase K vm PhaseFailed err w2 = (res, w')"
        by (simp add: reconcile_voicemodel_steps_def)
      from setPhase_reports [OF this status_self refl refl] obtain st where
        "kw_calls w' = kw_calls w2 @ [UpdateVoiceModelStatus (vm\<lparr>vm_Status := st\<rparr>)]"
        "reports vm (ke_clk K (kw_clock w2)) res st" "vt_Phase st = PhaseFailed" by blast
      with cs1 cs2 show ?thesis
        by (intro exI [of _ "cs1 @ cs2"] exI [of _ st]) (simp add: status_defs)
    next
      case None2: None
      with assms d s None have "updateStatus K vm w2 = (res, w')"
        by (simp add: reconcile_voicemodel_steps_def)
      from updateStatus_reports [OF this] obtain st c where
        "kw_calls w' = kw_calls w2 @ [c, UpdateVoiceModelStatus (vm\<lparr>vm_Status := st\<rparr>)]"
        "deployment_specs [c] = []" "service_specs [c] = []"
        "reports vm (ke_clk K (kw_clock w2)) res st" "vt_Phase st = PhaseReady \<longrightarrow> backed K vm st" by blast
      with cs1 cs2 None None2 show ?thesis
        by (intro exI [of _ "cs1 @ cs2 @ [c]"] exI [of _ st]) auto
    qed
  qed
qed


subsection \<open>Properties\<close>

text \<open>What the finalizer helpers of controller-runtime document.\<close>

definition finalizer_laws :: "kenv \<Rightarrow> bool" where
  "finalizer_laws K \<longleftrightarrow> (\<forall>fs f g.
     ke_has_finalizer K (ke_add_finalizer K fs f) f \<and> \<not> ke_has_finalizer K (ke_remove_finalizer K fs f) f \<and>
     (g \<noteq> f \<longrightarrow> ke_has_finalizer K (ke_remove_finalizer K fs f) g = ke_has_finalizer K fs g))"

definition resolve_port :: "string \<Rightarrow> Container list \<Rightarrow> int option" where
  "resolve_port name cs =
     map_of (map (\<lambda>p. (cp_Name p, cp_ContainerPort p)) (concat (map co_Ports cs))) name"

definition selects :: "(string \<times> string) list \<Rightarrow> (string \<times> string) list \<Rightarrow> bool" where
  "selects selector labels \<longleftrightarrow> list_all (\<lambda>(k, v). map_of labels k = Some v) selector"

text \<open>C23: the objects built for a VoiceModel fit together. The Deployment's selector and the
  Service's selector both match the pods of the template; the Service's target port and both
  probes name a port of the pod's container, which is the port the Service exposes; and the
  endpoint published in the status is the Service's name, the namespace and that port.\<close>

theorem voicemodel_objects_fit:
  "let d = buildDeployment vm; s = buildService vm; pods = ds_Template (dp_Spec d); cs = pd_Containers pods
   in selects (ds_Selector (dp_Spec d)) (pd_Labels pods) \<and> selects (ss_Selector (svc_Spec s)) (pd_Labels pods) \<and>
      list_all (\<lambda>p. resolve_port (sp_TargetPort p) cs = Some (sp_Port p)) (ss_Ports (svc_Spec s)) \<and>
      list_all (\<lambda>c. resolve_port (pb_Port (co_ReadinessProbe c)) cs = Some (getPort vm) \<and>
                    resolve_port (pb_Port (co_LivenessProbe c)) cs = Some (getPort vm)) cs \<and>
      om_Namespace (dp_Meta d) = om_Namespace (svc_Meta s) \<and>
      (\<exists>p. ss_Ports (svc_Spec s) = [p] \<and> 0 < sp_Port p \<and>
         endpoint_of vm = om_Name (svc_Meta s) @ ''.'' @ om_Namespace (svc_Meta s) @ ''.svc.cluster.local:'' @
           string_of_int (sp_Port p))"
  by (simp add: buildDeployment_def buildService_def labelsForVoiceModel_def selects_def resolve_port_def
      endpoint_of_def serviceName_def object_meta_def getPort_def Let_def)


text \<open>C16: nothing is deployed for a VoiceModel that could not be cleaned up. If a reconciliation
  writes a Deployment or a Service, the VoiceModel it fetched was not being deleted, and it had the
  operator's finalizer or the API server accepted an update that adds it before those writes.\<close>

theorem VoiceModel_finalizer_first:
  assumes "VoiceModel_Reconcile K (ns, name) w = (res, w')" and "finalizer_laws K"
    and "kw_calls w' = kw_calls w @ cs" and "deployment_specs cs \<noteq> [] \<or> service_specs cs \<noteq> []"
  shows "\<exists>vm. ke_get_voicemodel K (call_no w) ns name = Inr vm \<and> om_DeletionTimestamp (vm_Meta vm) = None \<and>
    (ke_has_finalizer K (om_Finalizers (vm_Meta vm)) finalizerName \<or>
     (\<exists>vm1 vm2. take 2 cs = [GetVoiceModel ns name, UpdateVoiceModel vm1] \<and>
        ke_has_finalizer K (om_Finalizers (vm_Meta vm1)) finalizerName \<and>
        ke_update_voicemodel K (Suc (call_no w)) vm1 = Inr vm2))"
proof -
  let ?w1 = "record_call (GetVoiceModel ns name) w"
  obtain vm where g: "ke_get_voicemodel K (call_no w) ns name = Inr vm"
    using assms(1,3,4)
    by (cases "ke_get_voicemodel K (call_no w) ns name")
       (auto simp: VoiceModel_Reconcile_def get_voicemodel_def record_call_def split: if_splits)
  have live: "om_DeletionTimestamp (vm_Meta vm) = None"
    using assms(1,3,4) g
    by (auto simp: VoiceModel_Reconcile_def get_voicemodel_def reconcileDelete_def update_voicemodel_def
        record_call_def Let_def split: if_splits sum.splits)
  show ?thesis
  proof (cases "ke_has_finalizer K (om_Finalizers (vm_Meta vm)) finalizerName")
    case True
    with g live show ?thesis by blast
  next
    case False
    let ?vm1 = "vm\<lparr>vm_Meta := (vm_Meta vm)\<lparr>om_Finalizers := ke_add_finalizer K (om_Finalizers (vm_Meta vm)) finalizerName\<rparr>\<rparr>"
    let ?w2 = "record_call (UpdateVoiceModel ?vm1) ?w1"
    have c1: "call_no ?w1 = Suc (call_no w)" by (simp add: call_no_def record_call_def)
    show ?thesis
    proof (cases "ke_update_voicemodel K (Suc (call_no w)) ?vm1")
      case (Inl err)
      with assms(1,3,4) g live False c1 show ?thesis
        by (auto simp: VoiceModel_Reconcile_def get_voicemodel_def update_voicemodel_def record_call_def Let_def)
    next
      case (Inr vm2)
      with assms(1) g live False c1 have "reconcile_voicemodel_steps K vm2 ?w2 = (res, w')"
        by (simp add: VoiceModel_Reconcile_def get_voicemodel_def update_voicemodel_def Let_def)
      from reconcile_steps_report [OF this] obtain cs' x where "kw_calls w' = kw_calls ?w2 @ cs' @ [x]" by blast
      with assms(3) have "take 2 cs = [GetVoiceModel ns name, UpdateVoiceModel ?vm1]"
        by (auto simp: record_call_def)
      moreover have "ke_has_finalizer K (om_Finalizers (vm_Meta ?vm1)) finalizerName"
        using assms(2) by (simp add: finalizer_laws_def)
      ultimately show ?thesis using g live Inr by blast
    qed
  qed
qed


text \<open>The transition time records when the phase last changed: however often a phase the model
  already has is reported again, with whatever messages and at whatever times, it does not move.\<close>

lemma vm_transition_time_stable:
  assumes "vt_Phase (vm_Status vm) = phase"
  shows "vt_LastTransitionTime (vm_Status
      (fold (\<lambda>(message, now) y. vm_with_phase message phase now y) reports_made vm)) =
    vt_LastTransitionTime (vm_Status vm)"
  by (rule voicemodel_status.stable) (rule assms)


definition example_vm_env :: "VoiceModel \<Rightarrow> kenv" where
  "example_vm_env vm =
     example_kenv [vm] [(buildDeployment vm)\<lparr>dp_ReadyReplicas := 1\<rparr>] [] [] []"

lemma example_vm_get:
  "om_Namespace (vm_Meta vm) = ''vox'' \<Longrightarrow> om_Name (vm_Meta vm) = ''whisper'' \<Longrightarrow>
   ke_get_voicemodel (example_vm_env vm) n ''vox'' ''whisper'' = Inr vm"
  by (simp add: example_vm_env_def example_kenv_def find_named_def)

lemma example_finalizer_laws: "finalizer_laws (example_kenv vms deps pipes runs wfs)"
  by (auto simp: finalizer_laws_def example_kenv_def)


text \<open>In that environment a first reconciliation adds the finalizer, writes both objects and reports
  the phase.\<close>

lemma example_vm_calls:
  "\<exists>res w' cs. VoiceModel_Reconcile (example_vm_env (example_voicemodel [] None)) (''vox'', ''whisper'') new_kworld = (res, w') \<and>
     kw_calls w' = cs \<and> length (deployment_specs cs) = 1 \<and> length (service_specs cs) = 1"
  by (simp add: VoiceModel_Reconcile_def example_vm_env_def example_kenv_def find_named_def
      example_voicemodel_def new_kworld_def world_defs reconcile_voicemodel_steps_def reconcileDeployment_def
      reconcileService_def updateStatus_def setPhase_def buildDeployment_def buildService_def object_meta_def
      deploymentName_def serviceName_def desired_replicas_def Let_def)

lemma example_vm_finalizers:
  "finalizer_laws (example_vm_env vm)"
  "ke_has_finalizer (example_vm_env vm) fs f \<longleftrightarrow> f \<in> set fs"
  by (simp_all add: example_vm_env_def example_finalizer_laws) (simp add: example_kenv_def)

theorem VoiceModel_finalizer_first_witness:
  "\<exists>res w' vm1. VoiceModel_Reconcile (example_vm_env (example_voicemodel [] None)) (''vox'', ''whisper'')
       new_kworld = (res, w') \<and>
     take 2 (kw_calls w') = [GetVoiceModel ''vox'' ''whisper'', UpdateVoiceModel vm1] \<and>
     finalizerName \<in> set (om_Finalizers (vm_Meta vm1))"
proof -
  let ?vm = "example_voicemodel [] None"
  obtain res w' cs where r: "VoiceModel_Reconcile (example_vm_env ?vm) (''vox'', ''whisper'') new_kworld = (res, w')"
    "kw_calls w' = cs" "deployment_specs cs \<noteq> []"
    using example_vm_calls by fastforce
  have "kw_calls w' = kw_calls new_kworld @ cs" using r(2) by (simp add: new_kworld_def)
  from VoiceModel_finalizer_first [OF r(1) example_vm_finalizers(1) this disjI1 [OF r(3)]]
  obtain vm where vm: "ke_get_voicemodel (example_vm_env ?vm) (call_no new_kworld) ''vox'' ''whisper'' = Inr vm"
    "finalizerName \<in> set (om_Finalizers (vm_Meta vm)) \<or>
     (\<exists>vm1. take 2 cs = [GetVoiceModel ''vox'' ''whisper'', UpdateVoiceModel vm1] \<and>
        finalizerName \<in> set (om_Finalizers (vm_Meta vm1)))"
    unfolding example_vm_finalizers by blast
  moreover have "vm = ?vm"
    using vm(1) example_vm_get [of ?vm "call_no new_kworld"] by (simp add: example_voicemodel_def)
  ultimately show ?thesis using r by (auto simp: example_voicemodel_def)
qed


end
