(* ===== verification/PipelineController.thy ===== *)
theory PipelineController
  imports Kube GoStrings
begin

section \<open>The InferencePipeline controller (operator/internal/controller/inferencepipeline_controller.go)\<close>

text \<open>
  A pipeline owns nothing: the controller looks up the VoiceModel of every enabled stage and
  projects what it finds into the pipeline's status. The watch on VoiceModels maps a changed model
  to the pipelines that refer to it.
\<close>

subsection \<open>One stage\<close>

definition msg_not_found :: string where "msg_not_found = ''VoiceModel not found''"

definition resolveStage :: "kenv \<Rightarrow> PipelineStage \<Rightarrow> string \<Rightarrow> kworld \<Rightarrow> PipelineStageStatus \<times> kworld" where
  "resolveStage K stage namespace w =
     (let status = \<lparr>pt_Name = ps_Name stage, pt_ModelRef = ps_Model stage, pt_Ready = False,
                    pt_Endpoint = '''', pt_Message = ''''\<rparr>;
          (res, w1) = get_voicemodel K namespace (ps_Model stage) w
      in case res of
           Inl err \<Rightarrow>
             if IsNotFound err then (status\<lparr>pt_Message := msg_not_found\<rparr>, w1)
             else (status\<lparr>pt_Message := ''error fetching VoiceModel: '' @ error_text err\<rparr>, w1)
         | Inr vm \<Rightarrow>
             if vt_Phase (vm_Status vm) = PhaseReady
             then (status\<lparr>pt_Ready := True, pt_Endpoint := vt_Endpoint (vm_Status vm), pt_Message := ''ready''\<rparr>, w1)
             else (let phase = (if vt_Phase (vm_Status vm) = '''' then ''Pending'' else vt_Phase (vm_Status vm))
                   in (status\<lparr>pt_Message := ''VoiceModel phase: '' @ phase\<rparr>, w1)))"

subsection \<open>All stages\<close>

definition stage_enabled :: "PipelineStage \<Rightarrow> bool" where
  "stage_enabled stage = (case ps_Enabled stage of None \<Rightarrow> True | Some e \<Rightarrow> e)"

definition disabled_status :: "PipelineStage \<Rightarrow> PipelineStageStatus" where
  "disabled_status stage =
     \<lparr>pt_Name = ps_Name stage, pt_ModelRef = ps_Model stage, pt_Ready = False, pt_Endpoint = '''',
      pt_Message = ''stage disabled''\<rparr>"

text \<open>The loop over the stages with its four variables.\<close>

fun stage_loop ::
    "kenv \<Rightarrow> string \<Rightarrow> PipelineStage list \<Rightarrow> PipelineStageStatus list \<times> nat \<times> nat \<times> bool \<times> kworld \<Rightarrow>
     PipelineStageStatus list \<times> nat \<times> nat \<times> bool \<times> kworld" where
  "stage_loop K namespace [] acc = acc"
| "stage_loop K namespace (stage # stages) (stageStatuses, readyCount, enabledCount, hasMissing, w) =
     (if \<not> stage_enabled stage
      then stage_loop K namespace stages
             (stageStatuses @ [disabled_status stage], readyCount, enabledCount, hasMissing, w)
      else
        (let (status, w1) = resolveStage K stage namespace w
         in stage_loop K namespace stages
              (stageStatuses @ [status],
               if pt_Ready status then readyCount + 1 else readyCount,
               enabledCount + 1,
               if pt_Message status = msg_not_found then True else hasMissing,
               w1)))"

definition stages_ready_message :: "nat \<Rightarrow> nat \<Rightarrow> string" where
  "stages_ready_message ready enabled = string_of_nat ready @ ''/'' @ string_of_nat enabled @ '' stages ready''"

definition aggregate_phase :: "nat \<Rightarrow> nat \<Rightarrow> bool \<Rightarrow> InferencePipelinePhase \<times> string" where
  "aggregate_phase readyCount enabledCount hasMissing =
     (if hasMissing then (PipelinePhaseFailed, ''one or more referenced VoiceModels do not exist'')
      else if enabledCount = 0 then (PipelinePhaseReady, ''no enabled stages'')
      else if readyCount = enabledCount then (PipelinePhaseReady, stages_ready_message readyCount enabledCount)
      else if 0 < readyCount then (PipelinePhaseDegraded, stages_ready_message readyCount enabledCount)
      else (PipelinePhaseValidating,
            ''0/'' @ string_of_nat enabledCount @ '' stages ready, waiting for VoiceModels''))"

definition pipeline_with_status ::
    "string \<times> PipelineStageStatus list \<Rightarrow> InferencePipelinePhase \<Rightarrow> instant \<Rightarrow> InferencePipeline \<Rightarrow> InferencePipeline" where
  "pipeline_with_status ms phase now p =
     (let st = ip_Status p;
          st1 = (if is_Phase st \<noteq> phase then st\<lparr>is_LastTransitionTime := Some now\<rparr> else st)
      in p\<lparr>ip_Status := st1\<lparr>is_Phase := phase, is_Message := fst ms, is_Stages := snd ms\<rparr>\<rparr>)"

definition setPipelineStatus ::
    "kenv \<Rightarrow> InferencePipeline \<Rightarrow> InferencePipelinePhase \<Rightarrow> string \<Rightarrow> PipelineStageStatus list \<Rightarrow> kworld \<Rightarrow>
     (goerror + ctrl_result) \<times> kworld" where
  "setPipelineStatus K pipeline phase message stages w =
     (let (now, w1) = kube_now K w;
          p1 = pipeline_with_status (message, stages) phase now pipeline;
          (werr, w2) = kube_write K (UpdatePipelineStatus p1) w1
      in case werr of
           Some err \<Rightarrow> (Inl (''updating InferencePipeline status: '' @ error_text err), w2)
         | None \<Rightarrow>
             (Inr (if phase \<noteq> PipelinePhaseReady \<and> phase \<noteq> PipelinePhaseFailed then Some requeue_delay
                   else None), w2))"

definition reconcileStages :: "kenv \<Rightarrow> InferencePipeline \<Rightarrow> kworld \<Rightarrow> (goerror + ctrl_result) \<times> kworld" where
  "reconcileStages K pipeline w =
     (let (stageStatuses, readyCount, enabledCount, hasMissing, w1) =
            stage_loop K (om_Namespace (ip_Meta pipeline)) (ip_Stages pipeline) ([], 0, 0, False, w);
          (phase, message) = aggregate_phase readyCount enabledCount hasMissing
      in setPipelineStatus K pipeline phase message stageStatuses w1)"

definition InferencePipeline_Reconcile ::
    "kenv \<Rightarrow> reconcile_request \<Rightarrow> kworld \<Rightarrow> (goerror + ctrl_result) \<times> kworld" where
  "InferencePipeline_Reconcile K req w =
     (let (res, w1) = get_pipeline K (fst req) (snd req) w
      in case res of
           Inl err \<Rightarrow>
             if IsNotFound err then (Inr None, w1)
             else (Inl (''fetching InferencePipeline: '' @ error_text err), w1)
         | Inr pipeline \<Rightarrow>
             if om_DeletionTimestamp (ip_Meta pipeline) \<noteq> None then (Inr None, w1)
             else reconcileStages K pipeline w1)"

subsection \<open>From a VoiceModel to its pipelines\<close>

fun refers_to :: "string \<Rightarrow> PipelineStage list \<Rightarrow> bool" where
  "refers_to name [] = False"
| "refers_to name (stage # stages) = (if ps_Model stage = name then True else refers_to name stages)"

fun pipeline_requests :: "string \<Rightarrow> InferencePipeline list \<Rightarrow> reconcile_request list" where
  "pipeline_requests name [] = []"
| "pipeline_requests name (p # ps) =
     (if refers_to name (ip_Stages p)
      then (om_Namespace (ip_Meta p), om_Name (ip_Meta p)) # pipeline_requests name ps
      else pipeline_requests name ps)"

definition mapVoiceModelToPipelines :: "kenv \<Rightarrow> VoiceModel \<Rightarrow> kworld \<Rightarrow> reconcile_request list \<times> kworld" where
  "mapVoiceModelToPipelines K vm w =
     (let (res, w1) = list_pipelines K (om_Namespace (vm_Meta vm)) w
      in case res of
           Inl err \<Rightarrow> ([], w1)
         | Inr items \<Rightarrow> (pipeline_requests (om_Name (vm_Meta vm)) items, w1))"

interpretation pipeline_status: status_setter
  "\<lambda>p. is_Phase (ip_Status p)" "\<lambda>p. is_LastTransitionTime (ip_Status p)" pipeline_with_status
  by unfold_locales (simp_all add: pipeline_with_status_def Let_def)


subsection \<open>The loop\<close>

text \<open>What the loop sees of a stage when its lookup is the n-th call: the VoiceModel is missing, it
  is ready with an endpoint, or it is not ready (or cannot be fetched).\<close>

datatype lookup = Missing | Serving string | Waiting

definition stage_lookup :: "kenv \<Rightarrow> string \<Rightarrow> nat \<Rightarrow> PipelineStage \<Rightarrow> lookup" where
  "stage_lookup K namespace n stage =
     (case ke_get_voicemodel K n namespace (ps_Model stage) of
        Inl err \<Rightarrow> if IsNotFound err then Missing else Waiting
      | Inr vm \<Rightarrow> if vt_Phase (vm_Status vm) = PhaseReady then Serving (vt_Endpoint (vm_Status vm)) else Waiting)"

fun lookups :: "kenv \<Rightarrow> string \<Rightarrow> nat \<Rightarrow> PipelineStage list \<Rightarrow> lookup option list" where
  "lookups K namespace n [] = []"
| "lookups K namespace n (stage # stages) =
     (if stage_enabled stage then Some (stage_lookup K namespace n stage) # lookups K namespace (Suc n) stages
      else None # lookups K namespace n stages)"

lemma length_lookups [simp]: "length (lookups K namespace n stages) = length stages"
  by (induction stages arbitrary: n) auto

definition status_matches :: "PipelineStage \<Rightarrow> lookup option \<Rightarrow> PipelineStageStatus \<Rightarrow> bool" where
  "status_matches stage l st \<longleftrightarrow>
     pt_Name st = ps_Name stage \<and> pt_ModelRef st = ps_Model stage \<and>
     (case l of
        Some (Serving ep) \<Rightarrow> pt_Ready st \<and> pt_Endpoint st = ep
      | _ \<Rightarrow> \<not> pt_Ready st \<and> pt_Endpoint st = '''') \<and>
     (pt_Message st = msg_not_found \<longleftrightarrow> l = Some Missing)"

text \<open>The controller recognises a missing model by the text of the stage's message: no other message
  can be mistaken for it.\<close>

lemma resolveStage_spec:
  assumes "resolveStage K stage namespace w = (st, w')"
  shows "status_matches stage (Some (stage_lookup K namespace (call_no w) stage)) st"
    and "w' = record_call (GetVoiceModel namespace (ps_Model stage)) w"
  using assms
  by (auto simp: resolveStage_def get_voicemodel_def stage_lookup_def status_matches_def msg_not_found_def Let_def
      split: sum.splits if_splits)

definition serving :: "lookup option \<Rightarrow> bool" where
  "serving l \<longleftrightarrow> (\<exists>ep. l = Some (Serving ep))"

lemma serving_simps [simp]: "\<not> serving None" "serving (Some l) \<longleftrightarrow> (\<exists>ep. l = Serving ep)"
  by (auto simp: serving_def)

definition gets :: "string \<Rightarrow> PipelineStage list \<Rightarrow> api_call list" where
  "gets namespace stages = map (\<lambda>s. GetVoiceModel namespace (ps_Model s)) (filter stage_enabled stages)"

lemma stage_loop_spec:
  assumes "stage_loop K namespace stages (sts, r, e, m, w) = (sts', r', e', m', w')"
  shows "\<exists>new. sts' = sts @ new \<and>
      list_all2 (\<lambda>(stage, l) st. status_matches stage l st) (zip stages (lookups K namespace (call_no w) stages)) new \<and>
      r' = r + length (filter serving (lookups K namespace (call_no w) stages)) \<and>
      e' = e + length (filter (\<lambda>l. l \<noteq> None) (lookups K namespace (call_no w) stages)) \<and>
      m' = (m \<or> Some Missing \<in> set (lookups K namespace (call_no w) stages)) \<and>
      w' = w\<lparr>kw_calls := kw_calls w @ gets namespace stages\<rparr>"
  using assms
proof (induction stages arbitrary: sts r e m w)
  case Nil
  then show ?case by (simp add: gets_def)
next
  case (Cons stage stages)
  show ?case
  proof (cases "stage_enabled stage")
    case False
    with Cons.prems have "stage_loop K namespace stages (sts @ [disabled_status stage], r, e, m, w) = (sts', r', e', m', w')"
      by simp
    from Cons.IH [OF this] obtain new where new: "sts' = (sts @ [disabled_status stage]) @ new"
      "list_all2 (\<lambda>(stage, l) st. status_matches stage l st) (zip stages (lookups K namespace (call_no w) stages)) new"
      "r' = r + length (filter serving (lookups K namespace (call_no w) stages))"
      "e' = e + length (filter (\<lambda>l. l \<noteq> None) (lookups K namespace (call_no w) stages))"
      "m' = (m \<or> Some Missing \<in> set (lookups K namespace (call_no w) stages))"
      "w' = w\<lparr>kw_calls := kw_calls w @ gets namespace stages\<rparr>" by blast
    have "status_matches stage None (disabled_status stage)"
      by (simp add: status_matches_def disabled_status_def msg_not_found_def)
    with new False show ?thesis
      by (intro exI [of _ "disabled_status stage # new"]) (simp add: gets_def)
  next
    case True
    obtain st w1 where st: "resolveStage K stage namespace w = (st, w1)" by fastforce
    note spec = resolveStage_spec [OF st]
    have n: "call_no w1 = Suc (call_no w)" using spec(2) by (simp add: call_no_def record_call_def)
    from Cons.prems True st have "stage_loop K namespace stages
        (sts @ [st], if pt_Ready st then r + 1 else r, e + 1, if pt_Message st = msg_not_found then True else m, w1) =
        (sts', r', e', m', w')" by simp
    from Cons.IH [OF this] obtain new where new: "sts' = (sts @ [st]) @ new"
      "list_all2 (\<lambda>(stage, l) st. status_matches stage l st) (zip stages (lookups K namespace (call_no w1) stages)) new"
      "r' = (if pt_Ready st then r + 1 else r) + length (filter serving (lookups K namespace (call_no w1) stages))"
      "e' = e + 1 + length (filter (\<lambda>l. l \<noteq> None) (lookups K namespace (call_no w1) stages))"
      "m' = ((if pt_Message st = msg_not_found then True else m) \<or> Some Missing \<in> set (lookups K namespace (call_no w1) stages))"
      "w' = w1\<lparr>kw_calls := kw_calls w1 @ gets namespace stages\<rparr>" by blast
    have "pt_Ready st \<longleftrightarrow> serving (Some (stage_lookup K namespace (call_no w) stage))"
      "pt_Message st = msg_not_found \<longleftrightarrow> stage_lookup K namespace (call_no w) stage = Missing"
      using spec(1) by (auto simp: status_matches_def split: lookup.splits)
    with new True spec n show ?thesis
      by (intro exI [of _ "st # new"]) (auto simp: gets_def record_call_def)
  qed
qed


definition phase_of_lookups :: "lookup option list \<Rightarrow> InferencePipelinePhase" where
  "phase_of_lookups ls =
     (if Some Missing \<in> set ls then PipelinePhaseFailed
      else if list_all (\<lambda>l. l = None \<or> serving l) ls then PipelinePhaseReady
      else if list_ex serving ls then PipelinePhaseDegraded
      else PipelinePhaseValidating)"

lemma count_serving:
  "length (filter serving ls) = length (filter (\<lambda>l. l \<noteq> None) ls) \<longleftrightarrow> list_all (\<lambda>l. l = None \<or> serving l) ls"
proof (induction ls)
  case (Cons l ls)
  have "length (filter serving ls) \<le> length (filter (\<lambda>l. l \<noteq> None) ls)"
    by (induction ls) auto
  with Cons show ?case by (cases l) auto
qed simp

lemma count_none: "length (filter (\<lambda>l. l \<noteq> None) ls) = 0 \<Longrightarrow> list_all (\<lambda>l. l = None \<or> serving l) ls"
  by (auto simp: list_all_iff filter_empty_conv)

lemma count_some_serving: "0 < length (filter serving ls) \<longleftrightarrow> list_ex serving ls"
  by (induction ls) auto

lemma aggregate_phase_lookups:
  "fst (aggregate_phase (length (filter serving ls)) (length (filter (\<lambda>l. l \<noteq> None) ls)) (Some Missing \<in> set ls)) =
   phase_of_lookups ls"
  using count_serving [of ls] count_none [of ls] count_some_serving [of ls]
  by (auto simp: aggregate_phase_def phase_of_lookups_def)

lemma pipeline_reconcile_calls:
  assumes "InferencePipeline_Reconcile K (ns, name) w = (res, w')"
    and "ke_get_pipeline K (call_no w) ns name = Inr p" and "om_DeletionTimestamp (ip_Meta p) = None"
  shows "\<exists>st. kw_calls w' = kw_calls w @ [GetPipeline ns name] @ gets (om_Namespace (ip_Meta p)) (ip_Stages p) @
      [UpdatePipelineStatus (p\<lparr>ip_Status := st\<rparr>)] \<and>
    (let ls = lookups K (om_Namespace (ip_Meta p)) (Suc (call_no w)) (ip_Stages p)
     in is_Phase st = phase_of_lookups ls \<and>
        list_all2 (\<lambda>(stage, l) s. status_matches stage l s) (zip (ip_Stages p) ls) (is_Stages st)) \<and>
    is_LastTransitionTime st =
      (if is_Phase (ip_Status p) \<noteq> is_Phase st then Some (ke_clk K (kw_clock w)) else is_LastTransitionTime (ip_Status p)) \<and>
    (\<forall>r. res = Inr r \<longrightarrow> r =
      (if is_Phase st = PipelinePhaseReady \<or> is_Phase st = PipelinePhaseFailed then None else Some requeue_delay))"
proof -
  let ?w1 = "record_call (GetPipeline ns name) w" and ?ns = "om_Namespace (ip_Meta p)"
  have n: "call_no ?w1 = Suc (call_no w)" by (simp add: call_no_def record_call_def)
  obtain sts r e m w2 where l: "stage_loop K ?ns (ip_Stages p) ([], 0, 0, False, ?w1) = (sts, r, e, m, w2)"
    by (metis prod_cases5)
  let ?ls = "lookups K ?ns (Suc (call_no w)) (ip_Stages p)"
  note spec = stage_loop_spec [OF l, unfolded n]
  then have s: "list_all2 (\<lambda>(stage, l) st. status_matches stage l st) (zip (ip_Stages p) ?ls) sts"
    "r = length (filter serving ?ls)" "e = length (filter (\<lambda>l. l \<noteq> None) ?ls)" "m = (Some Missing \<in> set ?ls)"
    "kw_calls w2 = kw_calls w @ [GetPipeline ns name] @ gets ?ns (ip_Stages p)" "kw_clock w2 = kw_clock w"
    by (auto simp: record_call_def)
  obtain phase msg where a: "aggregate_phase r e m = (phase, msg)" by fastforce
  have ph: "phase = phase_of_lookups ?ls"
    using a s aggregate_phase_lookups [of ?ls] by simp
  have "setPipelineStatus K p phase msg sts w2 = (res, w')"
    using assms l a by (simp add: InferencePipeline_Reconcile_def reconcileStages_def get_pipeline_def)
  then have calls: "kw_calls w' = kw_calls w2 @ [UpdatePipelineStatus
      (pipeline_with_status (msg, sts) phase (ke_clk K (kw_clock w)) p)]"
    and res: "\<And>x. res = Inr x \<Longrightarrow>
      x = (if phase = PipelinePhaseReady \<or> phase = PipelinePhaseFailed then None else Some requeue_delay)"
    using s(6) by (auto simp: setPipelineStatus_def world_defs Let_def split: option.splits if_splits)
  let ?p1 = "pipeline_with_status (msg, sts) phase (ke_clk K (kw_clock w)) p"
  let ?st = "ip_Status ?p1"
  have "?p1 = p\<lparr>ip_Status := ?st\<rparr>" "is_Stages ?st = sts" "is_Phase ?st = phase"
    "is_LastTransitionTime ?st =
      (if is_Phase (ip_Status p) \<noteq> phase then Some (ke_clk K (kw_clock w)) else is_LastTransitionTime (ip_Status p))"
    by (simp_all add: pipeline_with_status_def Let_def)
  with calls res ph s show ?thesis
    by (intro exI [of _ ?st]) (auto simp: Let_def)
qed

subsection \<open>Properties\<close>

text \<open>C11: a pipeline's status is the projection of its models. The controller looks up the VoiceModel
  of each enabled stage, once, in order, and writes nothing but the pipeline's status. The status
  lists every stage in order with what was found: ready with the model's endpoint, or not ready.
  The phase is \<open>Failed\<close> when a model of an enabled stage does not exist, otherwise \<open>Ready\<close> when
  every enabled stage is ready, \<open>Degraded\<close> when some are and \<open>Validating\<close> when none is. The
  transition time moves exactly when the phase changes and a timer is asked for exactly when the
  phase is neither \<open>Ready\<close> nor \<open>Failed\<close>.\<close>

theorem InferencePipeline_Reconcile_projects:
  assumes "InferencePipeline_Reconcile K (ns, name) w = (res, w')"
    and "ke_get_pipeline K (call_no w) ns name = Inr p" and "om_DeletionTimestamp (ip_Meta p) = None"
  shows "\<exists>st. kw_calls w' = kw_calls w @ [GetPipeline ns name] @ gets (om_Namespace (ip_Meta p)) (ip_Stages p) @
      [UpdatePipelineStatus (p\<lparr>ip_Status := st\<rparr>)] \<and>
    (let ls = lookups K (om_Namespace (ip_Meta p)) (Suc (call_no w)) (ip_Stages p)
     in is_Phase st = phase_of_lookups ls \<and>
        list_all2 (\<lambda>(stage, l) s. status_matches stage l s) (zip (ip_Stages p) ls) (is_Stages st)) \<and>
    is_LastTransitionTime st =
      (if is_Phase (ip_Status p) \<noteq> is_Phase st then Some (ke_clk K (kw_clock w)) else is_LastTransitionTime (ip_Status p)) \<and>
    (\<forall>r. res = Inr r \<longrightarrow> r =
      (if is_Phase st = PipelinePhaseReady \<or> is_Phase st = PipelinePhaseFailed then None else Some requeue_delay))"
  using pipeline_reconcile_calls [OF assms] .

text \<open>C34: a changed VoiceModel wakes exactly its pipelines: the request list holds, once each and in
  list order, the pipelines of its namespace with a stage that names it.\<close>

theorem mapVoiceModelToPipelines_exact:
  assumes "ke_list_pipelines K (call_no w) (om_Namespace (vm_Meta vm)) = Inr items"
  shows "fst (mapVoiceModelToPipelines K vm w) =
    map (\<lambda>p. (om_Namespace (ip_Meta p), om_Name (ip_Meta p)))
      (filter (\<lambda>p. om_Name (vm_Meta vm) \<in> ps_Model ` set (ip_Stages p)) items)"
proof -
  have r: "refers_to name stages \<longleftrightarrow> name \<in> ps_Model ` set stages" for name stages
    by (induction stages) auto
  have "pipeline_requests name items = map (\<lambda>p. (om_Namespace (ip_Meta p), om_Name (ip_Meta p)))
      (filter (\<lambda>p. name \<in> ps_Model ` set (ip_Stages p)) items)" for name
    by (induction items) (auto simp: r)
  with assms show ?thesis
    by (simp add: mapVoiceModelToPipelines_def list_pipelines_def)
qed

definition example_pipeline :: InferencePipeline where
  "example_pipeline =
     \<lparr>ip_Meta = object_meta ''calls'' ''vox'' [],
      ip_Stages = [\<lparr>ps_Name = ''stt'', ps_Model = ''whisper'', ps_Enabled = None\<rparr>,
                   \<lparr>ps_Name = ''diarize'', ps_Model = ''gone'', ps_Enabled = Some False\<rparr>],
      ip_Status = \<lparr>is_Phase = '''', is_Stages = [], is_Message = '''', is_Conditions = [],
                   is_LastTransitionTime = None\<rparr>\<rparr>"

definition example_pipeline_kenv :: kenv where
  "example_pipeline_kenv =
     example_kenv [(example_voicemodel [] None)\<lparr>vm_Status := (vm_Status (example_voicemodel [] None))\<lparr>vt_Phase := PhaseReady\<rparr>\<rparr>]
       [] [example_pipeline] [] []"

theorem InferencePipeline_Reconcile_projects_witness:
  "\<exists>res w' st. InferencePipeline_Reconcile example_pipeline_kenv (''vox'', ''calls'') new_kworld = (res, w') \<and>
     kw_calls w' = [GetPipeline ''vox'' ''calls'', GetVoiceModel ''vox'' ''whisper'',
       UpdatePipelineStatus (example_pipeline\<lparr>ip_Status := st\<rparr>)] \<and> is_Phase st = PipelinePhaseReady"
proof -
  obtain res w' where r: "InferencePipeline_Reconcile example_pipeline_kenv (''vox'', ''calls'') new_kworld = (res, w')"
    by fastforce
  have g: "ke_get_pipeline example_pipeline_kenv (call_no new_kworld) ''vox'' ''calls'' = Inr example_pipeline"
    by (simp add: example_pipeline_kenv_def example_kenv_def find_named_def example_pipeline_def object_meta_def)
  have d: "om_DeletionTimestamp (ip_Meta example_pipeline) = None"
    by (simp add: example_pipeline_def object_meta_def)
  have ls: "lookups example_pipeline_kenv ''vox'' (Suc (call_no new_kworld)) (ip_Stages example_pipeline) =
      [Some (Serving ''''), None]"
    by (simp add: example_pipeline_def stage_enabled_def stage_lookup_def example_pipeline_kenv_def
        example_kenv_def find_named_def example_voicemodel_def)
  have m: "om_Namespace (ip_Meta example_pipeline) = ''vox''"
    "gets ''vox'' (ip_Stages example_pipeline) = [GetVoiceModel ''vox'' ''whisper'']"
    by (simp_all add: example_pipeline_def object_meta_def gets_def stage_enabled_def)
  from InferencePipeline_Reconcile_projects [OF r g d] obtain st where
    "kw_calls w' = [GetPipeline ''vox'' ''calls'', GetVoiceModel ''vox'' ''whisper'',
       UpdatePipelineStatus (example_pipeline\<lparr>ip_Status := st\<rparr>)]" "is_Phase st = PipelinePhaseReady"
    unfolding m ls Let_def by (auto simp: phase_of_lookups_def new_kworld_def)
  with r show ?thesis by blast
qed

theorem mapVoiceModelToPipelines_exact_witness:
  "fst (mapVoiceModelToPipelines example_pipeline_kenv (example_voicemodel [] None) new_kworld) = [(''vox'', ''calls'')]"
  using mapVoiceModelToPipelines_exact [of example_pipeline_kenv new_kworld "example_voicemodel [] None" "[example_pipeline]"]
  by (simp add: example_pipeline_kenv_def example_kenv_def example_voicemodel_def example_pipeline_def object_meta_def)

end
