(* ===== verification/EvalRunController.thy ===== *)
theory EvalRunController
  imports Kube GoStrings
begin

section \<open>The EvalRun controller (operator/internal/controller/evalrun_controller.go)\<close>

text \<open>
  An EvalRun submits one Argo Workflow and then mirrors its outcome. The report a finished workflow
  carries is JSON text in an output parameter.
\<close>

definition evalReportOutputParam :: string where "evalReportOutputParam = ''eval-report''"
definition reportPath :: string where "reportPath = ''/tmp/outputs/report.json''"

record evalReport =
  ep_Passed :: bool
  ep_CorpusWER :: rat
  ep_MeanWER :: rat
  ep_TotalSamples :: int

subsection \<open>The workflow\<close>

definition eval_threshold :: "EvalRun \<Rightarrow> string" where
  "eval_threshold er = (if es_WERThreshold (er_Spec er) = '''' then ''0.3'' else es_WERThreshold (er_Spec er))"

definition eval_args :: "EvalRun \<Rightarrow> string list" where
  "eval_args er =
     [''run'', es_Dataset (er_Spec er), ''--url'', es_GatewayURL (er_Spec er), ''--threshold'', eval_threshold er,
      ''--report-path'', reportPath] @
     (if es_Model (er_Spec er) \<noteq> '''' then [''--model'', es_Model (er_Spec er)] else [])"

definition buildWorkflow :: "EvalRun \<Rightarrow> Workflow" where
  "buildWorkflow er =
     (let timeoutSeconds = (case es_TimeoutSeconds (er_Spec er) of None \<Rightarrow> 600 | Some t \<Rightarrow> t)
      in \<lparr>wf_Meta = object_meta (om_Name (er_Meta er)) (om_Namespace (er_Meta er))
                      [(''vox.vox.io/evalrun'', om_Name (er_Meta er))],
          wf_Spec = JObj
            [(''entrypoint'', JStr ''eval''), (''activeDeadlineSeconds'', JInt timeoutSeconds),
             (''templates'', JArr [JObj
                [(''name'', JStr ''eval''),
                 (''container'', JObj [(''image'', JStr (es_Image (er_Spec er))),
                                       (''command'', JArr [JStr ''vox-eval'']),
                                       (''args'', JArr (map JStr (eval_args er)))]),
                 (''outputs'', JObj [(''parameters'', JArr [JObj
                    [(''name'', JStr evalReportOutputParam),
                     (''valueFrom'', JObj [(''path'', JStr reportPath)])]])])]])],
          wf_StatusPhase = '''', wf_OutputParameters = None\<rparr>)"

subsection \<open>The report\<close>

definition unmarshal_report :: "string \<Rightarrow> evalReport option" where
  "unmarshal_report value =
     (case json_unmarshal value of
        Inl err \<Rightarrow> None
      | Inr j \<Rightarrow>
          (let p = decode_field json_bool False ''passed'' j; c = decode_field json_float 0 ''corpus_wer'' j;
               m = decode_field json_float 0 ''mean_wer'' j; t = decode_field json_int32 0 ''total_samples'' j
           in if fst p \<and> fst c \<and> fst m \<and> fst t
              then Some \<lparr>ep_Passed = snd p, ep_CorpusWER = snd c, ep_MeanWER = snd m, ep_TotalSamples = snd t\<rparr>
              else None))"

definition string_entry :: "string \<Rightarrow> (string \<times> json) list \<Rightarrow> string option" where
  "string_entry k m = (case map_of m k of Some (JStr s) \<Rightarrow> Some s | _ \<Rightarrow> None)"

fun find_report :: "json list \<Rightarrow> evalReport option" where
  "find_report [] = None"
| "find_report (p # ps) =
     (case p of
        JObj param \<Rightarrow>
          if (case string_entry ''name'' param of Some name \<Rightarrow> name | None \<Rightarrow> '''') \<noteq> evalReportOutputParam
          then find_report ps
          else (case string_entry ''value'' param of
                  None \<Rightarrow> None
                | Some value \<Rightarrow> if value = '''' then None else unmarshal_report value)
      | _ \<Rightarrow> find_report ps)"

definition extractEvalReport :: "Workflow \<Rightarrow> evalReport option" where
  "extractEvalReport wk = (case wf_OutputParameters wk of None \<Rightarrow> None | Some params \<Rightarrow> find_report params)"

definition isTerminalWorkflowPhase :: "string \<Rightarrow> bool" where
  "isTerminalWorkflowPhase phase \<longleftrightarrow> phase = ''Succeeded'' \<or> phase = ''Failed'' \<or> phase = ''Error''"

definition orPending :: "string \<Rightarrow> string" where
  "orPending phase = (if phase = '''' then ''Pending'' else phase)"

subsection \<open>Reconciling\<close>

definition is_final :: "EvalRunPhase \<Rightarrow> bool" where
  "is_final phase \<longleftrightarrow> phase = EvalRunPhaseSucceeded \<or> phase = EvalRunPhaseFailed"

text \<open>The clock is read only when the phase becomes a final one.\<close>

definition setStatus ::
    "kenv \<Rightarrow> EvalRun \<Rightarrow> EvalRunPhase \<Rightarrow> string \<Rightarrow> string \<Rightarrow> kworld \<Rightarrow> (goerror + ctrl_result) \<times> kworld" where
  "setStatus K er phase workflowRef message w =
     (let (st, w1) =
            (if et_Phase (er_Status er) \<noteq> phase \<and> is_final phase
             then (let (now, w1) = kube_now K w in ((er_Status er)\<lparr>et_CompletionTime := Some now\<rparr>, w1))
             else (er_Status er, w));
          er1 = er\<lparr>er_Status := st\<lparr>et_Phase := phase, et_WorkflowRef := workflowRef, et_Message := message\<rparr>\<rparr>;
          (werr, w2) = kube_write K (UpdateEvalRunStatus er1) w1
      in case werr of
           Some err \<Rightarrow> (Inl (''updating EvalRun status: '' @ error_text err), w2)
         | None \<Rightarrow> (Inr (if phase = EvalRunPhaseRunning then Some requeue_delay else None), w2))"

definition submitWorkflow :: "kenv \<Rightarrow> EvalRun \<Rightarrow> kworld \<Rightarrow> (goerror + ctrl_result) \<times> kworld" where
  "submitWorkflow K er w =
     (let wk0 = buildWorkflow er
      in case ke_set_owner K (er_Meta er) (wf_Meta wk0) of
           Inl err \<Rightarrow> (Inl (''setting owner reference on Workflow: '' @ err), w)
         | Inr meta \<Rightarrow>
             (let wk = wk0\<lparr>wf_Meta := meta\<rparr>;
                  (werr, w1) = kube_write K (CreateWorkflow wk) w
              in case (case werr of Some err \<Rightarrow> if \<not> IsAlreadyExists err then Some err else None | None \<Rightarrow> None) of
                   Some err \<Rightarrow> (Inl (''creating Workflow: '' @ error_text err), w1)
                 | None \<Rightarrow>
                     (let (now, w2) = kube_now K w1;
                          er1 = er\<lparr>er_Status := (er_Status er)\<lparr>et_StartTime := Some now\<rparr>\<rparr>
                      in setStatus K er1 EvalRunPhaseRunning (om_Name (wf_Meta wk)) ''Workflow submitted'' w2)))"

definition outcome_of :: "EvalRun \<Rightarrow> evalReport \<Rightarrow> EvalRunPhase \<times> string" where
  "outcome_of er report =
     (if ep_Passed report
      then (EvalRunPhaseSucceeded, ''corpus WER '' @ format_f4 (ep_CorpusWER report) @ '' within threshold'')
      else (EvalRunPhaseFailed, ''corpus WER '' @ format_f4 (ep_CorpusWER report) @ '' exceeds threshold '' @
              es_WERThreshold (er_Spec er)))"

definition with_report :: "evalReport \<Rightarrow> EvalRun \<Rightarrow> EvalRun" where
  "with_report report er =
     er\<lparr>er_Status := (er_Status er)\<lparr>et_CorpusWER := format_f4 (ep_CorpusWER report),
          et_MeanWER := format_f4 (ep_MeanWER report), et_TotalSamples := ep_TotalSamples report,
          et_Passed := Some (ep_Passed report)\<rparr>\<rparr>"

definition reconcileWorkflow :: "kenv \<Rightarrow> EvalRun \<Rightarrow> kworld \<Rightarrow> (goerror + ctrl_result) \<times> kworld" where
  "reconcileWorkflow K er w =
     (let ref = et_WorkflowRef (er_Status er);
          (res, w1) = get_workflow K (om_Namespace (er_Meta er)) ref w
      in case res of
           Inl err \<Rightarrow>
             if IsNotFound err then setStatus K er EvalRunPhaseFailed ref ''Workflow no longer exists'' w1
             else (Inl (''fetching Workflow: '' @ error_text err), w1)
         | Inr wk \<Rightarrow>
             (let workflowPhase = wf_StatusPhase wk; name = om_Name (wf_Meta wk)
              in if \<not> isTerminalWorkflowPhase workflowPhase
                 then setStatus K er EvalRunPhaseRunning name (''Workflow phase: '' @ orPending workflowPhase) w1
                 else (case extractEvalReport wk of
                         None \<Rightarrow>
                           setStatus K er EvalRunPhaseFailed name
                             (''Workflow '' @ workflowPhase @ '' with no eval report produced (crashed before writing it?)'') w1
                       | Some report \<Rightarrow>
                           (let (phase, message) = outcome_of er report
                            in setStatus K (with_report report er) phase name message w1))))"

definition EvalRun_Reconcile :: "kenv \<Rightarrow> reconcile_request \<Rightarrow> kworld \<Rightarrow> (goerror + ctrl_result) \<times> kworld" where
  "EvalRun_Reconcile K req w =
     (let (res, w1) = get_evalrun K (fst req) (snd req) w
      in case res of
           Inl err \<Rightarrow>
             if IsNotFound err then (Inr None, w1)
             else (Inl (''fetching EvalRun: '' @ error_text err), w1)
         | Inr er \<Rightarrow>
             if om_DeletionTimestamp (er_Meta er) \<noteq> None then (Inr None, w1)
             else if es_Suspend (er_Spec er)
             then setStatus K er EvalRunPhasePending (et_WorkflowRef (er_Status er)) ''suspended: no Workflow submitted'' w1
             else if et_WorkflowRef (er_Status er) = '''' then submitWorkflow K er w1
             else reconcileWorkflow K er w1)"


subsection \<open>What a reconciliation writes\<close>

fun created_workflows :: "api_call list \<Rightarrow> Workflow list" where
  "created_workflows [] = []"
| "created_workflows (CreateWorkflow wk # cs) = wk # created_workflows cs"
| "created_workflows (_ # cs) = created_workflows cs"

lemma created_workflows_append [simp]:
  "created_workflows (xs @ ys) = created_workflows xs @ created_workflows ys"
  by (induction xs rule: created_workflows.induct) simp_all

definition status_after :: "EvalRun \<Rightarrow> EvalRunPhase \<Rightarrow> string \<Rightarrow> string \<Rightarrow> instant \<Rightarrow> EvalRunStatus" where
  "status_after er phase ref message now =
     (let st = er_Status er;
          st1 = (if et_Phase st \<noteq> phase \<and> is_final phase then st\<lparr>et_CompletionTime := Some now\<rparr> else st)
      in st1\<lparr>et_Phase := phase, et_WorkflowRef := ref, et_Message := message\<rparr>)"

lemma setStatus_spec:
  assumes "setStatus K er phase ref message w = (res, w')"
  shows "kw_calls w' = kw_calls w @ [UpdateEvalRunStatus
      (er\<lparr>er_Status := status_after er phase ref message (ke_clk K (kw_clock w))\<rparr>)]"
    and "res = Inr r \<Longrightarrow> r = (if phase = EvalRunPhaseRunning then Some requeue_delay else None)"
  using assms
  by (auto simp: setStatus_def status_after_def world_defs Let_def split: option.splits if_splits)

definition active :: "EvalRun \<Rightarrow> bool" where
  "active er \<longleftrightarrow> om_DeletionTimestamp (er_Meta er) = None \<and> \<not> es_Suspend (er_Spec er)"

text \<open>Every reconciliation of an existing EvalRun either writes no status, or its last call does and
  the status is one of five kinds.\<close>

datatype verdict =
    Suspended | Submitted instant string | WorkflowLost | WorkflowRunning string string
  | WorkflowDone string string "evalReport option"

definition verdict_phase :: "verdict \<Rightarrow> EvalRunPhase" where
  "verdict_phase v =
     (case v of
        Suspended \<Rightarrow> EvalRunPhasePending | Submitted t name \<Rightarrow> EvalRunPhaseRunning
      | WorkflowLost \<Rightarrow> EvalRunPhaseFailed | WorkflowRunning name ph \<Rightarrow> EvalRunPhaseRunning
      | WorkflowDone name ph rep \<Rightarrow>
          (case rep of Some r \<Rightarrow> if ep_Passed r then EvalRunPhaseSucceeded else EvalRunPhaseFailed
                     | None \<Rightarrow> EvalRunPhaseFailed))"

definition verdict_ref :: "EvalRun \<Rightarrow> verdict \<Rightarrow> string" where
  "verdict_ref er v =
     (case v of
        Suspended \<Rightarrow> et_WorkflowRef (er_Status er) | Submitted t name \<Rightarrow> name
      | WorkflowLost \<Rightarrow> et_WorkflowRef (er_Status er) | WorkflowRunning name ph \<Rightarrow> name
      | WorkflowDone name ph rep \<Rightarrow> name)"

definition verdict_message :: "EvalRun \<Rightarrow> verdict \<Rightarrow> string" where
  "verdict_message er v =
     (case v of
        Suspended \<Rightarrow> ''suspended: no Workflow submitted'' | Submitted t name \<Rightarrow> ''Workflow submitted''
      | WorkflowLost \<Rightarrow> ''Workflow no longer exists''
      | WorkflowRunning name ph \<Rightarrow> ''Workflow phase: '' @ orPending ph
      | WorkflowDone name ph rep \<Rightarrow>
          (case rep of Some r \<Rightarrow> snd (outcome_of er r)
                     | None \<Rightarrow> ''Workflow '' @ ph @ '' with no eval report produced (crashed before writing it?)''))"

definition verdict_base :: "EvalRun \<Rightarrow> verdict \<Rightarrow> EvalRun" where
  "verdict_base er v =
     (case v of
        Submitted t name \<Rightarrow> er\<lparr>er_Status := (er_Status er)\<lparr>et_StartTime := Some t\<rparr>\<rparr>
      | WorkflowDone name ph (Some r) \<Rightarrow> with_report r er
      | _ \<Rightarrow> er)"

definition written :: "EvalRun \<Rightarrow> verdict \<Rightarrow> instant \<Rightarrow> EvalRun" where
  "written er v now =
     (verdict_base er v)\<lparr>er_Status :=
        status_after (verdict_base er v) (verdict_phase v) (verdict_ref er v) (verdict_message er v) now\<rparr>"

definition verdict_for :: "kenv \<Rightarrow> EvalRun \<Rightarrow> nat \<Rightarrow> verdict \<Rightarrow> bool" where
  "verdict_for K er n v =
     (case v of
        Suspended \<Rightarrow> es_Suspend (er_Spec er)
      | Submitted t name \<Rightarrow> active er \<and> et_WorkflowRef (er_Status er) = '''' \<and>
          (\<exists>meta. ke_set_owner K (er_Meta er) (wf_Meta (buildWorkflow er)) = Inr meta \<and> name = om_Name meta)
      | WorkflowLost \<Rightarrow> active er \<and> et_WorkflowRef (er_Status er) \<noteq> '''' \<and>
          (\<exists>err. ke_get_workflow K n (om_Namespace (er_Meta er)) (et_WorkflowRef (er_Status er)) = Inl err \<and> IsNotFound err)
      | WorkflowRunning name ph \<Rightarrow> active er \<and> et_WorkflowRef (er_Status er) \<noteq> '''' \<and>
          (\<exists>wk. ke_get_workflow K n (om_Namespace (er_Meta er)) (et_WorkflowRef (er_Status er)) = Inr wk \<and>
             name = om_Name (wf_Meta wk) \<and> ph = wf_StatusPhase wk \<and> \<not> isTerminalWorkflowPhase ph)
      | WorkflowDone name ph rep \<Rightarrow> active er \<and> et_WorkflowRef (er_Status er) \<noteq> '''' \<and>
          (\<exists>wk. ke_get_workflow K n (om_Namespace (er_Meta er)) (et_WorkflowRef (er_Status er)) = Inr wk \<and>
             name = om_Name (wf_Meta wk) \<and> ph = wf_StatusPhase wk \<and> isTerminalWorkflowPhase ph \<and>
             rep = extractEvalReport wk))"

definition owned_workflow :: "kenv \<Rightarrow> EvalRun \<Rightarrow> Workflow list" where
  "owned_workflow K er =
     (if active er \<and> et_WorkflowRef (er_Status er) = ''''
      then (case ke_set_owner K (er_Meta er) (wf_Meta (buildWorkflow er)) of
              Inl err \<Rightarrow> [] | Inr meta \<Rightarrow> [(buildWorkflow er)\<lparr>wf_Meta := meta\<rparr>])
      else [])"

lemma set_verdict:
  assumes "setStatus K (verdict_base er v) (verdict_phase v) (verdict_ref er v) (verdict_message er v) w = (res, w')"
  shows "\<exists>now. kw_calls w' = kw_calls w @ [UpdateEvalRunStatus (written er v now)]"
    and "res = Inr r \<Longrightarrow> r = (if verdict_phase v = EvalRunPhaseRunning then Some requeue_delay else None)"
  using setStatus_spec [OF assms] by (auto simp: written_def)

lemmas verdict_defs = verdict_base_def verdict_phase_def verdict_ref_def verdict_message_def

text \<open>What the calls of a reconciliation amount to: the last one writes the verdict, or no status is
  written at all.\<close>

definition run_outcome :: "kenv \<Rightarrow> EvalRun \<Rightarrow> nat \<Rightarrow> goerror + ctrl_result \<Rightarrow> api_call list \<Rightarrow> bool" where
  "run_outcome K er n res cs \<longleftrightarrow>
     (\<exists>v now cs'. cs = cs' @ [UpdateEvalRunStatus (written er v now)] \<and> (\<forall>e. UpdateEvalRunStatus e \<notin> set cs') \<and>
        verdict_for K er n v \<and>
        (\<forall>x. res = Inr x \<longrightarrow> x = (if verdict_phase v = EvalRunPhaseRunning then Some requeue_delay else None))) \<or>
     (\<forall>e. UpdateEvalRunStatus e \<notin> set cs)"

lemma run_outcome_Cons:
  "run_outcome K er n res cs \<Longrightarrow> \<forall>e. c \<noteq> UpdateEvalRunStatus e \<Longrightarrow> run_outcome K er n res (c # cs)"
  unfolding run_outcome_def
  by (elim disjE exE conjE) (rule disjI1, metis append_Cons set_ConsD, auto)

lemma run_outcome_silent: "run_outcome K er n res []"
  by (simp add: run_outcome_def)

lemma run_outcome_verdict:
  assumes "setStatus K (verdict_base er v) (verdict_phase v) (verdict_ref er v) (verdict_message er v) w = (res, w')"
    and "verdict_for K er n v"
  shows "\<exists>now. kw_calls w' = kw_calls w @ [UpdateEvalRunStatus (written er v now)] \<and>
    run_outcome K er n res [UpdateEvalRunStatus (written er v now)]"
proof -
  from set_verdict [OF assms(1)] obtain now where
    "kw_calls w' = kw_calls w @ [UpdateEvalRunStatus (written er v now)]"
    and "\<forall>x. res = Inr x \<longrightarrow> x = (if verdict_phase v = EvalRunPhaseRunning then Some requeue_delay else None)"
    by blast
  with assms(2) show ?thesis
    by (intro exI [of _ now]) (auto simp: run_outcome_def)
qed

lemma submitWorkflow_spec:
  assumes "submitWorkflow K er w = (res, w')" and "active er" and "et_WorkflowRef (er_Status er) = ''''"
  shows "\<exists>cs. kw_calls w' = kw_calls w @ cs \<and> created_workflows cs = owned_workflow K er \<and> run_outcome K er n res cs"
proof (cases "ke_set_owner K (er_Meta er) (wf_Meta (buildWorkflow er))")
  case (Inl err)
  then show ?thesis using assms
    by (intro exI [of _ "[]"]) (auto simp: submitWorkflow_def Let_def owned_workflow_def run_outcome_silent)
next
  case (Inr meta)
  let ?wk = "(buildWorkflow er)\<lparr>wf_Meta := meta\<rparr>"
  let ?w1 = "record_call (CreateWorkflow ?wk) w"
  let ?v = "Submitted (ke_clk K (kw_clock ?w1)) (om_Name meta)"
  have owned: "owned_workflow K er = [?wk]" using Inr assms by (simp add: owned_workflow_def)
  have v: "verdict_for K er n ?v" using Inr assms by (simp add: verdict_for_def)
  have "setStatus K (verdict_base er ?v) (verdict_phase ?v) (verdict_ref er ?v) (verdict_message er ?v) (snd (kube_now K ?w1))
      = (res, w') \<or> w' = ?w1"
    using assms(1) Inr
    by (auto simp: submitWorkflow_def Let_def kube_write_def kube_now_def verdict_defs split: option.splits if_splits)
  then show ?thesis
  proof
    assume s: "setStatus K (verdict_base er ?v) (verdict_phase ?v) (verdict_ref er ?v) (verdict_message er ?v)
        (snd (kube_now K ?w1)) = (res, w')"
    from run_outcome_verdict [OF s v] obtain now where
      "kw_calls w' = kw_calls w @ [CreateWorkflow ?wk, UpdateEvalRunStatus (written er ?v now)]"
      "run_outcome K er n res [UpdateEvalRunStatus (written er ?v now)]"
      by (auto simp: record_call_def kube_now_def)
    with owned show ?thesis
      by (intro exI [of _ "[CreateWorkflow ?wk, UpdateEvalRunStatus (written er ?v now)]"]) (simp add: run_outcome_Cons)
  next
    assume "w' = ?w1"
    with owned show ?thesis
      by (intro exI [of _ "[CreateWorkflow ?wk]"]) (simp add: record_call_def run_outcome_Cons run_outcome_silent)
  qed
qed

lemma reconcileWorkflow_spec:
  assumes "reconcileWorkflow K er w = (res, w')" and "active er" and "et_WorkflowRef (er_Status er) \<noteq> ''''"
  shows "\<exists>cs. kw_calls w' = kw_calls w @ cs \<and> created_workflows cs = [] \<and> run_outcome K er (call_no w) res cs"
proof -
  let ?ns = "om_Namespace (er_Meta er)" and ?ref = "et_WorkflowRef (er_Status er)"
  let ?w1 = "record_call (GetWorkflow ?ns ?ref) w"
  have "(\<exists>v. verdict_for K er (call_no w) v \<and>
          setStatus K (verdict_base er v) (verdict_phase v) (verdict_ref er v) (verdict_message er v) ?w1 = (res, w')) \<or>
        w' = ?w1"
  proof (cases "ke_get_workflow K (call_no w) ?ns ?ref")
    case (Inl err)
    show ?thesis
    proof (cases "IsNotFound err")
      case True
      with Inl assms have "verdict_for K er (call_no w) WorkflowLost \<and>
          setStatus K (verdict_base er WorkflowLost) (verdict_phase WorkflowLost) (verdict_ref er WorkflowLost)
            (verdict_message er WorkflowLost) ?w1 = (res, w')"
        by (simp add: reconcileWorkflow_def get_workflow_def verdict_defs verdict_for_def Let_def)
      then show ?thesis by blast
    qed (use Inl assms in \<open>auto simp: reconcileWorkflow_def get_workflow_def Let_def\<close>)
  next
    case (Inr wk)
    define v where "v = (if isTerminalWorkflowPhase (wf_StatusPhase wk)
      then WorkflowDone (om_Name (wf_Meta wk)) (wf_StatusPhase wk) (extractEvalReport wk)
      else WorkflowRunning (om_Name (wf_Meta wk)) (wf_StatusPhase wk))"
    have "verdict_for K er (call_no w) v" using Inr assms by (simp add: v_def verdict_for_def)
    moreover have "setStatus K (verdict_base er v) (verdict_phase v) (verdict_ref er v) (verdict_message er v) ?w1 = (res, w')"
      using assms(1) Inr
      by (auto simp: reconcileWorkflow_def get_workflow_def Let_def v_def verdict_defs outcome_of_def
          split: option.splits if_splits)
    ultimately show ?thesis by blast
  qed
  then show ?thesis
  proof (elim disjE exE conjE)
    fix v assume v: "verdict_for K er (call_no w) v"
      and s: "setStatus K (verdict_base er v) (verdict_phase v) (verdict_ref er v) (verdict_message er v) ?w1 = (res, w')"
    from run_outcome_verdict [OF s v] obtain now where
      "kw_calls w' = kw_calls w @ [GetWorkflow ?ns ?ref, UpdateEvalRunStatus (written er v now)]"
      "run_outcome K er (call_no w) res [UpdateEvalRunStatus (written er v now)]"
      by (auto simp: record_call_def)
    then show ?thesis
      by (intro exI [of _ "[GetWorkflow ?ns ?ref, UpdateEvalRunStatus (written er v now)]"]) (simp add: run_outcome_Cons)
  next
    assume "w' = ?w1"
    then show ?thesis
      by (intro exI [of _ "[GetWorkflow ?ns ?ref]"]) (simp add: record_call_def run_outcome_Cons run_outcome_silent)
  qed
qed

lemma EvalRun_Reconcile_spec:
  assumes r: "EvalRun_Reconcile K (ns, name) w = (res, w')"
    and g: "ke_get_evalrun K (call_no w) ns name = Inr er"
  shows "\<exists>cs. kw_calls w' = kw_calls w @ cs \<and> created_workflows cs = owned_workflow K er \<and>
    run_outcome K er (Suc (call_no w)) res cs"
proof -
  let ?get = "GetEvalRun ns name"
  let ?w1 = "record_call ?get w"
  have n: "call_no ?w1 = Suc (call_no w)" by (simp add: call_no_def record_call_def)
  have shift: ?thesis if "\<exists>cs. kw_calls w' = kw_calls ?w1 @ cs \<and> created_workflows cs = owned_workflow K er \<and>
      run_outcome K er (Suc (call_no w)) res cs"
  proof -
    from that obtain cs where "kw_calls w' = kw_calls ?w1 @ cs" "created_workflows cs = owned_workflow K er"
      "run_outcome K er (Suc (call_no w)) res cs" by blast
    then show ?thesis by (intro exI [of _ "?get # cs"]) (simp add: record_call_def run_outcome_Cons)
  qed
  consider (dead) "om_DeletionTimestamp (er_Meta er) \<noteq> None"
    | (suspended) "om_DeletionTimestamp (er_Meta er) = None" "es_Suspend (er_Spec er)"
    | (submit) "active er" "et_WorkflowRef (er_Status er) = ''''"
    | (mirror) "active er" "et_WorkflowRef (er_Status er) \<noteq> ''''"
    unfolding active_def by argo
  then show ?thesis
  proof cases
    case dead
    with r g have "w' = ?w1" by (auto simp: EvalRun_Reconcile_def get_evalrun_def)
    with dead show ?thesis by (intro shift exI [of _ "[]"]) (auto simp: owned_workflow_def active_def run_outcome_silent)
  next
    case suspended
    with r g have s: "setStatus K (verdict_base er Suspended) (verdict_phase Suspended) (verdict_ref er Suspended)
        (verdict_message er Suspended) ?w1 = (res, w')"
      by (simp add: EvalRun_Reconcile_def get_evalrun_def verdict_defs)
    have v: "verdict_for K er (Suc (call_no w)) Suspended" "owned_workflow K er = []"
      using suspended by (simp_all add: verdict_for_def owned_workflow_def active_def)
    from run_outcome_verdict [OF s v(1)] v(2) show ?thesis by (intro shift) fastforce
  next
    case submit
    with r g have "submitWorkflow K er ?w1 = (res, w')"
      by (simp add: EvalRun_Reconcile_def get_evalrun_def active_def)
    from submitWorkflow_spec [OF this submit] show ?thesis by (rule shift)
  next
    case mirror
    with r g have "reconcileWorkflow K er ?w1 = (res, w')"
      by (simp add: EvalRun_Reconcile_def get_evalrun_def active_def)
    from reconcileWorkflow_spec [OF this mirror, unfolded n] mirror show ?thesis
      by (intro shift) (simp add: owned_workflow_def)
  qed
qed


subsection \<open>The life of an EvalRun\<close>

text \<open>What the API promises of names: an object fetched by name has that name, and setting the owner
  of an object changes neither its name nor its namespace.\<close>

definition kube_naming :: "kenv \<Rightarrow> bool" where
  "kube_naming K \<longleftrightarrow>
     (\<forall>n ns name er. ke_get_evalrun K n ns name = Inr er \<longrightarrow>
        om_Name (er_Meta er) = name \<and> om_Namespace (er_Meta er) = ns) \<and>
     (\<forall>n ns name wk. ke_get_workflow K n ns name = Inr wk \<longrightarrow>
        om_Name (wf_Meta wk) = name \<and> om_Namespace (wf_Meta wk) = ns) \<and>
     (\<forall>owner m m'. ke_set_owner K owner m = Inr m' \<longrightarrow> om_Name m' = om_Name m \<and> om_Namespace m' = om_Namespace m)"

text \<open>The statuses an EvalRun has had and the Workflows created for it. A reconciliation may read any
  earlier status (the client reads from a cache), with any specification and any other metadata;
  its write may be rejected, or be applied and still be answered with an error.\<close>

inductive evalrun_life :: "string \<Rightarrow> string \<Rightarrow> EvalRunStatus set \<Rightarrow> Workflow list \<Rightarrow> bool"
  for ns name where
  created: "et_Phase st = '''' \<Longrightarrow> et_WorkflowRef st = '''' \<Longrightarrow> evalrun_life ns name {st} []"
| reconciled: "evalrun_life ns name sts wks \<Longrightarrow> kube_naming K \<Longrightarrow>
    ke_get_evalrun K (call_no w) ns name = Inr er \<Longrightarrow> er_Status er \<in> sts \<Longrightarrow>
    EvalRun_Reconcile K (ns, name) w = (res, w') \<Longrightarrow> kw_calls w' = kw_calls w @ cs \<Longrightarrow>
    new \<subseteq> {er_Status e |e. UpdateEvalRunStatus e \<in> set cs} \<Longrightarrow>
    evalrun_life ns name (sts \<union> new) (wks @ created_workflows cs)"

definition evalrun_ok :: "string \<Rightarrow> EvalRunStatus \<Rightarrow> bool" where
  "evalrun_ok name st \<longleftrightarrow>
     (et_WorkflowRef st \<noteq> '''' \<longrightarrow> et_WorkflowRef st = name \<and> et_StartTime st \<noteq> None) \<and>
     (et_Phase st = EvalRunPhaseRunning \<longrightarrow> et_WorkflowRef st = name \<and> et_StartTime st \<noteq> None) \<and>
     (is_final (et_Phase st) \<longrightarrow> et_CompletionTime st \<noteq> None) \<and>
     (et_Phase st = EvalRunPhaseSucceeded \<longrightarrow> et_Passed st = Some True)"

lemma status_after_fields [simp]:
  "et_Phase (status_after er phase ref message now) = phase"
  "et_WorkflowRef (status_after er phase ref message now) = ref"
  "et_Message (status_after er phase ref message now) = message"
  "et_StartTime (status_after er phase ref message now) = et_StartTime (er_Status er)"
  "et_Passed (status_after er phase ref message now) = et_Passed (er_Status er)"
  "et_CorpusWER (status_after er phase ref message now) = et_CorpusWER (er_Status er)"
  "et_MeanWER (status_after er phase ref message now) = et_MeanWER (er_Status er)"
  "et_TotalSamples (status_after er phase ref message now) = et_TotalSamples (er_Status er)"
  "et_CompletionTime (status_after er phase ref message now) =
     (if et_Phase (er_Status er) \<noteq> phase \<and> is_final phase then Some now else et_CompletionTime (er_Status er))"
  by (simp_all add: status_after_def Let_def)

lemma written_status:
  "er_Status (written er v now) =
     status_after (verdict_base er v) (verdict_phase v) (verdict_ref er v) (verdict_message er v) now"
  by (simp add: written_def)

lemma final_phases [simp]:
  "is_final EvalRunPhaseSucceeded" "is_final EvalRunPhaseFailed" "\<not> is_final EvalRunPhaseRunning"
  "\<not> is_final EvalRunPhasePending" "EvalRunPhaseSucceeded \<noteq> EvalRunPhaseFailed"
  "EvalRunPhaseFailed \<noteq> EvalRunPhaseSucceeded" "EvalRunPhaseRunning \<noteq> EvalRunPhaseFailed"
  "EvalRunPhaseRunning \<noteq> EvalRunPhaseSucceeded" "EvalRunPhaseFailed \<noteq> EvalRunPhaseRunning"
  "EvalRunPhaseSucceeded \<noteq> EvalRunPhaseRunning" "EvalRunPhasePending \<noteq> EvalRunPhaseRunning"
  "EvalRunPhasePending \<noteq> EvalRunPhaseSucceeded"
  by (simp_all add: is_final_def status_defs)

lemma verdict_ref_named:
  assumes "kube_naming K" and "ke_get_evalrun K m ns name = Inr er" and "verdict_for K er n v"
    and "evalrun_ok name (er_Status er)" and "v \<noteq> Suspended"
  shows "verdict_ref er v = name"
  using assms
  by (cases v)
     (auto simp: verdict_for_def kube_naming_def verdict_ref_def evalrun_ok_def buildWorkflow_def object_meta_def Let_def)

lemma written_ok:
  assumes naming: "kube_naming K" and g: "ke_get_evalrun K m ns name = Inr er"
    and v: "verdict_for K er n v" and ok: "evalrun_ok name (er_Status er)"
  shows "evalrun_ok name (er_Status (written er v now))"
proof -
  note nm = verdict_ref_named [OF naming g v ok]
  show ?thesis
  proof (cases v)
    case Suspended
    with ok show ?thesis by (simp add: evalrun_ok_def written_status verdict_defs)
  next
    case (Submitted t x)
    with nm show ?thesis by (simp add: evalrun_ok_def written_status verdict_defs)
  next
    case WorkflowLost
    with ok show ?thesis by (simp add: evalrun_ok_def written_status verdict_defs)
  next
    case (WorkflowRunning x ph)
    with nm ok v show ?thesis by (simp add: evalrun_ok_def written_status verdict_defs verdict_for_def)
  next
    case (WorkflowDone x ph rep)
    with nm v ok have *: "x = name" "et_StartTime (er_Status er) \<noteq> None"
      by (auto simp: verdict_for_def evalrun_ok_def verdict_ref_def)
    show ?thesis
    proof (cases rep)
      case None
      with WorkflowDone * ok show ?thesis by (simp add: evalrun_ok_def written_status verdict_defs)
    next
      case (Some rp)
      with WorkflowDone * ok show ?thesis
        by (cases "ep_Passed rp") (simp_all add: evalrun_ok_def written_status verdict_defs with_report_def)
    qed
  qed
qed

lemma owned_workflow_named:
  assumes "kube_naming K" and "ke_get_evalrun K m ns name = Inr er" and "wk \<in> set (owned_workflow K er)"
  shows "om_Name (wf_Meta wk) = name \<and> om_Namespace (wf_Meta wk) = ns"
proof (cases "ke_set_owner K (er_Meta er) (wf_Meta (buildWorkflow er))")
  case (Inl err)
  then have "owned_workflow K er = []" by (simp add: owned_workflow_def)
  with assms(3) show ?thesis by simp
next
  case (Inr meta)
  then have "owned_workflow K er =
      (if active er \<and> et_WorkflowRef (er_Status er) = '''' then [(buildWorkflow er)\<lparr>wf_Meta := meta\<rparr>] else [])"
    unfolding owned_workflow_def by simp
  with assms(3) have "wk = (buildWorkflow er)\<lparr>wf_Meta := meta\<rparr>"
    by (cases "active er \<and> et_WorkflowRef (er_Status er) = ''''") simp_all
  moreover have "om_Name meta = om_Name (wf_Meta (buildWorkflow er))"
    "om_Namespace meta = om_Namespace (wf_Meta (buildWorkflow er))"
    using assms(1) Inr unfolding kube_naming_def by blast+
  moreover have "om_Name (er_Meta er) = name" "om_Namespace (er_Meta er) = ns"
    using assms(1,2) unfolding kube_naming_def by blast+
  ultimately show ?thesis by (simp add: buildWorkflow_def object_meta_def Let_def)
qed

lemma run_outcome_written:
  assumes "run_outcome K er n res cs" and "UpdateEvalRunStatus e \<in> set cs"
  shows "\<exists>v now. e = written er v now \<and> verdict_for K er n v"
proof -
  from assms obtain v now cs' where "cs = cs' @ [UpdateEvalRunStatus (written er v now)]"
    "\<forall>e. UpdateEvalRunStatus e \<notin> set cs'" "verdict_for K er n v"
    unfolding run_outcome_def by blast
  with assms(2) show ?thesis by auto
qed

text \<open>C5: the life of an EvalRun. In every status it ever has, however reconciliations read stale
  statuses and their writes fail: a status that refers to a Workflow refers to the one named after
  the EvalRun and has a start time; \<open>Running\<close> refers to it; a final phase has a completion time;
  \<open>Succeeded\<close> only with a report that passed. And every Workflow ever created for it is in its
  namespace under its name, so the cluster holds at most one of them at a time.\<close>

theorem EvalRun_life_invariant:
  assumes "evalrun_life ns name sts wks"
  shows "(\<forall>st \<in> sts. evalrun_ok name st) \<and>
    (\<forall>wk \<in> set wks. om_Name (wf_Meta wk) = name \<and> om_Namespace (wf_Meta wk) = ns)"
  using assms
proof (induction rule: evalrun_life.induct)
  case (created st)
  then show ?case by (simp add: evalrun_ok_def status_defs is_final_def)
next
  case (reconciled sts wks K w er res w' cs new)
  from EvalRun_Reconcile_spec [OF reconciled.hyps(5,3)] reconciled.hyps(6)
  have c: "created_workflows cs = owned_workflow K er" and o: "run_outcome K er (Suc (call_no w)) res cs" by auto
  have "evalrun_ok name st" if "st \<in> new" for st
  proof -
    from that reconciled.hyps(7) obtain e where e: "UpdateEvalRunStatus e \<in> set cs" "st = er_Status e" by blast
    from run_outcome_written [OF o e(1)] obtain v now where "e = written er v now" "verdict_for K er (Suc (call_no w)) v"
      by blast
    with written_ok [OF reconciled.hyps(2,3)] reconciled.IH reconciled.hyps(4) e show ?thesis by blast
  qed
  with reconciled.IH owned_workflow_named [OF reconciled.hyps(2,3)] c show ?case by auto
qed


lemma EvalRun_done_written:
  assumes "EvalRun_Reconcile K (ns, name) w = (res, w')"
    and "ke_get_evalrun K (call_no w) ns name = Inr er" and "active er" and "et_WorkflowRef (er_Status er) \<noteq> ''''"
    and "ke_get_workflow K (Suc (call_no w)) (om_Namespace (er_Meta er)) (et_WorkflowRef (er_Status er)) = Inr wk"
    and "isTerminalWorkflowPhase (wf_StatusPhase wk)"
  shows "kw_calls w' = kw_calls w @ [GetEvalRun ns name,
        GetWorkflow (om_Namespace (er_Meta er)) (et_WorkflowRef (er_Status er)),
        UpdateEvalRunStatus (written er (WorkflowDone (om_Name (wf_Meta wk)) (wf_StatusPhase wk) (extractEvalReport wk))
          (ke_clk K (kw_clock w)))]"
    and "res = Inr x \<Longrightarrow> x = None"
proof -
  let ?ns = "om_Namespace (er_Meta er)" and ?ref = "et_WorkflowRef (er_Status er)"
  let ?v = "WorkflowDone (om_Name (wf_Meta wk)) (wf_StatusPhase wk) (extractEvalReport wk)"
  let ?w1 = "record_call (GetWorkflow ?ns ?ref) (record_call (GetEvalRun ns name) w)"
  have n: "call_no (record_call (GetEvalRun ns name) w) = Suc (call_no w)" by (simp add: call_no_def record_call_def)
  have s: "setStatus K (verdict_base er ?v) (verdict_phase ?v) (verdict_ref er ?v) (verdict_message er ?v) ?w1 = (res, w')"
    using assms n
    by (auto simp: EvalRun_Reconcile_def get_evalrun_def active_def reconcileWorkflow_def get_workflow_def Let_def
        verdict_defs outcome_of_def split: option.splits if_splits)
  note spec = setStatus_spec [OF s]
  have ck: "kw_clock ?w1 = kw_clock w" by (simp add: record_call_def)
  show "kw_calls w' = kw_calls w @ [GetEvalRun ns name, GetWorkflow ?ns ?ref,
      UpdateEvalRunStatus (written er ?v (ke_clk K (kw_clock w)))]"
    using spec(1) by (simp add: ck written_def) (simp add: record_call_def)
  show "res = Inr x \<Longrightarrow> x = None" using spec(2)
    by (auto simp: verdict_phase_def split: option.splits if_splits)
qed

lemma written_done:
  "written er (WorkflowDone nm ph rep) t = er\<lparr>er_Status := er_Status (written er (WorkflowDone nm ph rep) t)\<rparr>"
  by (simp add: written_def verdict_base_def with_report_def split: option.splits)

lemma written_done_idem:
  "written (written er (WorkflowDone nm ph rep) t) (WorkflowDone nm ph rep) t' = written er (WorkflowDone nm ph rep) t"
  by (simp add: written_def verdict_defs with_report_def outcome_of_def status_after_def Let_def split: option.splits)


text \<open>C27: a finished EvalRun is settled. Reconciling again what the first reconciliation after the
  Workflow finished wrote, at any later time and against any answers that still show that
  Workflow, writes the same object: neither the verdict nor the completion time moves.\<close>

theorem EvalRun_settled:
  assumes "EvalRun_Reconcile K (ns, name) w = (res, w')" and "kw_calls w' = cs @ [UpdateEvalRunStatus e]"
    and "ke_get_evalrun K (call_no w) ns name = Inr er" and "active er" and "et_WorkflowRef (er_Status er) \<noteq> ''''"
    and "ke_get_workflow K (Suc (call_no w)) (om_Namespace (er_Meta er)) (et_WorkflowRef (er_Status er)) = Inr wk"
    and "om_Name (wf_Meta wk) = et_WorkflowRef (er_Status er)" and "isTerminalWorkflowPhase (wf_StatusPhase wk)"
    and "EvalRun_Reconcile K2 (ns, name) v = (res2, v')"
    and "ke_get_evalrun K2 (call_no v) ns name = Inr e"
    and "ke_get_workflow K2 (Suc (call_no v)) (om_Namespace (er_Meta er)) (et_WorkflowRef (er_Status er)) = Inr wk"
  shows "kw_calls v' = kw_calls v @ [GetEvalRun ns name,
      GetWorkflow (om_Namespace (er_Meta er)) (et_WorkflowRef (er_Status er)), UpdateEvalRunStatus e]"
proof -
  let ?v = "WorkflowDone (om_Name (wf_Meta wk)) (wf_StatusPhase wk) (extractEvalReport wk)"
  have e: "e = written er ?v (ke_clk K (kw_clock w))"
    using EvalRun_done_written(1) [OF assms(1,3-6,8)] assms(2) by simp
  then have same: "er_Meta e = er_Meta er" "er_Spec e = er_Spec er" "et_WorkflowRef (er_Status e) = et_WorkflowRef (er_Status er)"
    using assms(7) by (simp_all add: written_def verdict_defs with_report_def split: option.splits)
  then have "active e" using assms(4) by (simp add: active_def)
  from EvalRun_done_written(1) [OF assms(9,10) this, of wk] same assms(5,8,11)
  have "kw_calls v' = kw_calls v @ [GetEvalRun ns name,
      GetWorkflow (om_Namespace (er_Meta er)) (et_WorkflowRef (er_Status er)), UpdateEvalRunStatus (written e ?v (ke_clk K2 (kw_clock v)))]"
    by simp
  then show ?thesis by (simp add: e written_done_idem)
qed


definition example_run :: "EvalRunPhase \<Rightarrow> string \<Rightarrow> EvalRun" where
  "example_run phase ref =
     \<lparr>er_Meta = object_meta ''nightly'' ''vox'' [],
      er_Spec = \<lparr>es_Dataset = ''dev'', es_GatewayURL = ''http://gw'', es_Model = '''', es_Image = ''eval:1'',
                es_WERThreshold = '''', es_TimeoutSeconds = None, es_Suspend = False\<rparr>,
      er_Status = \<lparr>et_Phase = phase, et_WorkflowRef = ref, et_CorpusWER = '''', et_MeanWER = '''', et_Passed = None,
                  et_TotalSamples = 0, et_Message = '''', et_StartTime = None, et_CompletionTime = None,
                  et_Conditions = []\<rparr>\<rparr>"

definition example_workflow :: "string \<Rightarrow> string \<Rightarrow> Workflow" where
  "example_workflow phase report =
     (buildWorkflow (example_run '''' ''''))\<lparr>wf_StatusPhase := phase,
        wf_OutputParameters := Some [JObj [(''name'', JStr ''eval-report''), (''value'', JStr report)]]\<rparr>"

definition example_report :: string where
  "example_report = ''{\"passed\": true, \"corpus_wer\": 0.25, \"mean_wer\": 0.5, \"total_samples\": 4}''"

lemma example_report_read:
  "extractEvalReport (example_workflow ''Succeeded'' example_report) =
     Some \<lparr>ep_Passed = True, ep_CorpusWER = 1/4, ep_MeanWER = 1/2, ep_TotalSamples = 4\<rparr>"
  by code_simp


definition example_run_kenv :: "EvalRun \<Rightarrow> Workflow \<Rightarrow> kenv" where
  "example_run_kenv er wk = example_kenv [] [] [] [er] [wk]"

lemma example_naming: "kube_naming (example_kenv vms deps pipes runs wfs)"
  by (auto simp: kube_naming_def example_kenv_def find_named_def find_Some_iff split: option.splits)

lemma example_run_fields:
  "er_Meta (example_run phase ref) = object_meta ''nightly'' ''vox'' []"
  "et_WorkflowRef (er_Status (example_run phase ref)) = ref"
  "et_Phase (er_Status (example_run phase ref)) = phase"
  "active (example_run phase ref)"
  "om_Name (object_meta n m ls) = n" "om_Namespace (object_meta n m ls) = m"
  "wf_StatusPhase (example_workflow phase rep) = phase"
  "om_Name (wf_Meta (example_workflow phase rep)) = ''nightly''"
  "om_Namespace (wf_Meta (example_workflow phase rep)) = ''vox''"
  by (simp_all add: example_run_def active_def object_meta_def example_workflow_def buildWorkflow_def Let_def)

lemma example_run_get:
  "er_Meta er = object_meta ''nightly'' ''vox'' [] \<Longrightarrow>
   ke_get_evalrun (example_run_kenv er (example_workflow phase rep)) n ''vox'' ''nightly'' = Inr er"
  "ke_get_workflow (example_run_kenv er (example_workflow phase rep)) n ''vox'' ''nightly'' = Inr (example_workflow phase rep)"
  by (simp_all add: example_run_kenv_def example_kenv_def find_named_def example_run_fields)

lemma EvalRun_Reconcile_submits:
  assumes "ke_get_evalrun K (call_no w) ns name = Inr er" and "active er" and "et_WorkflowRef (er_Status er) = ''''"
  shows "EvalRun_Reconcile K (ns, name) w = submitWorkflow K er (record_call (GetEvalRun ns name) w)"
  using assms by (simp add: EvalRun_Reconcile_def get_evalrun_def active_def)

theorem EvalRun_life_invariant_witness:
  "\<exists>sts wk st. evalrun_life ''vox'' ''nightly'' sts [wk] \<and> om_Name (wf_Meta wk) = ''nightly'' \<and>
     st \<in> sts \<and> et_Phase st = EvalRunPhaseRunning \<and> et_WorkflowRef st = ''nightly''"
proof -
  let ?er = "example_run '''' ''''"
  let ?K = "example_run_kenv ?er (example_workflow '''' '''')"
  obtain res w' where r: "EvalRun_Reconcile ?K (''vox'', ''nightly'') new_kworld = (res, w')" by fastforce
  have g: "ke_get_evalrun ?K (call_no new_kworld) ''vox'' ''nightly'' = Inr ?er"
    by (rule example_run_get) (simp add: example_run_fields)
  have k: "kube_naming ?K" by (simp add: example_run_kenv_def example_naming)
  have kw: "ke_write_error ?K n c = None" "\<exists>m. ke_set_owner ?K x y = Inr m" for n c x y
    by (simp_all add: example_run_kenv_def example_kenv_def)
  obtain m where m: "ke_set_owner ?K (er_Meta ?er) (wf_Meta (buildWorkflow ?er)) = Inr m" using kw(2) by blast
  let ?w1 = "record_call (GetEvalRun ''vox'' ''nightly'') new_kworld"
  have s: "submitWorkflow ?K ?er ?w1 = (res, w')"
    using EvalRun_Reconcile_submits [OF g example_run_fields(4) example_run_fields(2)] r by simp
  define wk where "wk = (buildWorkflow ?er)\<lparr>wf_Meta := m\<rparr>"
  have "\<exists>e. kw_calls w' = kw_calls ?w1 @ [CreateWorkflow wk, UpdateEvalRunStatus e] \<and> et_Phase (er_Status e) = EvalRunPhaseRunning"
    using s m kw(1)
    by (simp add: submitWorkflow_def Let_def wk_def [symmetric] kube_write_def kube_now_def setStatus_def)
       (auto simp: record_call_def)
  then obtain e where c: "kw_calls w' = kw_calls new_kworld @ [GetEvalRun ''vox'' ''nightly'', CreateWorkflow wk, UpdateEvalRunStatus e]"
    "et_Phase (er_Status e) = EvalRunPhaseRunning" by (auto simp: record_call_def)
  have life: "evalrun_life ''vox'' ''nightly'' ({er_Status ?er} \<union> {er_Status e}) ([] @ created_workflows
      [GetEvalRun ''vox'' ''nightly'', CreateWorkflow wk, UpdateEvalRunStatus e])"
    by (rule evalrun_life.reconciled [OF evalrun_life.created k g _ r c(1)]) (simp_all add: example_run_fields, blast?)
  note inv = EvalRun_life_invariant [OF life]
  have "evalrun_ok ''nightly'' (er_Status e)" using inv by blast
  then have ref: "et_WorkflowRef (er_Status e) = ''nightly''" using c(2) unfolding evalrun_ok_def by blast
  have nm: "om_Name (wf_Meta wk) = ''nightly''" using inv by simp
  have "evalrun_life ''vox'' ''nightly'' ({er_Status ?er} \<union> {er_Status e}) [wk]" using life by simp
  with ref nm c(2) show ?thesis by blast
qed


theorem EvalRun_settled_witness:
  "\<exists>e (v' :: kworld). et_Phase (er_Status e) = EvalRunPhaseSucceeded \<and>
     kw_calls v' = [GetEvalRun ''vox'' ''nightly'', GetWorkflow ''vox'' ''nightly'', UpdateEvalRunStatus e]"
proof -
  let ?er = "example_run EvalRunPhaseRunning ''nightly''" and ?wk = "example_workflow ''Succeeded'' example_report"
  let ?K = "example_run_kenv ?er ?wk"
  obtain res w' where r: "EvalRun_Reconcile ?K (''vox'', ''nightly'') new_kworld = (res, w')" by fastforce
  have a: "et_WorkflowRef (er_Status ?er) \<noteq> ''''"
    "ke_get_evalrun ?K (call_no new_kworld) ''vox'' ''nightly'' = Inr ?er"
    "ke_get_workflow ?K (Suc (call_no new_kworld)) (om_Namespace (er_Meta ?er)) (et_WorkflowRef (er_Status ?er)) = Inr ?wk"
    "isTerminalWorkflowPhase (wf_StatusPhase ?wk)" "om_Name (wf_Meta ?wk) = et_WorkflowRef (er_Status ?er)" "active ?er"
    by (simp_all add: example_run_get example_run_fields isTerminalWorkflowPhase_def)
  define e where "e = written ?er (WorkflowDone (om_Name (wf_Meta ?wk)) (wf_StatusPhase ?wk) (extractEvalReport ?wk))
    (ke_clk ?K (kw_clock new_kworld))"
  have c: "kw_calls w' = [GetEvalRun ''vox'' ''nightly'', GetWorkflow ''vox'' ''nightly''] @ [UpdateEvalRunStatus e]"
    using EvalRun_done_written(1) [OF r a(2,6,1,3,4)]
    by (simp add: e_def new_kworld_def example_run_fields)
  let ?K2 = "example_run_kenv e ?wk"
  have m: "er_Meta e = object_meta ''nightly'' ''vox'' []" "et_Phase (er_Status e) = EvalRunPhaseSucceeded"
    by (simp_all add: e_def written_def verdict_defs example_report_read example_run_fields with_report_def)
  obtain res2 v' where r2: "EvalRun_Reconcile ?K2 (''vox'', ''nightly'') new_kworld = (res2, v')" by fastforce
  from EvalRun_settled [OF r c a(2,6,1,3,5,4) r2 example_run_get(1) [OF m(1)]]
  have "kw_calls v' = kw_calls new_kworld @ [GetEvalRun ''vox'' ''nightly'', GetWorkflow ''vox'' ''nightly'', UpdateEvalRunStatus e]"
    by (simp add: example_run_get example_run_fields)
  with m show ?thesis by (intro exI [of _ e] exI [of _ v'] conjI) (simp_all add: new_kworld_def)
qed


subsection \<open>The error rates in the status\<close>

lemma is_digit_chars: "d < 10 \<Longrightarrow> is_digit (digit_char d)" "\<not> is_digit (CHR ''.'')" "is_digit (CHR ''0'')"
  by (simp_all add: is_digit_def digit_value_def digit_char_def)

lemma string_of_nat_digits: "list_all is_digit (string_of_nat n)"
proof (induction n rule: string_of_nat.induct)
  case (1 n)
  then show ?case
    by (subst string_of_nat.simps) (simp add: is_digit_chars)
qed

lemma string_of_nat_zero: "string_of_nat n = CHR ''0'' # cs \<Longrightarrow> n = 0 \<and> cs = []"
proof (induction n arbitrary: cs rule: string_of_nat.induct)
  case (1 n)
  show ?case
  proof (cases "n < 10")
    case True
    with "1.prems" have "digit_char n = CHR ''0''" "cs = []"
      by (simp_all add: string_of_nat.simps [of n])
    then have "digit_value (digit_char n) = Some 0" by (simp add: digit_value_def)
    with True \<open>cs = []\<close> show ?thesis by simp
  next
    case False
    with "1.prems" obtain cs' where "string_of_nat (n div 10) = CHR ''0'' # cs'"
      by (cases "string_of_nat (n div 10)") (auto simp: string_of_nat.simps [of n])
    with "1.IH" False have "n div 10 = 0" by blast
    with False show ?thesis by simp
  qed
qed

lemma string_of_nat_length: "n < 10 ^ k \<Longrightarrow> 0 < k \<Longrightarrow> length (string_of_nat n) \<le> k"
proof (induction k arbitrary: n)
  case (Suc k)
  show ?case
  proof (cases "n < 10")
    case True
    then show ?thesis by (simp add: string_of_nat.simps [of n])
  next
    case False
    then have k: "0 < k" using Suc.prems by (cases k) auto
    have "n div 10 < 10 ^ k" using Suc.prems by (simp add: less_mult_imp_div_less mult.commute)
    from Suc.IH [OF this k] False show ?thesis by (simp add: string_of_nat.simps [of n])
  qed
qed simp

lemma takeWhile_digits:
  "list_all is_digit ds \<Longrightarrow> takeWhile is_digit (ds @ CHR ''.'' # r) = ds"
  "list_all is_digit ds \<Longrightarrow> dropWhile is_digit (ds @ CHR ''.'' # r) = CHR ''.'' # r"
  "list_all is_digit ds \<Longrightarrow> takeWhile is_digit ds = ds" "list_all is_digit ds \<Longrightarrow> dropWhile is_digit ds = []"
  by (induction ds) (simp_all add: is_digit_chars)

lemma nat_of_digits_zeros: "nat_of_digits 0 (replicate k CHR ''0'' @ ds) = nat_of_digits 0 ds"
  by (induction k) (simp_all add: digit_value_def)

lemma nat_of_digits_shift:
  "nat_of_digits 0 ds = Some m \<Longrightarrow> nat_of_digits a ds = Some (a * 10 ^ length ds + m)"
proof (induction ds arbitrary: a m rule: rev_induct)
  case (snoc c ds)
  then obtain k d where "nat_of_digits 0 ds = Some k" "digit_value c = Some d" "m = 10 * k + d"
    by (auto simp: nat_of_digits_append split: option.splits)
  with snoc.IH show ?case by (simp add: nat_of_digits_append algebra_simps)
qed simp

lemma parse_int_part_nat:
  "parse_int_part (string_of_nat n @ CHR ''.'' # r) = Some (string_of_nat n, CHR ''.'' # r)"
proof (cases "string_of_nat n")
  case (Cons c cs)
  show ?thesis
  proof (cases "c = CHR ''0''")
    case True
    with Cons string_of_nat_zero show ?thesis by (fastforce simp: parse_int_part_def)
  next
    case False
    have "list_all is_digit (c # cs)" using string_of_nat_digits [of n] Cons by simp
    with takeWhile_digits(1,2) [OF this, of r] False Cons show ?thesis by (simp add: parse_int_part_def)
  qed
qed simp

lemma parse_fraction_digits:
  "list_all is_digit f \<Longrightarrow> f \<noteq> [] \<Longrightarrow> parse_fraction (CHR ''.'' # f) = Some (f, [])"
  by (simp add: parse_fraction_def takeWhile_digits(3,4))

lemma parse_number_decimal:
  assumes f: "list_all is_digit f" "f \<noteq> []" and val: "digits_value (string_of_nat k @ f) = n"
  shows "parse_number ((if neg then ''-'' else '''') @ string_of_nat k @ CHR ''.'' # f) =
    Some (JFloat (scale10 (of_int ((if neg then - 1 else 1) * int n)) (- int (length f))), [])"
proof -
  note parts = parse_int_part_nat [of k f] parse_fraction_digits [OF f]
  have pe: "parse_exponent [] = Some (None, [])" by (simp add: parse_exponent_def)
  show ?thesis
  proof (cases neg)
    case True
    then show ?thesis using val f(2) parts pe by (simp add: parse_number_def Let_def)
  next
    case False
    obtain c cs where s: "string_of_nat k = c # cs" by (cases "string_of_nat k") auto
    have "\<not> is_digit (CHR ''-'')" by (simp add: is_digit_def digit_value_def)
    with string_of_nat_digits [of k] s have c: "string_of_nat k = c # cs" "c \<noteq> CHR ''-''" by auto
    then have "(case string_of_nat k @ CHR ''.'' # f of c # cs \<Rightarrow> c = CHR ''-'' | [] \<Rightarrow> False) = False" by simp
    with False show ?thesis using val f(2) parts pe by (simp add: parse_number_def Let_def)
  qed
qed

definition decimal_value :: "string \<Rightarrow> rat option" where
  "decimal_value s =
     (case parse_number s of Some (JInt i, []) \<Rightarrow> Some (of_int i) | Some (JFloat q, []) \<Rightarrow> Some q | _ \<Rightarrow> None)"

lemma format_f4_value:
  "decimal_value (format_f4 q) =
     Some (of_int ((if q < 0 then - 1 else 1) * int (nat (round_half_even (\<bar>q\<bar> * 10000)))) / 10 ^ 4)"
proof -
  let ?n = "nat (round_half_even (\<bar>q\<bar> * 10000))"
  let ?fr = "string_of_nat (?n mod 10000)"
  let ?frac = "replicate (4 - length ?fr) CHR ''0'' @ ?fr"
  let ?ip = "string_of_nat (?n div 10000)"
  have len: "length ?frac = 4" using string_of_nat_length [of "?n mod 10000" 4] by simp
  have digits: "list_all is_digit ?frac" using string_of_nat_digits [of "?n mod 10000"]
    by (auto simp: list_all_iff is_digit_chars)
  have "nat_of_digits 0 ?frac = Some (?n mod 10000)"
    by (simp add: nat_of_digits_zeros nat_of_digits_string_of_nat)
  then have "nat_of_digits 0 (?ip @ ?frac) = Some ((?n div 10000) * 10 ^ 4 + ?n mod 10000)"
    using nat_of_digits_shift [of ?frac] len
    by (simp only: nat_of_digits_append nat_of_digits_string_of_nat option.case)
  then have val: "digits_value (?ip @ ?frac) = ?n" by (simp add: digits_value_def)
  have ne: "?frac \<noteq> []" using len by auto
  have body: "format_f4 q = (if q < 0 then ''-'' else '''') @ ?ip @ CHR ''.'' # ?frac"
    by (simp add: format_f4_def Let_def)
  have "parse_number (format_f4 q) = Some (JFloat (scale10 (of_int ((if q < 0 then - 1 else 1) * int ?n)) (- 4)), [])"
    using parse_number_decimal [OF digits ne val, of "q < 0"] unfolding body len by simp
  then show ?thesis by (simp add: decimal_value_def scale10_def)
qed

lemma round_half_even_error: "\<bar>of_int (round_half_even q) - q\<bar> \<le> 1 / 2"
  unfolding round_half_even_def Let_def by (auto simp: abs_if) linarith+


lemma format_f4_accurate: "\<exists>v. decimal_value (format_f4 q) = Some v \<and> \<bar>v - q\<bar> \<le> 1 / 20000"
proof -
  let ?r = "round_half_even (\<bar>q\<bar> * 10000)"
  let ?s = "if q < 0 then - 1 else 1 :: rat"
  have e: "\<bar>of_int ?r - \<bar>q\<bar> * 10000\<bar> \<le> 1 / 2" by (rule round_half_even_error)
  have "0 \<le> ?r" by (auto simp: round_half_even_def Let_def)
  then have n: "of_int (int (nat ?r)) = (of_int ?r :: rat)" by simp
  have q: "q = ?s * \<bar>q\<bar>" by simp
  have "decimal_value (format_f4 q) = Some (?s * of_int ?r / 10000)"
    unfolding format_f4_value using n by simp
  moreover have "\<bar>?s * of_int ?r / 10000 - q\<bar> \<le> 1 / 20000"
  proof -
    have "?s * of_int ?r / 10000 - q = ?s * ((of_int ?r - \<bar>q\<bar> * 10000) / 10000)"
      by (simp add: field_simps)
    moreover have "\<bar>?s\<bar> = 1" by simp
    ultimately have "\<bar>?s * of_int ?r / 10000 - q\<bar> = \<bar>of_int ?r - \<bar>q\<bar> * 10000\<bar> / 10000"
      by (simp only: abs_mult abs_divide) simp
    with e show ?thesis by simp
  qed
  ultimately show ?thesis by blast
qed


end
