(* ===== verification/Operator.thy ===== *)
theory Operator
  imports VoiceModelController PipelineController EvalRunController
begin

section \<open>The operator on a cluster\<close>

text \<open>
  The controllers meet in the objects of the cluster. A cluster holds the stored objects by
  namespace and name; \<open>effect\<close> is what the API promises a write changes when it is accepted: the
  status endpoints change the status, the others everything else. \<open>reads_from\<close> says that an
  environment answers every read of a reconciliation from one cluster (the client reads from a
  cache, which does not show the reconciliation's own writes), \<open>accepts\<close> that no write fails.
\<close>

record cluster =
  cl_vms :: "string \<times> string \<Rightarrow> VoiceModel option"
  cl_deployments :: "string \<times> string \<Rightarrow> Deployment option"
  cl_services :: "string \<times> string \<Rightarrow> Service option"
  cl_pipelines :: "string \<times> string \<Rightarrow> InferencePipeline option"
  cl_evalruns :: "string \<times> string \<Rightarrow> EvalRun option"
  cl_workflows :: "string \<times> string \<Rightarrow> Workflow option"

definition obj_key :: "ObjectMeta \<Rightarrow> string \<times> string" where
  "obj_key m = (om_Namespace m, om_Name m)"

definition change :: "'k \<Rightarrow> ('o \<Rightarrow> 'o) \<Rightarrow> ('k \<Rightarrow> 'o option) \<Rightarrow> 'k \<Rightarrow> 'o option" where
  "change k f m = m(k := map_option f (m k))"

definition create :: "'k \<Rightarrow> 'o \<Rightarrow> ('k \<Rightarrow> 'o option) \<Rightarrow> 'k \<Rightarrow> 'o option" where
  "create k x m = (case m k of None \<Rightarrow> m(k \<mapsto> x) | Some y \<Rightarrow> m)"

fun effect :: "api_call \<Rightarrow> cluster \<Rightarrow> cluster" where
  "effect (UpdateVoiceModel vm) c =
     c\<lparr>cl_vms := change (obj_key (vm_Meta vm)) (\<lambda>x. vm\<lparr>vm_Status := vm_Status x\<rparr>) (cl_vms c)\<rparr>"
| "effect (UpdateVoiceModelStatus vm) c =
     c\<lparr>cl_vms := change (obj_key (vm_Meta vm)) (\<lambda>x. x\<lparr>vm_Status := vm_Status vm\<rparr>) (cl_vms c)\<rparr>"
| "effect (CreateDeployment d) c = c\<lparr>cl_deployments := create (obj_key (dp_Meta d)) d (cl_deployments c)\<rparr>"
| "effect (UpdateDeployment d) c =
     c\<lparr>cl_deployments := change (obj_key (dp_Meta d))
        (\<lambda>x. d\<lparr>dp_ReadyReplicas := dp_ReadyReplicas x, dp_Conditions := dp_Conditions x\<rparr>) (cl_deployments c)\<rparr>"
| "effect (CreateService s) c = c\<lparr>cl_services := create (obj_key (svc_Meta s)) s (cl_services c)\<rparr>"
| "effect (UpdateService s) c = c\<lparr>cl_services := change (obj_key (svc_Meta s)) (\<lambda>x. s) (cl_services c)\<rparr>"
| "effect (UpdatePipelineStatus p) c =
     c\<lparr>cl_pipelines := change (obj_key (ip_Meta p)) (\<lambda>x. x\<lparr>ip_Status := ip_Status p\<rparr>) (cl_pipelines c)\<rparr>"
| "effect (UpdateEvalRunStatus e) c =
     c\<lparr>cl_evalruns := change (obj_key (er_Meta e)) (\<lambda>x. x\<lparr>er_Status := er_Status e\<rparr>) (cl_evalruns c)\<rparr>"
| "effect (CreateWorkflow wk) c = c\<lparr>cl_workflows := create (obj_key (wf_Meta wk)) wk (cl_workflows c)\<rparr>"
| "effect _ c = c"

definition effects :: "api_call list \<Rightarrow> cluster \<Rightarrow> cluster" where
  "effects cs c = fold effect cs c"

fun answers :: "'o option \<Rightarrow> api_error + 'o \<Rightarrow> bool" where
  "answers (Some x) r = (r = Inr x)"
| "answers None r = (case r of Inl err \<Rightarrow> IsNotFound err | Inr y \<Rightarrow> False)"

definition reads_from :: "kenv \<Rightarrow> cluster \<Rightarrow> bool" where
  "reads_from K c \<longleftrightarrow> (\<forall>n ns name.
     answers (cl_vms c (ns, name)) (ke_get_voicemodel K n ns name) \<and>
     answers (cl_deployments c (ns, name)) (ke_get_deployment K n ns name) \<and>
     answers (cl_services c (ns, name)) (ke_get_service K n ns name) \<and>
     answers (cl_pipelines c (ns, name)) (ke_get_pipeline K n ns name))"

definition accepts :: "kenv \<Rightarrow> bool" where
  "accepts K \<longleftrightarrow> (\<forall>n call vm owner m fs f.
     ke_write_error K n call = None \<and> ke_update_voicemodel K n vm = Inr vm \<and>
     (\<exists>m'. ke_set_owner K owner m = Inr m' \<and> obj_key m' = obj_key m) \<and>
     ke_has_finalizer K fs f = (f \<in> set fs) \<and> f \<in> set (ke_add_finalizer K fs f))"

definition well_named :: "cluster \<Rightarrow> bool" where
  "well_named c \<longleftrightarrow> (\<forall>k vm d s. (cl_vms c k = Some vm \<longrightarrow> obj_key (vm_Meta vm) = k) \<and>
     (cl_deployments c k = Some d \<longrightarrow> obj_key (dp_Meta d) = k) \<and>
     (cl_services c k = Some s \<longrightarrow> obj_key (svc_Meta s) = k))"

lemma answersD: "answers (Some x) r \<Longrightarrow> r = Inr x" "answers None r \<Longrightarrow> \<exists>err. r = Inl err \<and> IsNotFound err"
  by (auto split: sum.splits)

text \<open>A model whose pods run: it is not being deleted and its Deployment has the replicas it asks
  for.\<close>

definition pods_running :: "cluster \<Rightarrow> string \<Rightarrow> string \<Rightarrow> bool" where
  "pods_running c ns name \<longleftrightarrow> (\<exists>vm d. cl_vms c (ns, name) = Some vm \<and>
     om_DeletionTimestamp (vm_Meta vm) = None \<and>
     cl_deployments c (ns, deploymentName vm) = Some d \<and> desired_replicas vm \<le> dp_ReadyReplicas d)"

subsection \<open>Reconciling a model whose pods run\<close>

definition ready_status :: "VoiceModel \<Rightarrow> Deployment \<Rightarrow> instant \<Rightarrow> VoiceModelStatus" where
  "ready_status vm d now = vm_Status (vm_with_phase (replicas_message (dp_ReadyReplicas d) (desired_replicas vm)) PhaseReady now
     (vm\<lparr>vm_Status := (vm_Status vm)\<lparr>vt_ReadyReplicas := dp_ReadyReplicas d, vt_Endpoint := endpoint_of vm\<rparr>\<rparr>))"

lemma ready_status_fields [simp]:
  "vt_Phase (ready_status vm d now) = PhaseReady"
  "vt_Endpoint (ready_status vm d now) = endpoint_of vm"
  by (simp_all add: ready_status_def vm_with_phase_def Let_def)

definition service_write :: "kenv \<Rightarrow> cluster \<Rightarrow> VoiceModel \<Rightarrow> api_call" where
  "service_write K c vm =
     (case cl_services c (om_Namespace (vm_Meta vm), serviceName vm) of
        None \<Rightarrow> CreateService ((buildService vm)\<lparr>svc_Meta := projr (ke_set_owner K (vm_Meta vm) (svc_Meta (buildService vm)))\<rparr>)
      | Some s \<Rightarrow> UpdateService (s\<lparr>svc_Spec := (svc_Spec (buildService vm))\<lparr>ss_ClusterIP := ss_ClusterIP (svc_Spec s)\<rparr>\<rparr>))"

lemma reads_fromD:
  assumes "reads_from K c"
  shows "cl_vms c (ns, name) = Some vm \<Longrightarrow> ke_get_voicemodel K n ns name = Inr vm"
    and "cl_deployments c (ns, name) = Some d \<Longrightarrow> ke_get_deployment K n ns name = Inr d"
    and "cl_services c (ns, name) = Some s \<Longrightarrow> ke_get_service K n ns name = Inr s"
    and "cl_services c (ns, name) = None \<Longrightarrow> \<exists>err. ke_get_service K n ns name = Inl err \<and> IsNotFound err"
    and "cl_pipelines c (ns, name) = Some p \<Longrightarrow> ke_get_pipeline K n ns name = Inr p"
  using assms unfolding reads_from_def by (metis answersD)+

lemma acceptsD:
  assumes "accepts K"
  shows "ke_write_error K n call = None" "ke_update_voicemodel K n vm = Inr vm"
    "\<exists>m'. ke_set_owner K owner m = Inr m' \<and> obj_key m' = obj_key m"
    "ke_has_finalizer K fs f = (f \<in> set fs)" "f \<in> set (ke_add_finalizer K fs f)"
  using assms unfolding accepts_def by blast+

lemma steps_calls:
  assumes reads: "reads_from K c" and acc: "accepts K"
    and d: "cl_deployments c (om_Namespace (vm_Meta vm), deploymentName vm) = Some d"
    and ready: "desired_replicas vm \<le> dp_ReadyReplicas d"
    and r: "reconcile_voicemodel_steps K vm w = (res, w')"
  shows "\<exists>g1 g2 g3. kw_calls w' = kw_calls w @ [g1, UpdateDeployment (d\<lparr>dp_Spec := dp_Spec (buildDeployment vm)\<rparr>), g2,
      service_write K c vm, g3, UpdateVoiceModelStatus (vm\<lparr>vm_Status := ready_status vm d (ke_clk K (kw_clock w))\<rparr>)] \<and>
    (\<forall>x. effect g1 x = x \<and> effect g2 x = x \<and> effect g3 x = x) \<and> res = Inr None"
proof -
  let ?ns = "om_Namespace (vm_Meta vm)"
  let ?gd = "GetDeployment ?ns (deploymentName vm)" and ?gs = "GetService ?ns (serviceName vm)"
  let ?ud = "UpdateDeployment (d\<lparr>dp_Spec := dp_Spec (buildDeployment vm)\<rparr>)"
  note gd = reads_fromD(2) [OF reads d]
  obtain m where m: "ke_set_owner K (vm_Meta vm) (dp_Meta (buildDeployment vm)) = Inr m"
    using acceptsD(3) [OF acc] by blast
  obtain m2 where m2: "ke_set_owner K (vm_Meta vm) (svc_Meta (buildService vm)) = Inr m2"
    using acceptsD(3) [OF acc] by blast
  have s1: "reconcileDeployment K vm w = (None, record_call ?ud (record_call ?gd w))"
    using m gd acceptsD(1) [OF acc] by (simp add: reconcileDeployment_def get_deployment_def kube_write_def Let_def)
  have s2: "reconcileService K vm v = (None, record_call (service_write K c vm) (record_call ?gs v))" for v
  proof (cases "cl_services c (?ns, serviceName vm)")
    case None
    from reads_fromD(4) [OF reads None] obtain err where
      "ke_get_service K (call_no v) ?ns (serviceName vm) = Inl err" "IsNotFound err" by blast
    with None m2 acceptsD(1) [OF acc] show ?thesis
      by (simp add: reconcileService_def get_service_def kube_write_def service_write_def Let_def)
  next
    case (Some s)
    with m2 reads_fromD(3) [OF reads Some] acceptsD(1) [OF acc] show ?thesis
      by (simp add: reconcileService_def get_service_def kube_write_def service_write_def Let_def)
  qed
  let ?v = "record_call (service_write K c vm) (record_call ?gs (record_call ?ud (record_call ?gd w)))"
  have "updateStatus K vm ?v = (res, w')"
    using r s1 s2 by (simp add: reconcile_voicemodel_steps_def)
  then have "res = Inr None \<and> w' = record_call (UpdateVoiceModelStatus (vm\<lparr>vm_Status := ready_status vm d (ke_clk K (kw_clock w))\<rparr>))
      (record_call ?gd (?v\<lparr>kw_clock := Suc (kw_clock w)\<rparr>))"
    using gd ready acceptsD(1) [OF acc]
    by (auto simp: updateStatus_def get_deployment_def setPhase_def kube_now_def kube_write_def ready_status_def
        desired_replicas_def vm_with_phase_def record_call_def Let_def)
  then show ?thesis
    by (intro exI [of _ ?gd] exI [of _ ?gs]) (simp add: record_call_def)
qed


lemma change_some [simp]: "m k = Some x \<Longrightarrow> change k f m = m(k \<mapsto> f x)"
  by (simp add: change_def)

lemma effects_simps [simp]:
  "effects [] c = c" "effects (x # cs) c = effects cs (effect x c)" "effects (xs @ ys) c = effects ys (effects xs c)"
  by (simp_all add: effects_def)

text \<open>Adding the finalizer changes nothing that the objects are built from.\<close>

lemma with_finalizers [simp]:
  "buildDeployment (vm\<lparr>vm_Meta := (vm_Meta vm)\<lparr>om_Finalizers := fs\<rparr>\<rparr>) = buildDeployment vm"
  "buildService (vm\<lparr>vm_Meta := (vm_Meta vm)\<lparr>om_Finalizers := fs\<rparr>\<rparr>) = buildService vm"
  "deploymentName (vm\<lparr>vm_Meta := (vm_Meta vm)\<lparr>om_Finalizers := fs\<rparr>\<rparr>) = deploymentName vm"
  "serviceName (vm\<lparr>vm_Meta := (vm_Meta vm)\<lparr>om_Finalizers := fs\<rparr>\<rparr>) = serviceName vm"
  "desired_replicas (vm\<lparr>vm_Meta := (vm_Meta vm)\<lparr>om_Finalizers := fs\<rparr>\<rparr>) = desired_replicas vm"
  "endpoint_of (vm\<lparr>vm_Meta := (vm_Meta vm)\<lparr>om_Finalizers := fs\<rparr>\<rparr>) = endpoint_of vm"
  by (simp_all add: buildDeployment_def buildService_def deploymentName_def serviceName_def desired_replicas_def
      endpoint_of_def labelsForVoiceModel_def getPort_def Let_def)

definition fitting_service :: "VoiceModel \<Rightarrow> Service \<Rightarrow> bool" where
  "fitting_service vm s \<longleftrightarrow>
     svc_Spec s = (svc_Spec (buildService vm))\<lparr>ss_ClusterIP := ss_ClusterIP (svc_Spec s)\<rparr>"

lemma service_write_effect:
  assumes "accepts K" and "well_named c" and that: "cl_services x = cl_services c"
  shows "\<exists>s. effect (service_write K c vm) x = x\<lparr>cl_services := (cl_services c)((om_Namespace (vm_Meta vm), serviceName vm) \<mapsto> s)\<rparr> \<and>
      obj_key (svc_Meta s) = (om_Namespace (vm_Meta vm), serviceName vm) \<and> fitting_service vm s \<and>
      (\<forall>s0. cl_services c (om_Namespace (vm_Meta vm), serviceName vm) = Some s0 \<longrightarrow> fitting_service vm s0 \<longrightarrow> s = s0)"
proof (cases "cl_services c (om_Namespace (vm_Meta vm), serviceName vm)")
  case None
  obtain m where m: "ke_set_owner K (vm_Meta vm) (svc_Meta (buildService vm)) = Inr m"
    "obj_key m = obj_key (svc_Meta (buildService vm))"
    using acceptsD(3) [OF assms(1)] by blast
  then have k: "obj_key m = (om_Namespace (vm_Meta vm), serviceName vm)"
    by (simp add: buildService_def object_meta_def obj_key_def Let_def)
  have ip: "ss_ClusterIP (svc_Spec (buildService vm)) = ''''" by (simp add: buildService_def Let_def)
  show ?thesis
    using None that m k ip
    by (intro exI [of _ "(buildService vm)\<lparr>svc_Meta := m\<rparr>"])
       (simp add: service_write_def create_def fitting_service_def)
next
  case (Some s)
  then have "obj_key (svc_Meta s) = (om_Namespace (vm_Meta vm), serviceName vm)"
    using assms(2) unfolding well_named_def by blast
  with Some that show ?thesis
    by (intro exI [of _ "s\<lparr>svc_Spec := (svc_Spec (buildService vm))\<lparr>ss_ClusterIP := ss_ClusterIP (svc_Spec s)\<rparr>\<rparr>"])
       (auto simp: service_write_def fitting_service_def)
qed

definition with_finalizer :: "kenv \<Rightarrow> VoiceModel \<Rightarrow> VoiceModel" where
  "with_finalizer K vm =
     (if finalizerName \<in> set (om_Finalizers (vm_Meta vm)) then vm
      else vm\<lparr>vm_Meta := (vm_Meta vm)\<lparr>om_Finalizers := ke_add_finalizer K (om_Finalizers (vm_Meta vm)) finalizerName\<rparr>\<rparr>)"

lemma with_finalizer_simps [simp]:
  "buildDeployment (with_finalizer K vm) = buildDeployment vm"
  "buildService (with_finalizer K vm) = buildService vm"
  "deploymentName (with_finalizer K vm) = deploymentName vm"
  "serviceName (with_finalizer K vm) = serviceName vm"
  "desired_replicas (with_finalizer K vm) = desired_replicas vm"
  "endpoint_of (with_finalizer K vm) = endpoint_of vm"
  "vm_Spec (with_finalizer K vm) = vm_Spec vm"
  "vm_Status (with_finalizer K vm) = vm_Status vm"
  "om_Namespace (vm_Meta (with_finalizer K vm)) = om_Namespace (vm_Meta vm)"
  "om_Name (vm_Meta (with_finalizer K vm)) = om_Name (vm_Meta vm)"
  "om_DeletionTimestamp (vm_Meta (with_finalizer K vm)) = om_DeletionTimestamp (vm_Meta vm)"
  "obj_key (vm_Meta (with_finalizer K vm)) = obj_key (vm_Meta vm)"
  by (simp_all add: with_finalizer_def obj_key_def)

lemma with_finalizer_status [simp]:
  "(with_finalizer K vm)\<lparr>vm_Status := vm_Status vm\<rparr> = with_finalizer K vm"
  by (simp add: with_finalizer_def)

lemma reconcile_to_steps:
  assumes reads: "reads_from K c" and acc: "accepts K" and vm: "cl_vms c (ns, name) = Some vm"
    and live: "om_DeletionTimestamp (vm_Meta vm) = None"
    and r: "VoiceModel_Reconcile K (ns, name) w = (res, w')"
  shows "\<exists>pre v. kw_calls v = kw_calls w @ pre \<and> kw_clock v = kw_clock w \<and>
    reconcile_voicemodel_steps K (with_finalizer K vm) v = (res, w') \<and>
    (\<forall>x. cl_vms x (obj_key (vm_Meta vm)) = Some vm \<longrightarrow>
       effects pre x = x\<lparr>cl_vms := (cl_vms x)(obj_key (vm_Meta vm) \<mapsto> with_finalizer K vm)\<rparr>)"
proof -
  let ?g = "GetVoiceModel ns name"
  note g = reads_fromD(1) [OF reads vm]
  show ?thesis
  proof (cases "finalizerName \<in> set (om_Finalizers (vm_Meta vm))")
    case True
    with r g live acceptsD(4) [OF acc] have "reconcile_voicemodel_steps K (with_finalizer K vm) (record_call ?g w) = (res, w')"
      by (simp add: VoiceModel_Reconcile_def get_voicemodel_def with_finalizer_def)
    moreover have "with_finalizer K vm = vm" using True by (simp add: with_finalizer_def)
    ultimately show ?thesis
      by (intro exI [of _ "[?g]"] exI [of _ "record_call ?g w"]) (simp add: record_call_def fun_upd_idem)
  next
    case False
    let ?u = "UpdateVoiceModel (with_finalizer K vm)"
    let ?v = "record_call ?u (record_call ?g w)"
    from r g live False acceptsD(4) [OF acc] acceptsD(2) [OF acc]
    have "reconcile_voicemodel_steps K (with_finalizer K vm) ?v = (res, w')"
      by (simp add: VoiceModel_Reconcile_def get_voicemodel_def update_voicemodel_def with_finalizer_def Let_def)
    then show ?thesis
      by (intro exI [of _ "[?g, ?u]"] exI [of _ ?v]) (simp add: record_call_def)
  qed
qed


text \<open>What one reconciliation makes of the cluster.\<close>

lemma reconcile_running_effects:
  assumes reads: "reads_from K c" and acc: "accepts K" and wn: "well_named c"
    and vm: "cl_vms c (ns, name) = Some vm" and live: "om_DeletionTimestamp (vm_Meta vm) = None"
    and d: "cl_deployments c (ns, deploymentName vm) = Some d" and ready: "desired_replicas vm \<le> dp_ReadyReplicas d"
    and r: "VoiceModel_Reconcile K (ns, name) w = (res, w')" and cs: "kw_calls w' = kw_calls w @ cs"
  shows "\<exists>s. effects cs c = c
      \<lparr>cl_vms := (cl_vms c)((ns, name) \<mapsto>
          (with_finalizer K vm)\<lparr>vm_Status := ready_status (with_finalizer K vm) d (ke_clk K (kw_clock w))\<rparr>),
       cl_deployments := (cl_deployments c)((ns, deploymentName vm) \<mapsto> d\<lparr>dp_Spec := dp_Spec (buildDeployment vm)\<rparr>),
       cl_services := (cl_services c)((ns, serviceName vm) \<mapsto> s)\<rparr> \<and>
     obj_key (svc_Meta s) = (ns, serviceName vm) \<and> fitting_service vm s \<and>
     (\<forall>s0. cl_services c (ns, serviceName vm) = Some s0 \<longrightarrow> fitting_service vm s0 \<longrightarrow> s = s0) \<and> res = Inr None"
proof -
  let ?vm = "with_finalizer K vm"
  have key: "obj_key (vm_Meta vm) = (ns, name)" and dkey: "obj_key (dp_Meta d) = (ns, deploymentName vm)"
    using wn vm d unfolding well_named_def by blast+
  then have ns: "om_Namespace (vm_Meta vm) = ns" by (simp add: obj_key_def)
  obtain pre v where pre: "kw_calls v = kw_calls w @ pre" "kw_clock v = kw_clock w"
    "reconcile_voicemodel_steps K ?vm v = (res, w')"
    "effects pre c = c\<lparr>cl_vms := (cl_vms c)((ns, name) \<mapsto> ?vm)\<rparr>"
    using reconcile_to_steps [OF reads acc vm live r] key vm by fastforce
  have "cl_deployments c (om_Namespace (vm_Meta ?vm), deploymentName ?vm) = Some d" using d ns by simp
  from steps_calls [OF reads acc this _ pre(3)] ready obtain g1 g2 g3 where
    calls: "kw_calls w' = kw_calls v @ [g1, UpdateDeployment (d\<lparr>dp_Spec := dp_Spec (buildDeployment vm)\<rparr>), g2,
      service_write K c ?vm, g3, UpdateVoiceModelStatus (?vm\<lparr>vm_Status := ready_status ?vm d (ke_clk K (kw_clock w))\<rparr>)]"
    and g: "\<forall>x. effect g1 x = x \<and> effect g2 x = x \<and> effect g3 x = x" and res: "res = Inr None"
    using pre(2) by auto
  let ?c2 = "c\<lparr>cl_vms := (cl_vms c)((ns, name) \<mapsto> ?vm),
      cl_deployments := (cl_deployments c)((ns, deploymentName vm) \<mapsto> d\<lparr>dp_Spec := dp_Spec (buildDeployment vm)\<rparr>)\<rparr>"
  obtain s where s: "effect (service_write K c ?vm) ?c2 = ?c2\<lparr>cl_services := (cl_services c)((ns, serviceName vm) \<mapsto> s)\<rparr>"
    "obj_key (svc_Meta s) = (ns, serviceName vm)" "fitting_service vm s"
    "\<forall>s0. cl_services c (ns, serviceName vm) = Some s0 \<longrightarrow> fitting_service vm s0 \<longrightarrow> s = s0"
    using service_write_effect [OF acc wn, of ?c2 ?vm] ns by (auto simp: fitting_service_def)
  have "cs = pre @ [g1, UpdateDeployment (d\<lparr>dp_Spec := dp_Spec (buildDeployment vm)\<rparr>), g2,
      service_write K c ?vm, g3, UpdateVoiceModelStatus (?vm\<lparr>vm_Status := ready_status ?vm d (ke_clk K (kw_clock w))\<rparr>)]"
    using cs calls pre(1) by simp
  then have "effects cs c = effect (UpdateVoiceModelStatus (?vm\<lparr>vm_Status := ready_status ?vm d (ke_clk K (kw_clock w))\<rparr>))
      (effect (service_write K c ?vm) ?c2)"
    using pre(4) g d dkey by simp
  with s res key show ?thesis by (intro exI [of _ s]) simp
qed


lemma with_status [simp]:
  "buildDeployment (vm\<lparr>vm_Status := st\<rparr>) = buildDeployment vm"
  "buildService (vm\<lparr>vm_Status := st\<rparr>) = buildService vm"
  "deploymentName (vm\<lparr>vm_Status := st\<rparr>) = deploymentName vm"
  "serviceName (vm\<lparr>vm_Status := st\<rparr>) = serviceName vm"
  "desired_replicas (vm\<lparr>vm_Status := st\<rparr>) = desired_replicas vm"
  "endpoint_of (vm\<lparr>vm_Status := st\<rparr>) = endpoint_of vm"
  by (simp_all add: buildDeployment_def buildService_def deploymentName_def serviceName_def desired_replicas_def
      endpoint_of_def labelsForVoiceModel_def getPort_def Let_def)

lemma fitting_service_status [simp]:
  "fitting_service (vm\<lparr>vm_Status := st\<rparr>) s = fitting_service vm s"
  "fitting_service (with_finalizer K vm) s = fitting_service vm s"
  by (simp_all add: fitting_service_def)

lemma finalizer_added: "accepts K \<Longrightarrow> finalizerName \<in> set (om_Finalizers (vm_Meta (with_finalizer K vm)))"
  by (simp add: with_finalizer_def acceptsD(5))

lemma ready_status_again:
  "dp_ReadyReplicas d' = dp_ReadyReplicas d \<Longrightarrow>
   ready_status (vm\<lparr>vm_Status := ready_status vm d t\<rparr>) d' t' = ready_status vm d t"
  by (simp add: ready_status_def vm_with_phase_def Let_def)

lemma well_named_running:
  assumes "well_named c" and "obj_key (vm_Meta vm') = (ns, name)" and "obj_key (dp_Meta d') = (ns, dname)"
    and "obj_key (svc_Meta s) = (ns, sname)"
  shows "well_named (c\<lparr>cl_vms := (cl_vms c)((ns, name) \<mapsto> vm'), cl_deployments := (cl_deployments c)((ns, dname) \<mapsto> d'),
     cl_services := (cl_services c)((ns, sname) \<mapsto> s)\<rparr>)"
  using assms unfolding well_named_def by simp

text \<open>C7: reconciling is idempotent. When the pods of a model run, whatever the cluster held before, one
  reconciliation against an API server that accepts its writes brings the cluster into a state
  that a further reconciliation, at any later time, leaves exactly as it is: it writes the same
  Deployment, Service and status again. The stored status is \<open>Ready\<close> with the Service's endpoint, and
  no timer is left running.\<close>

theorem VoiceModel_converges:
  assumes "well_named c" and "pods_running c ns name"
    and "reads_from K c" and "accepts K" and "VoiceModel_Reconcile K (ns, name) w = (res, w')"
    and "kw_calls w' = kw_calls w @ cs"
    and "reads_from K2 (effects cs c)" and "accepts K2" and "VoiceModel_Reconcile K2 (ns, name) v = (res2, v')"
    and "kw_calls v' = kw_calls v @ cs2"
  shows "effects cs2 (effects cs c) = effects cs c \<and> res = Inr None \<and> res2 = Inr None \<and>
    (\<exists>vm. cl_vms (effects cs c) (ns, name) = Some vm \<and> vt_Phase (vm_Status vm) = PhaseReady \<and>
       vt_Endpoint (vm_Status vm) = endpoint_of vm)"
proof -
  from assms(2) obtain vm d where vm: "cl_vms c (ns, name) = Some vm" "om_DeletionTimestamp (vm_Meta vm) = None"
    and d: "cl_deployments c (ns, deploymentName vm) = Some d" "desired_replicas vm \<le> dp_ReadyReplicas d"
    unfolding pods_running_def by blast
  let ?vm = "(with_finalizer K vm)\<lparr>vm_Status := ready_status (with_finalizer K vm) d (ke_clk K (kw_clock w))\<rparr>"
  let ?d = "d\<lparr>dp_Spec := dp_Spec (buildDeployment vm)\<rparr>"
  from reconcile_running_effects [OF assms(3,4,1) vm d assms(5,6)] obtain s where
    c': "effects cs c = c\<lparr>cl_vms := (cl_vms c)((ns, name) \<mapsto> ?vm), cl_deployments := (cl_deployments c)((ns, deploymentName vm) \<mapsto> ?d),
       cl_services := (cl_services c)((ns, serviceName vm) \<mapsto> s)\<rparr>" (is "_ = ?c")
    and s: "obj_key (svc_Meta s) = (ns, serviceName vm)" "fitting_service vm s" and res: "res = Inr None"
    by blast
  have keys: "obj_key (vm_Meta vm) = (ns, name)" "obj_key (dp_Meta d) = (ns, deploymentName vm)"
    using assms(1) vm d unfolding well_named_def by blast+
  have wn: "well_named ?c" by (rule well_named_running [OF assms(1)]) (simp_all add: keys s)
  have vm': "cl_vms ?c (ns, name) = Some ?vm" "om_DeletionTimestamp (vm_Meta ?vm) = None" using vm by simp_all
  have d': "cl_deployments ?c (ns, deploymentName ?vm) = Some ?d" "desired_replicas ?vm \<le> dp_ReadyReplicas ?d"
    using d by simp_all
  have s': "cl_services ?c (ns, serviceName ?vm) = Some s" by simp
  have fin: "with_finalizer K2 ?vm = ?vm"
    using finalizer_added [OF assms(4), of vm] by (simp add: with_finalizer_def [of K2])
  from reconcile_running_effects [OF assms(7) [unfolded c'] assms(8) wn vm' d' assms(9,10)] s s' obtain s2 where
    "effects cs2 ?c = ?c\<lparr>cl_vms := (cl_vms ?c)((ns, name) \<mapsto> ?vm\<lparr>vm_Status := ready_status ?vm ?d (ke_clk K2 (kw_clock v))\<rparr>),
       cl_deployments := (cl_deployments ?c)((ns, deploymentName ?vm) \<mapsto> ?d\<lparr>dp_Spec := dp_Spec (buildDeployment ?vm)\<rparr>),
       cl_services := (cl_services ?c)((ns, serviceName ?vm) \<mapsto> s2)\<rparr>" "s2 = s" "res2 = Inr None"
    unfolding fin by (metis fitting_service_status)
  then have "effects cs2 ?c = ?c \<and> res2 = Inr None" by (simp add: ready_status_again)
  with c' res show ?thesis by simp
qed


subsection \<open>Models and pipelines together\<close>

text \<open>The models of a list of names are reconciled one after the other, each reconciliation reading
  from the cluster the earlier ones left.\<close>

inductive models_reconciled :: "string \<Rightarrow> cluster \<Rightarrow> string list \<Rightarrow> cluster \<Rightarrow> bool" for ns where
  no_model: "models_reconciled ns c [] c"
| one_model: "reads_from K c \<Longrightarrow> accepts K \<Longrightarrow> VoiceModel_Reconcile K (ns, name) w = (res, w') \<Longrightarrow>
    kw_calls w' = kw_calls w @ cs \<Longrightarrow> models_reconciled ns (effects cs c) names c' \<Longrightarrow>
    models_reconciled ns c (name # names) c'"

definition serves_model :: "cluster \<Rightarrow> string \<Rightarrow> string \<Rightarrow> bool" where
  "serves_model c ns name \<longleftrightarrow> (\<exists>vm. cl_vms c (ns, name) = Some vm \<and> vt_Phase (vm_Status vm) = PhaseReady \<and>
     vt_Endpoint (vm_Status vm) = endpoint_of vm)"

lemma reconcile_one_model:
  assumes "well_named c" and "pods_running c ns name"
    and "reads_from K c" and "accepts K" and "VoiceModel_Reconcile K (ns, name) w = (res, w')"
    and "kw_calls w' = kw_calls w @ cs"
  shows "well_named (effects cs c)" and "serves_model (effects cs c) ns name"
    and "pods_running c ns other \<Longrightarrow> pods_running (effects cs c) ns other"
    and "serves_model c ns other \<Longrightarrow> serves_model (effects cs c) ns other"
    and "cl_pipelines (effects cs c) = cl_pipelines c"
proof -
  from assms(2) obtain vm d where vm: "cl_vms c (ns, name) = Some vm" "om_DeletionTimestamp (vm_Meta vm) = None"
    and d: "cl_deployments c (ns, deploymentName vm) = Some d" "desired_replicas vm \<le> dp_ReadyReplicas d"
    unfolding pods_running_def by blast
  let ?vm = "(with_finalizer K vm)\<lparr>vm_Status := ready_status (with_finalizer K vm) d (ke_clk K (kw_clock w))\<rparr>"
  let ?d = "d\<lparr>dp_Spec := dp_Spec (buildDeployment vm)\<rparr>"
  from reconcile_running_effects [OF assms(3,4,1) vm d assms(5,6)] obtain s where
    c': "effects cs c = c\<lparr>cl_vms := (cl_vms c)((ns, name) \<mapsto> ?vm), cl_deployments := (cl_deployments c)((ns, deploymentName vm) \<mapsto> ?d),
       cl_services := (cl_services c)((ns, serviceName vm) \<mapsto> s)\<rparr>" (is "_ = ?c")
    and s: "obj_key (svc_Meta s) = (ns, serviceName vm)"
    by blast
  have keys: "obj_key (vm_Meta vm) = (ns, name)" "obj_key (dp_Meta d) = (ns, deploymentName vm)"
    using assms(1) vm d unfolding well_named_def by blast+
  show "well_named (effects cs c)"
    unfolding c' by (rule well_named_running [OF assms(1)]) (simp_all add: keys s)
  show "serves_model (effects cs c) ns name" unfolding c' serves_model_def by simp
  show "serves_model (effects cs c) ns other" if "serves_model c ns other"
    using that unfolding c' serves_model_def by (cases "other = name") auto
  show "cl_pipelines (effects cs c) = cl_pipelines c" unfolding c' by simp
  show "pods_running (effects cs c) ns other" if o: "pods_running c ns other"
  proof -
    from o obtain vm2 d2 where vm2: "cl_vms c (ns, other) = Some vm2" "om_DeletionTimestamp (vm_Meta vm2) = None"
      and d2: "cl_deployments c (ns, deploymentName vm2) = Some d2" "desired_replicas vm2 \<le> dp_ReadyReplicas d2"
      unfolding pods_running_def by blast
    show ?thesis
    proof (cases "other = name")
      case True
      with vm d show ?thesis unfolding c' pods_running_def by simp
    next
      case False
      then have "deploymentName vm2 \<noteq> deploymentName vm"
      proof -
        have "obj_key (vm_Meta vm2) = (ns, other)" using vm2(1) assms(1) unfolding well_named_def by blast
        with keys(1) False show ?thesis by (simp add: deploymentName_def obj_key_def)
      qed
      with False vm2 d2 show ?thesis unfolding c' pods_running_def
        by (intro exI [of _ vm2] exI [of _ d2]) simp
    qed
  qed
qed

lemma models_reconciled_serve:
  assumes "models_reconciled ns c names c'" and "well_named c" and "\<forall>name \<in> set names. pods_running c ns name"
  shows "well_named c' \<and> (\<forall>name. name \<in> set names \<or> serves_model c ns name \<longrightarrow> serves_model c' ns name) \<and>
    cl_pipelines c' = cl_pipelines c"
  using assms
proof (induction rule: models_reconciled.induct)
  case (no_model c)
  then show ?case by simp
next
  case (one_model K c name w res w' cs names c')
  have run: "pods_running c ns name" using one_model.prems by simp
  note one = reconcile_one_model [OF one_model.prems(1) run one_model.hyps(1-4)]
  have "\<forall>x \<in> set names. pods_running (effects cs c) ns x" using one(3) one_model.prems(2) by simp
  from one_model.IH [OF one(1) this] one(2,4,5) show ?case by auto
qed

lemma lookups_serving:
  assumes "reads_from K c" and "\<forall>stage \<in> set stages. stage_enabled stage \<longrightarrow> serves_model c ns (ps_Model stage)"
  shows "lookups K ns n stages = map (\<lambda>stage. if stage_enabled stage
     then Some (Serving (endpoint_of (the (cl_vms c (ns, ps_Model stage))))) else None) stages"
  using assms(2)
proof (induction stages arbitrary: n)
  case (Cons stage stages)
  show ?case
  proof (cases "stage_enabled stage")
    case True
    with Cons.prems obtain vm where "cl_vms c (ns, ps_Model stage) = Some vm" "vt_Phase (vm_Status vm) = PhaseReady"
      "vt_Endpoint (vm_Status vm) = endpoint_of vm"
      unfolding serves_model_def by auto
    with reads_fromD(1) [OF assms(1)] True Cons show ?thesis by (simp add: stage_lookup_def)
  qed (use Cons in simp)
qed simp

definition stage_served :: "cluster \<Rightarrow> string \<Rightarrow> PipelineStage \<Rightarrow> PipelineStageStatus \<Rightarrow> bool" where
  "stage_served c ns stage st \<longleftrightarrow> pt_Name st = ps_Name stage \<and> pt_ModelRef st = ps_Model stage \<and>
     pt_Ready st = stage_enabled stage \<and>
     pt_Endpoint st = (if stage_enabled stage then endpoint_of (the (cl_vms c (ns, ps_Model stage))) else '''')"

text \<open>C6: the controllers work together. Take any cluster in which the pods of the models run that a
  pipeline's enabled stages name, reconcile these models (and perhaps others that run), each once
  and in any order, and then the pipeline: its status becomes \<open>Ready\<close>, every enabled stage is
  ready with the address of its model's Service, and no timer is left running.\<close>

theorem operator_makes_pipeline_ready:
  assumes "well_named c" and "models_reconciled ns c names c'" and "\<forall>name \<in> set names. pods_running c ns name"
    and "cl_pipelines c (ns, pname) = Some p" and "om_Namespace (ip_Meta p) = ns" and "om_DeletionTimestamp (ip_Meta p) = None"
    and "\<forall>stage \<in> set (ip_Stages p). stage_enabled stage \<longrightarrow> ps_Model stage \<in> set names"
    and "reads_from K c'" and "accepts K" and "InferencePipeline_Reconcile K (ns, pname) w = (res, w')"
  shows "\<exists>st. kw_calls w' = kw_calls w @ [GetPipeline ns pname] @ gets ns (ip_Stages p) @ [UpdatePipelineStatus (p\<lparr>ip_Status := st\<rparr>)] \<and>
    is_Phase st = PipelinePhaseReady \<and> list_all2 (stage_served c' ns) (ip_Stages p) (is_Stages st) \<and> res = Inr None"
proof -
  from models_reconciled_serve [OF assms(2,1,3)] assms(7)
  have served: "\<forall>stage \<in> set (ip_Stages p). stage_enabled stage \<longrightarrow> serves_model c' ns (ps_Model stage)"
    and pipes: "cl_pipelines c' = cl_pipelines c" by blast+
  note ls = lookups_serving [OF assms(8) served]
  have g: "ke_get_pipeline K (call_no w) ns pname = Inr p"
    using reads_fromD(5) [OF assms(8)] assms(4) pipes by simp
  from pipeline_reconcile_calls [OF assms(10) g assms(6), unfolded assms(5) ls Let_def] obtain st where
    calls: "kw_calls w' = kw_calls w @ [GetPipeline ns pname] @ gets ns (ip_Stages p) @ [UpdatePipelineStatus (p\<lparr>ip_Status := st\<rparr>)]"
    and ph: "is_Phase st = phase_of_lookups (map (\<lambda>stage. if stage_enabled stage
     then Some (Serving (endpoint_of (the (cl_vms c' (ns, ps_Model stage))))) else None) (ip_Stages p))"
    and sts: "list_all2 (\<lambda>(stage, l) s. status_matches stage l s) (zip (ip_Stages p) (map (\<lambda>stage. if stage_enabled stage
     then Some (Serving (endpoint_of (the (cl_vms c' (ns, ps_Model stage))))) else None) (ip_Stages p))) (is_Stages st)"
    and res: "\<forall>r. res = Inr r \<longrightarrow> r =
      (if is_Phase st = PipelinePhaseReady \<or> is_Phase st = PipelinePhaseFailed then None else Some requeue_delay)"
    by blast
  have ready: "is_Phase st = PipelinePhaseReady"
    unfolding ph by (auto simp: phase_of_lookups_def list_all_iff)
  have "list_all2 (stage_served c' ns) (ip_Stages p) (is_Stages st)"
    using sts by (auto simp: list_all2_conv_all_nth stage_served_def status_matches_def split: if_splits)
  moreover have "\<exists>r. res = Inr r"
    using assms(10) g assms(6) acceptsD(1) [OF assms(9)]
    by (auto simp: InferencePipeline_Reconcile_def get_pipeline_def reconcileStages_def setPipelineStatus_def
        kube_write_def Let_def split: prod.splits)
  ultimately show ?thesis using calls ready res by (intro exI [of _ st]) auto
qed


subsection \<open>A concrete cluster\<close>

fun found :: "'o option \<Rightarrow> api_error + 'o" where
  "found (Some x) = Inr x"
| "found None = Inl (NotFoundError ''not found'')"

definition cluster_kenv :: "cluster \<Rightarrow> kenv" where
  "cluster_kenv c = (example_kenv [] [] [] [] [])
     \<lparr>ke_get_voicemodel := (\<lambda>n ns name. found (cl_vms c (ns, name))),
      ke_get_deployment := (\<lambda>n ns name. found (cl_deployments c (ns, name))),
      ke_get_service := (\<lambda>n ns name. found (cl_services c (ns, name))),
      ke_get_pipeline := (\<lambda>n ns name. found (cl_pipelines c (ns, name)))\<rparr>"

lemma answers_found: "answers x (found x)"
  by (cases x) simp_all

lemma cluster_kenv_laws: "reads_from (cluster_kenv c) c" "accepts (cluster_kenv c)"
  by (simp_all add: reads_from_def cluster_kenv_def answers_found accepts_def example_kenv_def obj_key_def)

definition example_cluster :: cluster where
  "example_cluster =
     \<lparr>cl_vms = [(''vox'', ''whisper'') \<mapsto> example_voicemodel [] None],
      cl_deployments = [(''vox'', ''vox-whisper'') \<mapsto> (buildDeployment (example_voicemodel [] None))\<lparr>dp_ReadyReplicas := 1\<rparr>],
      cl_services = Map.empty, cl_pipelines = [(''vox'', ''calls'') \<mapsto> example_pipeline],
      cl_evalruns = Map.empty, cl_workflows = Map.empty\<rparr>"

lemma example_cluster_ok: "well_named example_cluster" "pods_running example_cluster ''vox'' ''whisper''"
  by (simp_all add: well_named_def pods_running_def example_cluster_def example_voicemodel_def obj_key_def
      buildDeployment_def object_meta_def deploymentName_def desired_replicas_def Let_def)

lemma reconcile_extends:
  assumes "pods_running c ns name" and "VoiceModel_Reconcile (cluster_kenv c) (ns, name) w = (res, w')"
  obtains cs where "kw_calls w' = kw_calls w @ cs"
proof -
  from assms(1) obtain vm d where vm: "cl_vms c (ns, name) = Some vm" "om_DeletionTimestamp (vm_Meta vm) = None"
    unfolding pods_running_def by blast
  from reconcile_to_steps [OF cluster_kenv_laws vm assms(2)] obtain pre v where
    "kw_calls v = kw_calls w @ pre" "reconcile_voicemodel_steps (cluster_kenv c) (with_finalizer (cluster_kenv c) vm) v = (res, w')"
    by blast
  moreover from reconcile_steps_report [OF this(2)] obtain cs where "kw_calls w' = kw_calls v @ cs" by blast
  ultimately show thesis using that by simp
qed

lemma example_reconciled:
  obtains res w' cs where
    "VoiceModel_Reconcile (cluster_kenv example_cluster) (''vox'', ''whisper'') new_kworld = (res, w')"
    "kw_calls w' = kw_calls new_kworld @ cs"
    "well_named (effects cs example_cluster)" "pods_running (effects cs example_cluster) ''vox'' ''whisper''"
    "models_reconciled ''vox'' example_cluster [''whisper''] (effects cs example_cluster)"
    "cl_pipelines (effects cs example_cluster) = cl_pipelines example_cluster"
proof -
  obtain res w' where r: "VoiceModel_Reconcile (cluster_kenv example_cluster) (''vox'', ''whisper'') new_kworld = (res, w')"
    by fastforce
  from reconcile_extends [OF example_cluster_ok(2) r] obtain cs where cs: "kw_calls w' = kw_calls new_kworld @ cs" .
  note one = reconcile_one_model [OF example_cluster_ok cluster_kenv_laws r cs]
  have "models_reconciled ''vox'' example_cluster [''whisper''] (effects cs example_cluster)"
    by (rule one_model [OF cluster_kenv_laws r cs no_model])
  with that [OF r cs one(1) one(3) [OF example_cluster_ok(2)]] one(5) show thesis by blast
qed

theorem VoiceModel_converges_witness:
  "\<exists>res w' cs res2 v' cs2.
     VoiceModel_Reconcile (cluster_kenv example_cluster) (''vox'', ''whisper'') new_kworld = (res, w') \<and>
     kw_calls w' = cs \<and>
     VoiceModel_Reconcile (cluster_kenv (effects cs example_cluster)) (''vox'', ''whisper'') w' = (res2, v') \<and>
     kw_calls v' = cs @ cs2 \<and> effects cs2 (effects cs example_cluster) = effects cs example_cluster \<and>
     (\<exists>vm. cl_vms (effects cs example_cluster) (''vox'', ''whisper'') = Some vm \<and> vt_Phase (vm_Status vm) = PhaseReady)"
proof -
  obtain res w' cs where r: "VoiceModel_Reconcile (cluster_kenv example_cluster) (''vox'', ''whisper'') new_kworld = (res, w')"
    and cs: "kw_calls w' = kw_calls new_kworld @ cs" and run: "pods_running (effects cs example_cluster) ''vox'' ''whisper''"
    by (rule example_reconciled)
  obtain res2 v' where r2: "VoiceModel_Reconcile (cluster_kenv (effects cs example_cluster)) (''vox'', ''whisper'') w' = (res2, v')"
    by fastforce
  from reconcile_extends [OF run r2] obtain cs2 where cs2: "kw_calls v' = kw_calls w' @ cs2" .
  from VoiceModel_converges [OF example_cluster_ok cluster_kenv_laws r cs cluster_kenv_laws r2 cs2]
  have "effects cs2 (effects cs example_cluster) = effects cs example_cluster"
    "\<exists>vm. cl_vms (effects cs example_cluster) (''vox'', ''whisper'') = Some vm \<and> vt_Phase (vm_Status vm) = PhaseReady"
    by blast+
  with r r2 cs cs2 show ?thesis
    by (intro exI [of _ res] exI [of _ w'] exI [of _ cs] exI [of _ res2] exI [of _ v'] exI [of _ cs2] conjI)
       (simp_all add: new_kworld_def)
qed

theorem operator_makes_pipeline_ready_witness:
  "\<exists>c' res w' st. models_reconciled ''vox'' example_cluster [''whisper''] c' \<and>
     InferencePipeline_Reconcile (cluster_kenv c') (''vox'', ''calls'') new_kworld = (res, w') \<and>
     UpdatePipelineStatus (example_pipeline\<lparr>ip_Status := st\<rparr>) \<in> set (kw_calls w') \<and> is_Phase st = PipelinePhaseReady"
proof -
  obtain cs where m: "models_reconciled ''vox'' example_cluster [''whisper''] (effects cs example_cluster)"
    by (rule example_reconciled)
  let ?c = "effects cs example_cluster"
  have p: "\<forall>name \<in> set [''whisper'']. pods_running example_cluster ''vox'' name" using example_cluster_ok by simp
  have ex: "cl_pipelines example_cluster (''vox'', ''calls'') = Some example_pipeline" by (simp add: example_cluster_def)
  have e: "om_Namespace (ip_Meta example_pipeline) = ''vox''" "om_DeletionTimestamp (ip_Meta example_pipeline) = None"
    "\<forall>stage \<in> set (ip_Stages example_pipeline). stage_enabled stage \<longrightarrow> ps_Model stage \<in> set [''whisper'']"
    by (simp_all add: example_pipeline_def object_meta_def stage_enabled_def)
  obtain res w' where r: "InferencePipeline_Reconcile (cluster_kenv ?c) (''vox'', ''calls'') new_kworld = (res, w')" by fastforce
  from operator_makes_pipeline_ready [OF example_cluster_ok(1) m p ex e cluster_kenv_laws r] obtain st where
    "kw_calls w' = kw_calls new_kworld @ [GetPipeline ''vox'' ''calls''] @ gets ''vox'' (ip_Stages example_pipeline) @
       [UpdatePipelineStatus (example_pipeline\<lparr>ip_Status := st\<rparr>)]" "is_Phase st = PipelinePhaseReady" by blast
  with m r show ?thesis
    by (intro exI [of _ ?c] exI [of _ res] exI [of _ w'] exI [of _ st]) simp
qed

end
