(* ===== verification/Access.thy ===== *)
theory Access
  imports Operator
begin

section \<open>What the controllers may touch\<close>

text \<open>
  The access rules each controller declares in its \<open>kubebuilder:rbac\<close> markers, from which the
  operator's role is generated, and the access every API call needs. The contract of a controller
  (locale \<open>reconciler\<close>) is that a reconciliation only adds calls to the history, all of them
  permitted.
\<close>

subsection \<open>The markers\<close>

text \<open>A rule: API group, resource and verbs.\<close>

type_synonym rbac_rule = "string \<times> string \<times> string list"

definition all_verbs :: "string list" where
  "all_verbs = [''get'', ''list'', ''watch'', ''create'', ''update'', ''patch'', ''delete'']"

definition VoiceModel_rbac :: "rbac_rule list" where
  "VoiceModel_rbac =
     [(''vox.vox.io'', ''voicemodels'', all_verbs),
      (''vox.vox.io'', ''voicemodels/status'', [''get'', ''update'', ''patch'']),
      (''vox.vox.io'', ''voicemodels/finalizers'', [''update'']),
      (''apps'', ''deployments'', all_verbs),
      ('''', ''services'', all_verbs)]"

definition InferencePipeline_rbac :: "rbac_rule list" where
  "InferencePipeline_rbac =
     [(''vox.vox.io'', ''inferencepipelines'', all_verbs),
      (''vox.vox.io'', ''inferencepipelines/status'', [''get'', ''update'', ''patch'']),
      (''vox.vox.io'', ''inferencepipelines/finalizers'', [''update'']),
      (''vox.vox.io'', ''voicemodels'', [''get'', ''list'', ''watch''])]"

definition EvalRun_rbac :: "rbac_rule list" where
  "EvalRun_rbac =
     [(''vox.vox.io'', ''evalruns'', all_verbs),
      (''vox.vox.io'', ''evalruns/status'', [''get'', ''update'', ''patch'']),
      (''vox.vox.io'', ''evalruns/finalizers'', [''update'']),
      (''argoproj.io'', ''workflows'', all_verbs)]"

subsection \<open>The calls\<close>

fun needs :: "api_call \<Rightarrow> string \<times> string \<times> string" where
  "needs (GetVoiceModel ns name) = (''vox.vox.io'', ''voicemodels'', ''get'')"
| "needs (UpdateVoiceModel vm) = (''vox.vox.io'', ''voicemodels'', ''update'')"
| "needs (UpdateVoiceModelStatus vm) = (''vox.vox.io'', ''voicemodels/status'', ''update'')"
| "needs (GetDeployment ns name) = (''apps'', ''deployments'', ''get'')"
| "needs (CreateDeployment d) = (''apps'', ''deployments'', ''create'')"
| "needs (UpdateDeployment d) = (''apps'', ''deployments'', ''update'')"
| "needs (GetService ns name) = ('''', ''services'', ''get'')"
| "needs (CreateService s) = ('''', ''services'', ''create'')"
| "needs (UpdateService s) = ('''', ''services'', ''update'')"
| "needs (GetPipeline ns name) = (''vox.vox.io'', ''inferencepipelines'', ''get'')"
| "needs (UpdatePipelineStatus p) = (''vox.vox.io'', ''inferencepipelines/status'', ''update'')"
| "needs (ListPipelines ns) = (''vox.vox.io'', ''inferencepipelines'', ''list'')"
| "needs (GetEvalRun ns name) = (''vox.vox.io'', ''evalruns'', ''get'')"
| "needs (UpdateEvalRunStatus e) = (''vox.vox.io'', ''evalruns/status'', ''update'')"
| "needs (GetWorkflow ns name) = (''argoproj.io'', ''workflows'', ''get'')"
| "needs (CreateWorkflow wk) = (''argoproj.io'', ''workflows'', ''create'')"

definition permitted :: "rbac_rule list \<Rightarrow> api_call \<Rightarrow> bool" where
  "permitted rules c =
     (let (group, resource, verb) = needs c
      in list_ex (\<lambda>(g, r, vs). g = group \<and> r = resource \<and> verb \<in> set vs) rules)"

text \<open>The objects a call writes: the kind, for calls that are not reads.\<close>

fun writes :: "api_call \<Rightarrow> string option" where
  "writes (UpdateVoiceModel vm) = Some ''VoiceModel''"
| "writes (UpdateVoiceModelStatus vm) = Some ''VoiceModel''"
| "writes (CreateDeployment d) = Some ''Deployment''"
| "writes (UpdateDeployment d) = Some ''Deployment''"
| "writes (CreateService s) = Some ''Service''"
| "writes (UpdateService s) = Some ''Service''"
| "writes (UpdatePipelineStatus p) = Some ''InferencePipeline''"
| "writes (UpdateEvalRunStatus e) = Some ''EvalRun''"
| "writes (CreateWorkflow wk) = Some ''Workflow''"
| "writes _ = None"

definition writes_only :: "string list \<Rightarrow> api_call \<Rightarrow> bool" where
  "writes_only kinds c = (case writes c of None \<Rightarrow> True | Some k \<Rightarrow> k \<in> set kinds)"

definition may :: "rbac_rule list \<Rightarrow> string list \<Rightarrow> api_call \<Rightarrow> bool" where
  "may rules kinds c \<longleftrightarrow> permitted rules c \<and> writes_only kinds c"

subsection \<open>The contract\<close>

definition makes :: "(api_call \<Rightarrow> bool) \<Rightarrow> kworld \<Rightarrow> kworld \<Rightarrow> bool" where
  "makes P w w' \<longleftrightarrow> (\<exists>cs. kw_calls w' = kw_calls w @ cs \<and> list_all P cs)"

lemma makes_refl [simp]: "makes P w w"
  by (simp add: makes_def)

lemma makes_trans [trans]: "makes P w w1 \<Longrightarrow> makes P w1 w2 \<Longrightarrow> makes P w w2"
  by (fastforce simp: makes_def)

lemma makes_call: "P c \<Longrightarrow> makes P w (record_call c w)"
  by (simp add: makes_def record_call_def)

locale reconciler =
  fixes reconcile :: "kenv \<Rightarrow> reconcile_request \<Rightarrow> kworld \<Rightarrow> (goerror + ctrl_result) \<times> kworld"
    and allowed :: "api_call \<Rightarrow> bool"
  assumes keeps: "makes allowed w (snd (reconcile K req w))"
begin

text \<open>Any number of reconciliations, each in an environment of its own.\<close>

lemma all_kept: "makes allowed w (fold (\<lambda>(K, req) w. snd (reconcile K req w)) rounds w)"
proof (induction rounds arbitrary: w)
  case (Cons x rounds)
  obtain K req where x: "x = (K, req)" by (cases x)
  show ?case using makes_trans [OF keeps [of w K req] Cons] by (simp add: x)
qed simp

end

lemmas access_defs =
  may_def permitted_def writes_only_def VoiceModel_rbac_def InferencePipeline_rbac_def EvalRun_rbac_def all_verbs_def

abbreviation vm_may :: "api_call \<Rightarrow> bool" where
  "vm_may \<equiv> may VoiceModel_rbac [''VoiceModel'', ''Deployment'', ''Service'']"

lemma vm_may_calls:
  "vm_may (GetVoiceModel ns name)" "vm_may (UpdateVoiceModel vm)" "vm_may (UpdateVoiceModelStatus vm)"
  "vm_may (GetDeployment ns name)" "vm_may (CreateDeployment d)" "vm_may (UpdateDeployment d)"
  "vm_may (GetService ns name)" "vm_may (CreateService s)" "vm_may (UpdateService s)"
  by (simp_all add: access_defs)

subsection \<open>The calls of a VoiceModel reconciliation\<close>

text \<open>
  Which calls a reconciliation makes, for any property \<open>P\<close> of calls: the requested object is read
  first, and the objects the answers describe (of which \<open>Q\<close> holds) determine the rest.
\<close>

definition vm_calls :: "(api_call \<Rightarrow> bool) \<Rightarrow> kenv \<Rightarrow> (VoiceModel \<Rightarrow> bool) \<Rightarrow> bool" where
  "vm_calls P K Q \<longleftrightarrow>
     (\<forall>vm. P (UpdateVoiceModel vm) \<and> P (UpdateVoiceModelStatus vm)) \<and>
     (\<forall>d. P (UpdateDeployment d)) \<and> (\<forall>s. P (UpdateService s)) \<and>
     (\<forall>vm. Q vm \<longrightarrow>
        P (GetDeployment (om_Namespace (vm_Meta vm)) (deploymentName vm)) \<and>
        P (GetService (om_Namespace (vm_Meta vm)) (serviceName vm)) \<and>
        (\<forall>m. ke_set_owner K (vm_Meta vm) (dp_Meta (buildDeployment vm)) = Inr m \<longrightarrow>
           P (CreateDeployment ((buildDeployment vm)\<lparr>dp_Meta := m\<rparr>))) \<and>
        (\<forall>m. ke_set_owner K (vm_Meta vm) (svc_Meta (buildService vm)) = Inr m \<longrightarrow>
           P (CreateService ((buildService vm)\<lparr>svc_Meta := m\<rparr>))))"

lemma setPhase_makes:
  assumes "vm_calls P K Q"
  shows "makes P w (snd (setPhase K vm phase message w))"
  using assms
  by (auto simp: setPhase_def world_defs makes_def vm_calls_def Let_def split: option.splits)

lemma updateStatus_makes:
  assumes P: "vm_calls P K Q" and Q: "Q vm"
  shows "makes P w (snd (updateStatus K vm w))"
proof -
  let ?g = "GetDeployment (om_Namespace (vm_Meta vm)) (deploymentName vm)"
  have "makes P w (record_call ?g w)"
    by (rule makes_call) (use assms in \<open>simp add: vm_calls_def\<close>)
  also have "makes P (record_call ?g w) (snd (updateStatus K vm w))"
    using setPhase_makes [OF P]
    by (auto simp: updateStatus_def get_deployment_def Let_def split: sum.splits option.splits)
  finally show ?thesis .
qed

lemma reconcileDeployment_makes:
  assumes "vm_calls P K Q" and "Q vm"
  shows "makes P w (snd (reconcileDeployment K vm w))"
  using assms
  by (auto simp: reconcileDeployment_def world_defs makes_def vm_calls_def Let_def split: sum.splits)

lemma reconcileService_makes:
  assumes "vm_calls P K Q" and "Q vm"
  shows "makes P w (snd (reconcileService K vm w))"
  using assms
  by (auto simp: reconcileService_def world_defs makes_def vm_calls_def Let_def split: sum.splits)

lemma reconcile_steps_makes:
  assumes P: "vm_calls P K Q" and Q: "Q vm"
  shows "makes P w (snd (reconcile_voicemodel_steps K vm w))"
proof -
  obtain derr w1 where d: "reconcileDeployment K vm w = (derr, w1)" by fastforce
  obtain serr w2 where s: "reconcileService K vm w1 = (serr, w2)" by fastforce
  have w1: "makes P w w1" using reconcileDeployment_makes [OF P Q, of w] d by simp
  have "makes P w1 w2" using reconcileService_makes [OF P Q, of w1] s by simp
  with w1 have w2: "makes P w w2" by (rule makes_trans)
  show ?thesis
  proof (cases derr)
    case (Some err)
    with d have "reconcile_voicemodel_steps K vm w = setPhase K vm PhaseFailed err w1"
      by (simp add: reconcile_voicemodel_steps_def)
    with makes_trans [OF w1 setPhase_makes [OF P]] show ?thesis by simp
  next
    case None
    show ?thesis
    proof (cases serr)
      case (Some err)
      with d s None have "reconcile_voicemodel_steps K vm w = setPhase K vm PhaseFailed err w2"
        by (simp add: reconcile_voicemodel_steps_def)
      with makes_trans [OF w2 setPhase_makes [OF P]] show ?thesis by simp
    next
      case None2: None
      with d s None have "reconcile_voicemodel_steps K vm w = updateStatus K vm w2"
        by (simp add: reconcile_voicemodel_steps_def)
      with makes_trans [OF w2 updateStatus_makes [OF P Q]] show ?thesis by simp
    qed
  qed
qed

lemma VoiceModel_Reconcile_makes:
  assumes P: "vm_calls P K Q" and get: "P (GetVoiceModel (fst req) (snd req))"
    and Q: "\<And>n vm. ke_get_voicemodel K n (fst req) (snd req) = Inr vm \<Longrightarrow> Q vm"
    and Q_update: "\<And>n vm fs vm'. Q vm \<Longrightarrow>
      ke_update_voicemodel K n (vm\<lparr>vm_Meta := (vm_Meta vm)\<lparr>om_Finalizers := fs\<rparr>\<rparr>) = Inr vm' \<Longrightarrow> Q vm'"
  shows "makes P w (snd (VoiceModel_Reconcile K req w))"
proof -
  let ?w1 = "record_call (GetVoiceModel (fst req) (snd req)) w"
  have "makes P w ?w1" by (rule makes_call) (rule get)
  moreover have "makes P ?w1 (snd (VoiceModel_Reconcile K req w))"
  proof (cases "ke_get_voicemodel K (call_no w) (fst req) (snd req)")
    case (Inl err)
    then show ?thesis by (simp add: VoiceModel_Reconcile_def get_voicemodel_def)
  next
    case (Inr vm)
    have u: "makes P ?w1 (record_call (UpdateVoiceModel v) ?w1)" for v
      by (rule makes_call) (use P in \<open>simp add: vm_calls_def\<close>)
    show ?thesis
      using Inr u makes_trans [OF u reconcile_steps_makes [OF P Q_update [OF Q [OF Inr]]]]
        reconcile_steps_makes [OF P Q [OF Inr]]
      by (auto simp: VoiceModel_Reconcile_def get_voicemodel_def reconcileDelete_def update_voicemodel_def Let_def
          split: sum.splits)
  qed
  ultimately show ?thesis by (rule makes_trans)
qed

interpretation vm_reconciler: reconciler VoiceModel_Reconcile vm_may
proof
  fix w :: kworld and K :: kenv and req :: reconcile_request
  show "makes vm_may w (snd (VoiceModel_Reconcile K req w))"
    by (rule VoiceModel_Reconcile_makes [where Q = "\<lambda>_. True"]) (simp_all add: vm_calls_def vm_may_calls)
qed

subsection \<open>The calls of an InferencePipeline reconciliation\<close>

abbreviation ip_may :: "api_call \<Rightarrow> bool" where
  "ip_may \<equiv> may InferencePipeline_rbac [''InferencePipeline'']"

lemma ip_may_calls:
  "ip_may (GetPipeline ns name)" "ip_may (GetVoiceModel ns name)" "ip_may (ListPipelines ns)"
  "ip_may (UpdatePipelineStatus p)"
  by (simp_all add: access_defs)

lemma setPipelineStatus_makes:
  "(\<And>p. P (UpdatePipelineStatus p)) \<Longrightarrow> makes P w (snd (setPipelineStatus K p phase message sts w))"
  by (auto simp: setPipelineStatus_def world_defs makes_def Let_def split: option.splits)

lemma reconcileStages_makes:
  assumes status: "\<And>p. P (UpdatePipelineStatus p)"
    and stages: "list_all P (gets (om_Namespace (ip_Meta p)) (ip_Stages p))"
  shows "makes P w (snd (reconcileStages K p w))"
proof -
  obtain sts r e m w1 where l: "stage_loop K (om_Namespace (ip_Meta p)) (ip_Stages p) ([], 0, 0, False, w) = (sts, r, e, m, w1)"
    by (metis prod_cases5)
  obtain phase msg where a: "aggregate_phase r e m = (phase, msg)" by fastforce
  have "w1 = w\<lparr>kw_calls := kw_calls w @ gets (om_Namespace (ip_Meta p)) (ip_Stages p)\<rparr>"
    using stage_loop_spec [OF l] by blast
  then have "makes P w w1" using stages by (simp add: makes_def)
  moreover have "makes P w1 (snd (reconcileStages K p w))"
    using setPipelineStatus_makes [of P, OF status] by (simp add: reconcileStages_def l a)
  ultimately show ?thesis by (rule makes_trans)
qed

lemma InferencePipeline_Reconcile_makes:
  assumes get: "P (GetPipeline (fst req) (snd req))" and status: "\<And>p. P (UpdatePipelineStatus p)"
    and stages: "\<And>n p. ke_get_pipeline K n (fst req) (snd req) = Inr p \<Longrightarrow>
      list_all P (gets (om_Namespace (ip_Meta p)) (ip_Stages p))"
  shows "makes P w (snd (InferencePipeline_Reconcile K req w))"
proof -
  let ?w1 = "record_call (GetPipeline (fst req) (snd req)) w"
  have "makes P w ?w1" by (rule makes_call) (rule get)
  moreover have "makes P ?w1 (snd (InferencePipeline_Reconcile K req w))"
    using reconcileStages_makes [of P, OF status] stages
    by (auto simp: InferencePipeline_Reconcile_def get_pipeline_def split: sum.splits)
  ultimately show ?thesis by (rule makes_trans)
qed

interpretation ip_reconciler: reconciler InferencePipeline_Reconcile ip_may
proof
  fix w :: kworld and K :: kenv and req :: reconcile_request
  have "list_all ip_may (gets ns stages)" for ns stages
    by (simp add: gets_def list_all_iff ip_may_calls)
  then show "makes ip_may w (snd (InferencePipeline_Reconcile K req w))"
    using InferencePipeline_Reconcile_makes [of ip_may] ip_may_calls by blast
qed

lemma mapVoiceModelToPipelines_makes: "makes ip_may w (snd (mapVoiceModelToPipelines K vm w))"
proof -
  have "snd (mapVoiceModelToPipelines K vm w) = record_call (ListPipelines (om_Namespace (vm_Meta vm))) w"
    by (auto simp: mapVoiceModelToPipelines_def list_pipelines_def split: sum.splits)
  then show ?thesis using makes_call [of ip_may] ip_may_calls(3) by simp
qed

subsection \<open>The calls of an EvalRun reconciliation\<close>

abbreviation er_may :: "api_call \<Rightarrow> bool" where
  "er_may \<equiv> may EvalRun_rbac [''EvalRun'', ''Workflow'']"

lemma er_may_calls:
  "er_may (GetEvalRun ns name)" "er_may (UpdateEvalRunStatus e)" "er_may (GetWorkflow ns name)" "er_may (CreateWorkflow wk)"
  by (simp_all add: access_defs)

definition er_calls :: "(api_call \<Rightarrow> bool) \<Rightarrow> kenv \<Rightarrow> (EvalRun \<Rightarrow> bool) \<Rightarrow> bool" where
  "er_calls P K Q \<longleftrightarrow>
     (\<forall>er. P (UpdateEvalRunStatus er)) \<and>
     (\<forall>er. Q er \<longrightarrow>
        P (GetWorkflow (om_Namespace (er_Meta er)) (et_WorkflowRef (er_Status er))) \<and>
        (\<forall>m. ke_set_owner K (er_Meta er) (wf_Meta (buildWorkflow er)) = Inr m \<longrightarrow>
           P (CreateWorkflow ((buildWorkflow er)\<lparr>wf_Meta := m\<rparr>))))"

lemma setStatus_makes: "er_calls P K Q \<Longrightarrow> makes P w (snd (setStatus K er phase ref message w))"
  by (auto simp: setStatus_def world_defs makes_def er_calls_def Let_def split: option.splits)

lemma submitWorkflow_makes:
  assumes P: "er_calls P K Q" and Q: "Q er"
  shows "makes P w (snd (submitWorkflow K er w))"
proof (cases "ke_set_owner K (er_Meta er) (wf_Meta (buildWorkflow er))")
  case (Inl err)
  then show ?thesis by (simp add: submitWorkflow_def Let_def)
next
  case (Inr meta)
  let ?w1 = "record_call (CreateWorkflow ((buildWorkflow er)\<lparr>wf_Meta := meta\<rparr>)) w"
  have "makes P w ?w1" by (rule makes_call) (use P Q Inr in \<open>simp add: er_calls_def\<close>)
  moreover have clock: "makes P ?w1 (?w1\<lparr>kw_clock := n\<rparr>)" for n by (simp add: makes_def)
  have "makes P ?w1 (snd (submitWorkflow K er w))"
    using Inr makes_trans [OF clock setStatus_makes [OF P]]
    by (auto simp: submitWorkflow_def Let_def kube_write_def kube_now_def split: option.splits)
  ultimately show ?thesis by (rule makes_trans)
qed

lemma reconcileWorkflow_makes:
  assumes P: "er_calls P K Q" and Q: "Q er"
  shows "makes P w (snd (reconcileWorkflow K er w))"
proof -
  let ?w1 = "record_call (GetWorkflow (om_Namespace (er_Meta er)) (et_WorkflowRef (er_Status er))) w"
  have "makes P w ?w1" by (rule makes_call) (use assms in \<open>simp add: er_calls_def\<close>)
  moreover have "makes P ?w1 (snd (reconcileWorkflow K er w))"
    using setStatus_makes [OF P]
    by (auto simp: reconcileWorkflow_def get_workflow_def Let_def split: sum.splits option.splits prod.splits)
  ultimately show ?thesis by (rule makes_trans)
qed

lemma EvalRun_Reconcile_makes:
  assumes P: "er_calls P K Q" and get: "P (GetEvalRun (fst req) (snd req))"
    and Q: "\<And>n er. ke_get_evalrun K n (fst req) (snd req) = Inr er \<Longrightarrow> Q er"
  shows "makes P w (snd (EvalRun_Reconcile K req w))"
proof -
  let ?w1 = "record_call (GetEvalRun (fst req) (snd req)) w"
  have "makes P w ?w1" by (rule makes_call) (rule get)
  moreover have "makes P ?w1 (snd (EvalRun_Reconcile K req w))"
    using setStatus_makes [OF P] submitWorkflow_makes [OF P Q] reconcileWorkflow_makes [OF P Q]
    by (auto simp: EvalRun_Reconcile_def get_evalrun_def split: sum.splits)
  ultimately show ?thesis by (rule makes_trans)
qed

interpretation er_reconciler: reconciler EvalRun_Reconcile er_may
proof
  fix w :: kworld and K :: kenv and req :: reconcile_request
  show "makes er_may w (snd (EvalRun_Reconcile K req w))"
    by (rule EvalRun_Reconcile_makes [where Q = "\<lambda>_. True"]) (simp_all add: er_calls_def er_may_calls)
qed

subsection \<open>The operator\<close>

datatype controller = VMs | Pipelines | EvalRuns

fun reconcile_of :: "controller \<Rightarrow> kenv \<Rightarrow> reconcile_request \<Rightarrow> kworld \<Rightarrow> (goerror + ctrl_result) \<times> kworld" where
  "reconcile_of VMs = VoiceModel_Reconcile"
| "reconcile_of Pipelines = InferencePipeline_Reconcile"
| "reconcile_of EvalRuns = EvalRun_Reconcile"

fun rbac_of :: "controller \<Rightarrow> rbac_rule list" where
  "rbac_of VMs = VoiceModel_rbac"
| "rbac_of Pipelines = InferencePipeline_rbac"
| "rbac_of EvalRuns = EvalRun_rbac"

fun kinds_of :: "controller \<Rightarrow> string list" where
  "kinds_of VMs = [''VoiceModel'', ''Deployment'', ''Service'']"
| "kinds_of Pipelines = [''InferencePipeline'']"
| "kinds_of EvalRuns = [''EvalRun'', ''Workflow'']"

text \<open>C8: least privilege and separate writers. However many reconciliations a controller runs, for
  whatever objects and against whatever answers of the API server, errors included, every call it
  makes is permitted by its own access markers, and it writes objects of its own kinds only; no kind
  has two writers.\<close>

theorem controllers_stay_in_their_lanes:
  "(\<exists>cs. kw_calls (fold (\<lambda>(K, req) w. snd (reconcile_of ctl K req w)) rounds w) = kw_calls w @ cs \<and>
      list_all (permitted (rbac_of ctl)) cs \<and> list_all (writes_only (kinds_of ctl)) cs) \<and>
   distinct (concat (map kinds_of [VMs, Pipelines, EvalRuns]))"
proof -
  have "makes (may (rbac_of ctl) (kinds_of ctl)) w (fold (\<lambda>(K, req) w. snd (reconcile_of ctl K req w)) rounds w)"
    by (cases ctl) (simp_all add: vm_reconciler.all_kept ip_reconciler.all_kept er_reconciler.all_kept)
  then show ?thesis
    by (auto simp: makes_def may_def list_all_iff)
qed

end
