(* ===== verification/Watches.thy ===== *)
theory Watches
  imports Access
begin

section \<open>What wakes a controller (SetupWithManager)\<close>

text \<open>
  The registrations of the API types (\<open>groupversion_info.go\<close>, the \<open>init\<close> functions) and of the
  controllers with the manager: a list of watches per controller, and which reconcile requests a
  change of an object puts on its queue. A controller sleeps between requests, so whatever its
  result depends on must be watched. From controller-runtime: \<open>For\<close> enqueues the object itself, \<open>Owns\<close>
  the object of the controller's type that the controller reference of the changed object names,
  in the same namespace, and a mapped watch what the mapping returns. An entry of
  \<open>om_OwnerReferences\<close> is the kind and the name of a controller reference.
\<close>

subsection \<open>Kinds\<close>

type_synonym group_version = "string \<times> string"
type_synonym gvk = "group_version \<times> string"

definition SchemeGroupVersion :: group_version where
  "SchemeGroupVersion = (''vox.vox.io'', ''v1alpha1'')"

definition GroupVersion :: group_version where
  "GroupVersion = SchemeGroupVersion"

definition VoiceModel_init :: "string list" where
  "VoiceModel_init = [''VoiceModel'', ''VoiceModelList'']"

definition InferencePipeline_init :: "string list" where
  "InferencePipeline_init = [''InferencePipeline'', ''InferencePipelineList'']"

definition EvalRun_init :: "string list" where
  "EvalRun_init = [''EvalRun'', ''EvalRunList'']"

text \<open>\<open>SchemeBuilder\<close> after the package's \<open>init\<close> functions have run (in the order of the files), and
  the scheme of the operator: the client's own types, then these.\<close>

definition SchemeBuilder :: "group_version \<times> string list" where
  "SchemeBuilder = (GroupVersion, EvalRun_init @ InferencePipeline_init @ VoiceModel_init)"

definition AddToScheme :: "gvk list \<Rightarrow> gvk list" where
  "AddToScheme scheme = scheme @ map (\<lambda>kind. (fst SchemeBuilder, kind)) (snd SchemeBuilder)"

definition operator_scheme :: "gvk list \<Rightarrow> gvk list" where
  "operator_scheme clientgoscheme = AddToScheme ([] @ clientgoscheme)"

definition workflowGVK :: gvk where
  "workflowGVK = ((''argoproj.io'', ''v1alpha1''), ''Workflow'')"

definition DeploymentGVK :: gvk where "DeploymentGVK = ((''apps'', ''v1''), ''Deployment'')"
definition ServiceGVK :: gvk where "ServiceGVK = (('''', ''v1''), ''Service'')"

subsection \<open>Watches\<close>

datatype watch =
    For gvk
  | Owns gvk
  | WatchesVoiceModels "kenv \<Rightarrow> VoiceModel \<Rightarrow> kworld \<Rightarrow> reconcile_request list \<times> kworld"

definition VoiceModel_SetupWithManager :: "watch list" where
  "VoiceModel_SetupWithManager =
     [For (GroupVersion, ''VoiceModel''), Owns DeploymentGVK, Owns ServiceGVK]"

definition InferencePipeline_SetupWithManager :: "watch list" where
  "InferencePipeline_SetupWithManager =
     [For (GroupVersion, ''InferencePipeline''), WatchesVoiceModels mapVoiceModelToPipelines]"

definition EvalRun_SetupWithManager :: "watch list" where
  "EvalRun_SetupWithManager = [For (GroupVersion, ''EvalRun''), Owns workflowGVK]"

datatype kube_object =
    VoiceModelObject VoiceModel | DeploymentObject Deployment | ServiceObject Service
  | PipelineObject InferencePipeline | EvalRunObject EvalRun | WorkflowObject Workflow

fun gvk_of :: "kube_object \<Rightarrow> gvk" where
  "gvk_of (VoiceModelObject vm) = (GroupVersion, ''VoiceModel'')"
| "gvk_of (DeploymentObject d) = DeploymentGVK"
| "gvk_of (ServiceObject s) = ServiceGVK"
| "gvk_of (PipelineObject p) = (GroupVersion, ''InferencePipeline'')"
| "gvk_of (EvalRunObject er) = (GroupVersion, ''EvalRun'')"
| "gvk_of (WorkflowObject wk) = workflowGVK"

fun meta_of :: "kube_object \<Rightarrow> ObjectMeta" where
  "meta_of (VoiceModelObject vm) = vm_Meta vm"
| "meta_of (DeploymentObject d) = dp_Meta d"
| "meta_of (ServiceObject s) = svc_Meta s"
| "meta_of (PipelineObject p) = ip_Meta p"
| "meta_of (EvalRunObject er) = er_Meta er"
| "meta_of (WorkflowObject wk) = wf_Meta wk"

text \<open>The requests a change of an object enqueues through one watch, and through all of a
  controller whose own type is \<open>kind\<close>. The mapping may call the API.\<close>

fun enqueue_watch :: "kenv \<Rightarrow> string \<Rightarrow> kube_object \<Rightarrow> watch \<Rightarrow> kworld \<Rightarrow> reconcile_request list \<times> kworld" where
  "enqueue_watch K kind obj (For g) w = (if gvk_of obj = g then [obj_key (meta_of obj)] else [], w)"
| "enqueue_watch K kind obj (Owns g) w =
     (if gvk_of obj = g
      then map (\<lambda>(k, name). (om_Namespace (meta_of obj), name))
             (filter (\<lambda>(k, name). k = kind) (om_OwnerReferences (meta_of obj)))
      else [], w)"
| "enqueue_watch K kind obj (WatchesVoiceModels f) w =
     (case obj of VoiceModelObject vm \<Rightarrow> f K vm w | _ \<Rightarrow> ([], w))"

fun enqueue :: "kenv \<Rightarrow> string \<Rightarrow> kube_object \<Rightarrow> watch list \<Rightarrow> kworld \<Rightarrow> reconcile_request list \<times> kworld" where
  "enqueue K kind obj [] w = ([], w)"
| "enqueue K kind obj (x # xs) w =
     (let (rs, w1) = enqueue_watch K kind obj x w; (rs', w2) = enqueue K kind obj xs w1 in (rs @ rs', w2))"

fun watches_of :: "controller \<Rightarrow> watch list" where
  "watches_of VMs = VoiceModel_SetupWithManager"
| "watches_of Pipelines = InferencePipeline_SetupWithManager"
| "watches_of EvalRuns = EvalRun_SetupWithManager"

fun kind_of :: "controller \<Rightarrow> string" where
  "kind_of VMs = ''VoiceModel''"
| "kind_of Pipelines = ''InferencePipeline''"
| "kind_of EvalRuns = ''EvalRun''"

definition wakes :: "controller \<Rightarrow> kenv \<Rightarrow> kube_object \<Rightarrow> kworld \<Rightarrow> reconcile_request set" where
  "wakes ctl K obj w = set (fst (enqueue K (kind_of ctl) obj (watches_of ctl) w))"

text \<open>Every kind that is watched is known to the operator's scheme, the workflows apart, which are
  read as unstructured objects.\<close>

lemma watched_kinds_known:
  assumes "DeploymentGVK \<in> set clientgoscheme" and "ServiceGVK \<in> set clientgoscheme"
    and "For g \<in> set (watches_of ctl) \<or> Owns g \<in> set (watches_of ctl)"
  shows "g \<in> set (operator_scheme clientgoscheme) \<or> g = workflowGVK"
  using assms
  by (cases ctl) (auto simp: VoiceModel_SetupWithManager_def InferencePipeline_SetupWithManager_def
      EvalRun_SetupWithManager_def operator_scheme_def AddToScheme_def SchemeBuilder_def
      VoiceModel_init_def InferencePipeline_init_def EvalRun_init_def)

subsection \<open>What a reconciliation depends on\<close>

fun reads :: "api_call \<Rightarrow> (gvk \<times> string \<times> string) option" where
  "reads (GetVoiceModel ns name) = Some ((GroupVersion, ''VoiceModel''), ns, name)"
| "reads (GetDeployment ns name) = Some (DeploymentGVK, ns, name)"
| "reads (GetService ns name) = Some (ServiceGVK, ns, name)"
| "reads (GetPipeline ns name) = Some ((GroupVersion, ''InferencePipeline''), ns, name)"
| "reads (GetEvalRun ns name) = Some ((GroupVersion, ''EvalRun''), ns, name)"
| "reads (GetWorkflow ns name) = Some (workflowGVK, ns, name)"
| "reads _ = None"

fun creates :: "api_call \<Rightarrow> kube_object option" where
  "creates (CreateDeployment d) = Some (DeploymentObject d)"
| "creates (CreateService s) = Some (ServiceObject s)"
| "creates (CreateWorkflow wk) = Some (WorkflowObject wk)"
| "creates _ = None"

text \<open>The API's promises: an object that is read has the name it was asked for by, an update returns
  the same object, and \<open>SetControllerReference\<close> records the owner and leaves the rest of the
  identity alone.\<close>

definition keyed :: "kenv \<Rightarrow> bool" where
  "keyed K \<longleftrightarrow> (\<forall>n ns name.
     (\<forall>vm. ke_get_voicemodel K n ns name = Inr vm \<longrightarrow> obj_key (vm_Meta vm) = (ns, name)) \<and>
     (\<forall>p. ke_get_pipeline K n ns name = Inr p \<longrightarrow> obj_key (ip_Meta p) = (ns, name)) \<and>
     (\<forall>er. ke_get_evalrun K n ns name = Inr er \<longrightarrow> obj_key (er_Meta er) = (ns, name)) \<and>
     (\<forall>vm vm'. ke_update_voicemodel K n vm = Inr vm' \<longrightarrow> obj_key (vm_Meta vm') = obj_key (vm_Meta vm)))"

definition sets_controller :: "string \<Rightarrow> kenv \<Rightarrow> bool" where
  "sets_controller kind K \<longleftrightarrow> (\<forall>owner m m'. ke_set_owner K owner m = Inr m' \<longrightarrow>
     obj_key m' = obj_key m \<and> (kind, om_Name owner) \<in> set (om_OwnerReferences m'))"

definition controlled_by :: "string \<Rightarrow> string \<Rightarrow> kube_object \<Rightarrow> bool" where
  "controlled_by kind name obj \<longleftrightarrow> (kind, name) \<in> set (om_OwnerReferences (meta_of obj))"

text \<open>A later list of the pipelines still holds the pipeline of the request, with the stages it had.\<close>

definition still_listed :: "kenv \<Rightarrow> reconcile_request \<Rightarrow> kenv \<Rightarrow> nat \<Rightarrow> bool" where
  "still_listed K req K2 n \<longleftrightarrow>
     (\<exists>items. ke_list_pipelines K2 n (fst req) = Inr items \<and>
        (\<forall>i p. ke_get_pipeline K i (fst req) (snd req) = Inr p \<longrightarrow>
           (\<exists>q \<in> set items. obj_key (ip_Meta q) = req \<and> ip_Stages q = ip_Stages p)))"


definition wake_call :: "controller \<Rightarrow> reconcile_request \<Rightarrow> kenv \<Rightarrow> kworld \<Rightarrow> api_call \<Rightarrow> bool" where
  "wake_call ctl req K w c \<longleftrightarrow>
     (\<forall>obj. reads c = Some (gvk_of obj, obj_key (meta_of obj)) \<longrightarrow>
        (Owns (gvk_of obj) \<in> set (watches_of ctl) \<longrightarrow> controlled_by (kind_of ctl) (snd req) obj) \<longrightarrow>
        req \<in> wakes ctl K obj w) \<and>
     (\<forall>made. creates c = Some made \<longrightarrow>
        controlled_by (kind_of ctl) (snd req) made \<and> Owns (gvk_of made) \<in> set (watches_of ctl) \<and>
        om_Namespace (meta_of made) = fst req)"

lemmas setup_defs = VoiceModel_SetupWithManager_def InferencePipeline_SetupWithManager_def
  EvalRun_SetupWithManager_def

lemmas gvk_defs = GroupVersion_def SchemeGroupVersion_def DeploymentGVK_def ServiceGVK_def workflowGVK_def

lemma wakes_simps:
  "wakes VMs K obj w =
     (if gvk_of obj = (GroupVersion, ''VoiceModel'') then {obj_key (meta_of obj)}
      else if gvk_of obj = DeploymentGVK \<or> gvk_of obj = ServiceGVK
      then {(om_Namespace (meta_of obj), name) | name. controlled_by ''VoiceModel'' name obj}
      else {})"
  "wakes EvalRuns K obj w =
     (if gvk_of obj = (GroupVersion, ''EvalRun'') then {obj_key (meta_of obj)}
      else if gvk_of obj = workflowGVK
      then {(om_Namespace (meta_of obj), name) | name. controlled_by ''EvalRun'' name obj}
      else {})"
  "wakes Pipelines K obj w =
     (case obj of PipelineObject p \<Rightarrow> {obj_key (ip_Meta p)}
      | VoiceModelObject vm \<Rightarrow> set (fst (mapVoiceModelToPipelines K vm w)) | _ \<Rightarrow> {})"
  by (cases obj; force simp: wakes_def setup_defs gvk_defs controlled_by_def split: prod.splits)+

lemma obj_key_iff: "obj_key m = (ns, name) \<longleftrightarrow> om_Namespace m = ns \<and> om_Name m = name"
  by (simp add: obj_key_def)

lemma sets_controllerD:
  assumes "sets_controller kind K" and "ke_set_owner K owner m = Inr m'" and "om_Name owner = name"
  shows "(kind, name) \<in> set (om_OwnerReferences m')" "om_Namespace m' = om_Namespace m"
  using assms unfolding sets_controller_def obj_key_def by fastforce+

lemma VoiceModel_wake_calls:
  assumes "keyed K" and "sets_controller ''VoiceModel'' K"
  shows "makes (wake_call VMs req K2 w2) w (snd (VoiceModel_Reconcile K req w))"
proof (rule VoiceModel_Reconcile_makes [where Q = "\<lambda>vm. obj_key (vm_Meta vm) = req"])
  have owned: "wake_call VMs req K2 w2 (GetDeployment (fst req) name)"
    "wake_call VMs req K2 w2 (GetService (fst req) name)" for name
    by (auto simp: wake_call_def wakes_simps setup_defs obj_key_def gvk_defs prod_eq_iff)
  show "vm_calls (wake_call VMs req K2 w2) K (\<lambda>vm. obj_key (vm_Meta vm) = req)"
    unfolding vm_calls_def
  proof (intro conjI allI impI)
    fix vm :: VoiceModel assume k: "obj_key (vm_Meta vm) = req"
    then have ns: "om_Namespace (vm_Meta vm) = fst req" and nm: "om_Name (vm_Meta vm) = snd req"
      by (auto simp: obj_key_def)
    show "wake_call VMs req K2 w2 (GetDeployment (om_Namespace (vm_Meta vm)) (deploymentName vm))"
      "wake_call VMs req K2 w2 (GetService (om_Namespace (vm_Meta vm)) (serviceName vm))"
      using owned by (simp_all add: ns)
    show "wake_call VMs req K2 w2 (CreateDeployment ((buildDeployment vm)\<lparr>dp_Meta := m\<rparr>))"
      if "ke_set_owner K (vm_Meta vm) (dp_Meta (buildDeployment vm)) = Inr m" for m
      using sets_controllerD [OF assms(2) that nm]
      by (simp add: wake_call_def controlled_by_def setup_defs buildDeployment_def object_meta_def ns Let_def)
    show "wake_call VMs req K2 w2 (CreateService ((buildService vm)\<lparr>svc_Meta := m\<rparr>))"
      if "ke_set_owner K (vm_Meta vm) (svc_Meta (buildService vm)) = Inr m" for m
      using sets_controllerD [OF assms(2) that nm]
      by (simp add: wake_call_def controlled_by_def setup_defs buildService_def object_meta_def ns Let_def)
  qed (simp_all add: wake_call_def)
  show "wake_call VMs req K2 w2 (GetVoiceModel (fst req) (snd req))"
    by (simp add: wake_call_def wakes_simps)
next
  fix n vm assume "ke_get_voicemodel K n (fst req) (snd req) = Inr vm"
  then show "obj_key (vm_Meta vm) = req" using assms(1) unfolding keyed_def by fastforce
next
  fix n vm fs vm' assume "obj_key (vm_Meta vm) = req"
    and "ke_update_voicemodel K n (vm\<lparr>vm_Meta := (vm_Meta vm)\<lparr>om_Finalizers := fs\<rparr>\<rparr>) = Inr vm'"
  then show "obj_key (vm_Meta vm') = req" using assms(1) unfolding keyed_def by (fastforce simp: obj_key_def)
qed

lemma EvalRun_wake_calls:
  assumes "keyed K" and "sets_controller ''EvalRun'' K"
  shows "makes (wake_call EvalRuns req K2 w2) w (snd (EvalRun_Reconcile K req w))"
proof (rule EvalRun_Reconcile_makes [where Q = "\<lambda>er. obj_key (er_Meta er) = req"])
  have owned: "wake_call EvalRuns req K2 w2 (GetWorkflow (fst req) name)" for name
    by (auto simp: wake_call_def wakes_simps setup_defs obj_key_def gvk_defs prod_eq_iff)
  show "er_calls (wake_call EvalRuns req K2 w2) K (\<lambda>er. obj_key (er_Meta er) = req)"
    unfolding er_calls_def
  proof (intro conjI allI impI)
    fix er :: EvalRun assume k: "obj_key (er_Meta er) = req"
    then have ns: "om_Namespace (er_Meta er) = fst req" and nm: "om_Name (er_Meta er) = snd req"
      by (auto simp: obj_key_def)
    show "wake_call EvalRuns req K2 w2 (GetWorkflow (om_Namespace (er_Meta er)) (et_WorkflowRef (er_Status er)))"
      using owned by (simp add: ns)
    show "wake_call EvalRuns req K2 w2 (CreateWorkflow ((buildWorkflow er)\<lparr>wf_Meta := m\<rparr>))"
      if "ke_set_owner K (er_Meta er) (wf_Meta (buildWorkflow er)) = Inr m" for m
      using sets_controllerD [OF assms(2) that nm]
      by (simp add: wake_call_def controlled_by_def setup_defs buildWorkflow_def object_meta_def ns Let_def)
  qed (simp_all add: wake_call_def)
  show "wake_call EvalRuns req K2 w2 (GetEvalRun (fst req) (snd req))"
    by (simp add: wake_call_def wakes_simps)
next
  fix n er assume "ke_get_evalrun K n (fst req) (snd req) = Inr er"
  then show "obj_key (er_Meta er) = req" using assms(1) unfolding keyed_def by fastforce
qed

lemma pipeline_requests_member:
  "p \<in> set items \<Longrightarrow> refers_to name (ip_Stages p) \<Longrightarrow> obj_key (ip_Meta p) \<in> set (pipeline_requests name items)"
  by (induction items) (auto simp: obj_key_def)

lemma refers_to_iff: "refers_to name stages \<longleftrightarrow> name \<in> ps_Model ` set stages"
  by (induction stages) auto

lemma InferencePipeline_wake_calls:
  assumes K: "keyed K" and listed: "still_listed K req K2 (call_no w2)"
  shows "makes (wake_call Pipelines req K2 w2) w (snd (InferencePipeline_Reconcile K req w))"
proof (rule InferencePipeline_Reconcile_makes)
  have own: "\<exists>p. obj = PipelineObject p" if "gvk_of obj = (GroupVersion, ''InferencePipeline'')" for obj
    using that by (cases obj) (simp_all add: gvk_defs)
  show "wake_call Pipelines req K2 w2 (GetPipeline (fst req) (snd req))"
    using own by (fastforce simp: wake_call_def wakes_simps)
  show "wake_call Pipelines req K2 w2 (UpdatePipelineStatus p)" for p
    by (simp add: wake_call_def)
  fix n p assume p: "ke_get_pipeline K n (fst req) (snd req) = Inr p"
  then have "obj_key (ip_Meta p) = (fst req, snd req)" using K unfolding keyed_def by blast
  then have ns: "om_Namespace (ip_Meta p) = fst req" by (auto simp: obj_key_def)
  obtain items q where items: "ke_list_pipelines K2 (call_no w2) (fst req) = Inr items"
      "q \<in> set items" "obj_key (ip_Meta q) = req" "ip_Stages q = ip_Stages p"
    using listed p unfolding still_listed_def by blast
  have "wake_call Pipelines req K2 w2 (GetVoiceModel (fst req) (ps_Model s))" if s: "s \<in> set (ip_Stages p)" for s
  proof -
    have "req \<in> wakes Pipelines K2 (VoiceModelObject vm) w2" if "obj_key (vm_Meta vm) = (fst req, ps_Model s)" for vm
    proof -
      have "refers_to (ps_Model s) (ip_Stages q)" using s items(4) by (simp add: refers_to_iff)
      then have "req \<in> set (pipeline_requests (ps_Model s) items)"
        using pipeline_requests_member [OF items(2)] items(3) by metis
      then show ?thesis using that items(1)
        by (simp add: wakes_simps mapVoiceModelToPipelines_def list_pipelines_def obj_key_def)
    qed
    moreover have "\<exists>vm. obj = VoiceModelObject vm" if "gvk_of obj = (GroupVersion, ''VoiceModel'')" for obj
      using that by (cases obj) (simp_all add: gvk_defs)
    ultimately show ?thesis by (fastforce simp: wake_call_def)
  qed
  then show "list_all (wake_call Pipelines req K2 w2) (gets (om_Namespace (ip_Meta p)) (ip_Stages p))"
    by (auto simp: gets_def list_all_iff ns)
qed

text \<open>C9: no lost wake-ups. Whatever object a reconciliation has read, of any of the three
  controllers and for any answers of the API server, a change of that object enqueues the same
  request again; for the kinds a controller owns, provided the object carries the controller
  reference, as every object does that a reconciliation creates. So a pipeline is reconciled again
  when any model it looked up changes, is created or deleted, as long as the pipelines can be
  listed.\<close>

theorem no_lost_wakeups:
  assumes "keyed K" and "sets_controller (kind_of ctl) K"
    and "ctl = Pipelines \<Longrightarrow> still_listed K req K2 (call_no w2)"
    and "reconcile_of ctl K req w = (res, w')" and "kw_calls w' = kw_calls w @ cs" and "c \<in> set cs"
  shows "(reads c = Some (gvk_of obj, obj_key (meta_of obj)) \<longrightarrow>
      (Owns (gvk_of obj) \<in> set (watches_of ctl) \<longrightarrow> controlled_by (kind_of ctl) (snd req) obj) \<longrightarrow>
      req \<in> wakes ctl K2 obj w2) \<and>
    (creates c = Some made \<longrightarrow>
      controlled_by (kind_of ctl) (snd req) made \<and> Owns (gvk_of made) \<in> set (watches_of ctl) \<and>
      om_Namespace (meta_of made) = fst req)"
proof -
  have "makes (wake_call ctl req K2 w2) w (snd (reconcile_of ctl K req w))"
    using VoiceModel_wake_calls [OF assms(1)] EvalRun_wake_calls [OF assms(1)]
      InferencePipeline_wake_calls [OF assms(1)] assms(2, 3) by (cases ctl) simp_all
  then have "wake_call ctl req K2 w2 c"
    using assms(4, 5, 6) by (auto simp: makes_def list_all_iff)
  then show ?thesis unfolding wake_call_def by blast
qed

text \<open>The other side of the reference: a Deployment that was there before the model, which the
  controller takes over without setting the reference, wakes no model.\<close>

lemma adopted_deployment_sleeps:
  assumes "\<forall>name. \<not> controlled_by ''VoiceModel'' name (DeploymentObject d)"
  shows "wakes VMs K (DeploymentObject d) w = {}"
  using assms by (simp add: wakes_simps gvk_defs)

lemma reconcileDeployment_adopts:
  assumes "ke_set_owner K (vm_Meta vm) (dp_Meta (buildDeployment vm)) = Inr m"
    and "ke_get_deployment K (call_no w) (om_Namespace (vm_Meta vm)) (deploymentName vm) = Inr d"
  shows "kw_calls (snd (reconcileDeployment K vm w)) =
    kw_calls w @ [GetDeployment (om_Namespace (vm_Meta vm)) (deploymentName vm),
      UpdateDeployment (d\<lparr>dp_Spec := dp_Spec (buildDeployment vm)\<rparr>)]"
  using assms by (simp add: reconcileDeployment_def world_defs Let_def)

definition owning_kenv :: "string \<Rightarrow> kenv \<Rightarrow> kenv" where
  "owning_kenv kind K =
     K\<lparr>ke_set_owner := (\<lambda>owner meta. Inr (meta\<lparr>om_OwnerReferences := [(kind, om_Name owner)]\<rparr>))\<rparr>"

lemma owning_kenv_sets: "sets_controller kind (owning_kenv kind K)"
  by (simp add: sets_controller_def owning_kenv_def obj_key_def)

lemma find_named_key: "find_named meta objs ns name = Inr x \<Longrightarrow> obj_key (meta x) = (ns, name)"
  by (auto simp: find_named_def obj_key_def find_Some_iff split: option.splits)

lemma example_kenv_keyed: "keyed (owning_kenv kind (example_kenv vms deps pipes runs wfs))"
  by (auto simp: keyed_def owning_kenv_def example_kenv_def dest: find_named_key)

definition example_wake_kenv :: kenv where
  "example_wake_kenv = owning_kenv ''InferencePipeline'' example_pipeline_kenv"

lemma example_wake_facts:
  "keyed example_wake_kenv" "sets_controller ''InferencePipeline'' example_wake_kenv"
  "still_listed example_wake_kenv (''vox'', ''calls'') example_wake_kenv n"
  "GetVoiceModel ''vox'' ''whisper'' \<in>
     set (kw_calls (snd (InferencePipeline_Reconcile example_wake_kenv (''vox'', ''calls'') new_kworld)))"
proof -
  show "keyed example_wake_kenv" "sets_controller ''InferencePipeline'' example_wake_kenv"
    by (simp_all add: example_wake_kenv_def example_pipeline_kenv_def example_kenv_keyed owning_kenv_sets)
  show "still_listed example_wake_kenv (''vox'', ''calls'') example_wake_kenv n"
    by (simp add: still_listed_def example_wake_kenv_def owning_kenv_def example_pipeline_kenv_def
        example_kenv_def example_pipeline_def object_meta_def find_named_def obj_key_def)
  show "GetVoiceModel ''vox'' ''whisper'' \<in>
     set (kw_calls (snd (InferencePipeline_Reconcile example_wake_kenv (''vox'', ''calls'') new_kworld)))"
    by code_simp
qed

theorem no_lost_wakeups_witness:
  "(''vox'', ''calls'') \<in> wakes Pipelines example_wake_kenv (VoiceModelObject (example_voicemodel [] None)) new_kworld"
proof -
  let ?r = "reconcile_of Pipelines example_wake_kenv (''vox'', ''calls'') new_kworld"
  have "?r = (fst ?r, snd ?r)" "kw_calls (snd ?r) = kw_calls new_kworld @ kw_calls (snd ?r)"
    by (simp_all add: new_kworld_def)
  from no_lost_wakeups [OF example_wake_facts(1) _ _ this, where obj = "VoiceModelObject (example_voicemodel [] None)"
      and c = "GetVoiceModel ''vox'' ''whisper''" and ?K2.0 = example_wake_kenv and ?w2.0 = new_kworld]
  show ?thesis using example_wake_facts
    by (simp add: example_voicemodel_def obj_key_def InferencePipeline_SetupWithManager_def)
qed

end
