(* ===== verification/OperatorMain.thy ===== *)
theory OperatorMain
  imports Operator
begin

section \<open>The operator process (operator/cmd/main.go)\<close>

text \<open>
  The options the flags stand for, the servers and the manager built from them, and the start-up
  sequence. What controller-runtime does with the options, and whether a step fails, is a
  parameter: \<open>fails step\<close> is the error of a step. A TLS configuration is the list of protocols the
  server offers; the options hold functions on it, as in the code.
\<close>

subsection \<open>Flags\<close>

record operator_flags =
  fl_metricsAddr :: string
  fl_probeAddr :: string
  fl_enableLeaderElection :: bool
  fl_secureMetrics :: bool
  fl_webhookCertPath :: string
  fl_webhookCertName :: string
  fl_webhookCertKey :: string
  fl_metricsCertPath :: string
  fl_metricsCertName :: string
  fl_metricsCertKey :: string
  fl_enableHTTP2 :: bool

definition flag_defaults :: operator_flags where
  "flag_defaults =
     \<lparr>fl_metricsAddr = ''0'', fl_probeAddr = '':8081'', fl_enableLeaderElection = False,
      fl_secureMetrics = True, fl_webhookCertPath = '''', fl_webhookCertName = ''tls.crt'',
      fl_webhookCertKey = ''tls.key'', fl_metricsCertPath = '''', fl_metricsCertName = ''tls.crt'',
      fl_metricsCertKey = ''tls.key'', fl_enableHTTP2 = False\<rparr>"

text \<open>\<open>strconv.ParseBool\<close>, which the flag package uses for the value of a boolean flag.\<close>

definition parse_bool :: "string \<Rightarrow> bool option" where
  "parse_bool s =
     (if s \<in> {''1'', ''t'', ''T'', ''true'', ''TRUE'', ''True''} then Some True
      else if s \<in> {''0'', ''f'', ''F'', ''false'', ''FALSE'', ''False''} then Some False
      else None)"

text \<open>One flag of the command line, by its name and the text of its value; \<open>None\<close> for a name that
  is not registered or a value that does not parse.\<close>

definition set_flag :: "string \<Rightarrow> string \<Rightarrow> operator_flags \<Rightarrow> operator_flags option" where
  "set_flag name v fl =
     (if name = ''metrics-bind-address'' then Some (fl\<lparr>fl_metricsAddr := v\<rparr>)
      else if name = ''health-probe-bind-address'' then Some (fl\<lparr>fl_probeAddr := v\<rparr>)
      else if name = ''leader-elect'' then map_option (\<lambda>b. fl\<lparr>fl_enableLeaderElection := b\<rparr>) (parse_bool v)
      else if name = ''metrics-secure'' then map_option (\<lambda>b. fl\<lparr>fl_secureMetrics := b\<rparr>) (parse_bool v)
      else if name = ''webhook-cert-path'' then Some (fl\<lparr>fl_webhookCertPath := v\<rparr>)
      else if name = ''webhook-cert-name'' then Some (fl\<lparr>fl_webhookCertName := v\<rparr>)
      else if name = ''webhook-cert-key'' then Some (fl\<lparr>fl_webhookCertKey := v\<rparr>)
      else if name = ''metrics-cert-path'' then Some (fl\<lparr>fl_metricsCertPath := v\<rparr>)
      else if name = ''metrics-cert-name'' then Some (fl\<lparr>fl_metricsCertName := v\<rparr>)
      else if name = ''metrics-cert-key'' then Some (fl\<lparr>fl_metricsCertKey := v\<rparr>)
      else if name = ''enable-http2'' then map_option (\<lambda>b. fl\<lparr>fl_enableHTTP2 := b\<rparr>) (parse_bool v)
      else None)"

text \<open>The command line with its flags split into names and values. A flag the logging library
  registers (\<open>log_flag\<close>) is not the operator's. The first flag that is refused ends the process
  with code 2, a request for help with code 0.\<close>

fun parse_flags ::
    "(string \<Rightarrow> string \<Rightarrow> bool) \<Rightarrow> (string \<times> string) list \<Rightarrow> operator_flags \<Rightarrow> nat + operator_flags" where
  "parse_flags log_flag [] fl = Inr fl"
| "parse_flags log_flag ((name, v) # args) fl =
     (case set_flag name v fl of
        Some fl' \<Rightarrow> parse_flags log_flag args fl'
      | None \<Rightarrow> if log_flag name v then parse_flags log_flag args fl
                else Inl (if name = ''help'' \<or> name = ''h'' then 0 else 2))"

subsection \<open>Options\<close>

record tls_config =
  tc_NextProtos :: "string list"

type_synonym tls_opts = "(tls_config \<Rightarrow> tls_config) list"

definition disableHTTP2 :: "tls_config \<Rightarrow> tls_config" where
  "disableHTTP2 c = c\<lparr>tc_NextProtos := [''http/1.1'']\<rparr>"

definition tlsOpts :: "operator_flags \<Rightarrow> tls_opts" where
  "tlsOpts fl = (if \<not> fl_enableHTTP2 fl then [disableHTTP2] else [])"

record webhook_options =
  wo_TLSOpts :: tls_opts
  wo_CertDir :: string
  wo_CertName :: string
  wo_KeyName :: string

definition webhookServerOptions :: "operator_flags \<Rightarrow> webhook_options" where
  "webhookServerOptions fl =
     (let opts = \<lparr>wo_TLSOpts = tlsOpts fl, wo_CertDir = '''', wo_CertName = '''', wo_KeyName = ''''\<rparr>
      in if 0 < length (fl_webhookCertPath fl)
         then opts\<lparr>wo_CertDir := fl_webhookCertPath fl, wo_CertName := fl_webhookCertName fl,
                   wo_KeyName := fl_webhookCertKey fl\<rparr>
         else opts)"

record metrics_options =
  mo_BindAddress :: string
  mo_SecureServing :: bool
  mo_TLSOpts :: tls_opts
  mo_FilterProvider :: bool
  mo_CertDir :: string
  mo_CertName :: string
  mo_KeyName :: string

definition metricsServerOptions :: "operator_flags \<Rightarrow> metrics_options" where
  "metricsServerOptions fl =
     (let opts = \<lparr>mo_BindAddress = fl_metricsAddr fl, mo_SecureServing = fl_secureMetrics fl,
                  mo_TLSOpts = tlsOpts fl, mo_FilterProvider = False, mo_CertDir = '''', mo_CertName = '''',
                  mo_KeyName = ''''\<rparr>;
          opts1 = (if fl_secureMetrics fl then opts\<lparr>mo_FilterProvider := True\<rparr> else opts)
      in if 0 < length (fl_metricsCertPath fl)
         then opts1\<lparr>mo_CertDir := fl_metricsCertPath fl, mo_CertName := fl_metricsCertName fl,
                    mo_KeyName := fl_metricsCertKey fl\<rparr>
         else opts1)"

record manager_options =
  go_Metrics :: metrics_options
  go_Webhook :: webhook_options
  go_HealthProbeBindAddress :: string
  go_LeaderElection :: bool
  go_LeaderElectionID :: string

definition managerOptions :: "operator_flags \<Rightarrow> manager_options" where
  "managerOptions fl =
     \<lparr>go_Metrics = metricsServerOptions fl, go_Webhook = webhookServerOptions fl,
      go_HealthProbeBindAddress = fl_probeAddr fl, go_LeaderElection = fl_enableLeaderElection fl,
      go_LeaderElectionID = ''e7f9c729.vox.io''\<rparr>"

subsection \<open>Start-up\<close>

datatype startup_step =
    GetConfig | NewManager manager_options | SetupController string | AddHealthzCheck string | AddReadyzCheck string
  | StartManager

text \<open>Each step that fails ends the process with code 1; the steps made so far come first.\<close>

fun run_steps :: "(startup_step \<Rightarrow> goerror option) \<Rightarrow> startup_step list \<Rightarrow> startup_step list \<times> nat" where
  "run_steps fails [] = ([], 0)"
| "run_steps fails (s # ss) =
     (case fails s of
        Some err \<Rightarrow> ([s], 1)
      | None \<Rightarrow> (let (made, code) = run_steps fails ss in (s # made, code)))"

definition operator_steps :: "operator_flags \<Rightarrow> startup_step list" where
  "operator_steps fl =
     [GetConfig, NewManager (managerOptions fl), SetupController ''VoiceModel'', SetupController ''InferencePipeline'',
      SetupController ''EvalRun'', AddHealthzCheck ''healthz'', AddReadyzCheck ''readyz'', StartManager]"

definition operator_main ::
    "(string \<Rightarrow> string \<Rightarrow> bool) \<Rightarrow> (startup_step \<Rightarrow> goerror option) \<Rightarrow> (string \<times> string) list \<Rightarrow>
     startup_step list \<times> nat" where
  "operator_main log_flag fails args =
     (case parse_flags log_flag args flag_defaults of
        Inl code \<Rightarrow> ([], code)
      | Inr fl \<Rightarrow> run_steps fails (operator_steps fl))"

subsection \<open>Properties\<close>

lemma run_steps_spec:
  assumes "run_steps fails ss = (made, code)"
  shows "\<exists>n. made = take n ss" and "list_all (\<lambda>s. fails s = None) (butlast made)"
    and "code = (if list_all (\<lambda>s. fails s = None) ss then 0 else 1)"
    and "code = 0 \<Longrightarrow> made = ss"
  using assms
proof (induction ss arbitrary: made code)
  case (Cons s ss)
  {
    case 1
    show ?case
    proof (cases "fails s")
      case None
      obtain m c where r: "run_steps fails ss = (m, c)" by fastforce
      from Cons.IH(1) [OF r] obtain n where "m = take n ss" by blast
      with 1 None r show ?thesis by (intro exI [of _ "Suc n"]) simp
    next
      case (Some err)
      with 1 show ?thesis by (intro exI [of _ "Suc 0"]) auto
    qed
  next
    case 2
    obtain m c where r: "run_steps fails ss = (m, c)" by fastforce
    with 2 Cons.IH(2) [OF r] show ?case by (cases "fails s") auto
  next
    case 3
    obtain m c where r: "run_steps fails ss = (m, c)" by fastforce
    with 3 Cons.IH(3) [OF r] show ?case by (cases "fails s") auto
  next
    case 4
    obtain m c where r: "run_steps fails ss = (m, c)" by fastforce
    with 4 Cons.IH(4) [OF _ r] show ?case by (cases "fails s") auto
  }
qed simp_all



definition apply_tls :: "tls_opts \<Rightarrow> tls_config \<Rightarrow> tls_config" where
  "apply_tls opts c = fold (\<lambda>f c. f c) opts c"

lemma set_flag_http2: "set_flag n v a = Some b \<Longrightarrow> n \<noteq> ''enable-http2'' \<Longrightarrow> fl_enableHTTP2 b = fl_enableHTTP2 a"
  by (auto simp: set_flag_def split: if_split_asm)

lemma set_flag_secure: "set_flag n v a = Some b \<Longrightarrow> n \<noteq> ''metrics-secure'' \<Longrightarrow> fl_secureMetrics b = fl_secureMetrics a"
  by (auto simp: set_flag_def split: if_split_asm)

lemma set_flag_addr: "set_flag n v a = Some b \<Longrightarrow> n \<noteq> ''metrics-bind-address'' \<Longrightarrow> fl_metricsAddr b = fl_metricsAddr a"
  by (auto simp: set_flag_def split: if_split_asm)

lemma parse_flags_keeps:
  assumes "parse_flags log_flag args fl = Inr fl'" and "name \<notin> fst ` set args"
  shows "name = ''enable-http2'' \<Longrightarrow> fl_enableHTTP2 fl' = fl_enableHTTP2 fl"
    and "name = ''metrics-secure'' \<Longrightarrow> fl_secureMetrics fl' = fl_secureMetrics fl"
    and "name = ''metrics-bind-address'' \<Longrightarrow> fl_metricsAddr fl' = fl_metricsAddr fl"
proof -
  have k: "(name = ''enable-http2'' \<longrightarrow> fl_enableHTTP2 b = fl_enableHTTP2 a) \<and>
      (name = ''metrics-secure'' \<longrightarrow> fl_secureMetrics b = fl_secureMetrics a) \<and>
      (name = ''metrics-bind-address'' \<longrightarrow> fl_metricsAddr b = fl_metricsAddr a)"
    if "set_flag n v a = Some b" "n \<noteq> name" for n v a b
    using set_flag_http2 [OF that(1)] set_flag_secure [OF that(1)] set_flag_addr [OF that(1)] that(2) by blast
  have "(name = ''enable-http2'' \<longrightarrow> fl_enableHTTP2 fl' = fl_enableHTTP2 fl) \<and>
      (name = ''metrics-secure'' \<longrightarrow> fl_secureMetrics fl' = fl_secureMetrics fl) \<and>
      (name = ''metrics-bind-address'' \<longrightarrow> fl_metricsAddr fl' = fl_metricsAddr fl)"
    using assms
  proof (induction args arbitrary: fl)
    case (Cons a args)
    obtain n v where a: "a = (n, v)" by fastforce
    show ?case
    proof (cases "set_flag n v fl")
      case None
      with Cons a show ?thesis by (auto split: if_splits)
    next
      case (Some f)
      with Cons.prems a have "parse_flags log_flag args f = Inr fl'" "name \<notin> fst ` set args" "n \<noteq> name" by auto
      with Cons.IH k [OF Some] show ?thesis by metis
    qed
  qed simp
  then show "name = ''enable-http2'' \<Longrightarrow> fl_enableHTTP2 fl' = fl_enableHTTP2 fl"
    and "name = ''metrics-secure'' \<Longrightarrow> fl_secureMetrics fl' = fl_secureMetrics fl"
    and "name = ''metrics-bind-address'' \<Longrightarrow> fl_metricsAddr fl' = fl_metricsAddr fl" by blast+
qed



end
