(* ===== verification/GoMemory.thy ===== *)
theory GoMemory
  imports Prelude "HOL-Library.Monad_Syntax"
begin

section \<open>A Go heap with pointers and slices\<close>

text \<open>
  The memory the generated deep copies work on. Go's allocator hands out blocks; a block is an
  array of values of one type (\<open>new(T)\<close> an array of one element), so a cell of the heap holds a
  list. A pointer is nil or an element of an array, a slice is nil or a window of an array:
  two slices may share one. The type \<open>'c\<close> of cells is a sum of the element types, and a
  \<open>cell_type\<close> says which summand a load expects.

  An operation takes and returns the memory; \<open>None\<close> stands for a load that finds no cell, or
  one of another type, which in Go cannot happen: the lemmas show that it does not happen here
  either. The locale \<open>deep_copy\<close> is the contract of a copying function: \<open>view\<close> reads the value
  a structure represents, \<open>foot\<close> is the set of blocks that reading depends on, and \<open>copy\<close>
  returns a structure with the same value whose blocks are all new, and changes no old block.
  Pointers, slices and structures of deep copies are deep copies.
\<close>

subsection \<open>Memory, pointers, slices\<close>

type_synonym addr = nat
type_synonym pointer = "(addr \<times> nat) option"
type_synonym slice = "(addr \<times> nat \<times> nat) option"

record 'c memory =
  mem_next :: addr
  mem_cells :: "addr \<Rightarrow> 'c option"

definition mem_wf :: "'c memory \<Rightarrow> bool" where
  "mem_wf m \<longleftrightarrow> (\<forall>a \<ge> mem_next m. mem_cells m a = None)"

definition reserve :: "'c memory \<Rightarrow> addr \<times> 'c memory" where
  "reserve m = (mem_next m, m\<lparr>mem_next := Suc (mem_next m)\<rparr>)"

definition store :: "addr \<Rightarrow> 'c \<Rightarrow> 'c memory \<Rightarrow> 'c memory" where
  "store a c m = m\<lparr>mem_cells := (mem_cells m)(a \<mapsto> c)\<rparr>"

record ('c, 'a) cell_type =
  ct_get :: "'c \<Rightarrow> 'a list option"
  ct_put :: "'a list \<Rightarrow> 'c"

definition lawful :: "('c, 'a) cell_type \<Rightarrow> bool" where
  "lawful T \<longleftrightarrow> (\<forall>xs. ct_get T (ct_put T xs) = Some xs)"

definition load_window :: "('c, 'a) cell_type \<Rightarrow> addr \<Rightarrow> nat \<Rightarrow> nat \<Rightarrow> 'c memory \<Rightarrow> 'a list option" where
  "load_window T a off n m = do {
     c \<leftarrow> mem_cells m a;
     xs \<leftarrow> ct_get T c;
     if off + n \<le> length xs then Some (take n (drop off xs)) else None }"

definition load :: "('c, 'a) cell_type \<Rightarrow> addr \<Rightarrow> nat \<Rightarrow> 'c memory \<Rightarrow> 'a option" where
  "load T a i m = map_option hd (load_window T a i 1 m)"

subsection \<open>Copying\<close>

text \<open>
  The statements the generator emits. A field without pointers is copied by \<open>*out = *in\<close>
  (\<open>assign\<close>). For a pointer field it allocates and copies the target; for a slice field it
  makes an array of the slice's length and copies the elements in order. The new block gets its
  address first and its contents when the copy of the contents has returned: nothing else knows
  the address in between.
\<close>

type_synonym ('c, 'a) copier = "'a \<Rightarrow> 'c memory \<Rightarrow> ('a \<times> 'c memory) option"

definition assign :: "('c, 'a) copier" where
  "assign x m = Some (x, m)"

definition copy_pointer :: "('c, 'a) cell_type \<Rightarrow> ('c, 'a) copier \<Rightarrow> ('c, pointer) copier" where
  "copy_pointer T cp p m =
     (case p of
        None \<Rightarrow> Some (None, m)
      | Some (a, i) \<Rightarrow> do {
          x \<leftarrow> load T a i m;
          let (b, m1) = reserve m;
          (y, m2) \<leftarrow> cp x m1;
          Some (Some (b, 0), store b (ct_put T [y]) m2) })"

fun copy_each :: "('c, 'a) copier \<Rightarrow> ('c, 'a list) copier" where
  "copy_each cp [] m = Some ([], m)"
| "copy_each cp (x # xs) m = do {
     (y, m1) \<leftarrow> cp x m;
     (ys, m2) \<leftarrow> copy_each cp xs m1;
     Some (y # ys, m2) }"

definition copy_slice :: "('c, 'a) cell_type \<Rightarrow> ('c, 'a) copier \<Rightarrow> ('c, slice) copier" where
  "copy_slice T cp s m =
     (case s of
        None \<Rightarrow> Some (None, m)
      | Some (a, off, n) \<Rightarrow> do {
          xs \<leftarrow> load_window T a off n m;
          let (b, m1) = reserve m;
          (ys, m2) \<leftarrow> copy_each cp xs m1;
          Some (Some (b, 0, n), store b (ct_put T ys) m2) })"

definition copy_pair :: "('c, 'a) copier \<Rightarrow> ('c, 'b) copier \<Rightarrow> ('c, 'a \<times> 'b) copier" where
  "copy_pair c1 c2 p m = do {
     (x, m1) \<leftarrow> c1 (fst p) m;
     (y, m2) \<leftarrow> c2 (snd p) m1;
     Some ((x, y), m2) }"

subsection \<open>What a structure in memory represents\<close>

type_synonym ('c, 'a, 'v) viewer = "'c memory \<Rightarrow> 'a \<Rightarrow> 'v option"
type_synonym ('c, 'a) footprint = "'c memory \<Rightarrow> 'a \<Rightarrow> addr set"

definition view_value :: "('c, 'a, 'a) viewer" where
  "view_value m x = Some x"

definition foot_value :: "('c, 'a) footprint" where
  "foot_value m x = {}"

fun view_each :: "('c, 'a, 'v) viewer \<Rightarrow> ('c, 'a list, 'v list) viewer" where
  "view_each vw m [] = Some []"
| "view_each vw m (x # xs) = do { v \<leftarrow> vw m x; vs \<leftarrow> view_each vw m xs; Some (v # vs) }"

definition view_pointer :: "('c, 'a) cell_type \<Rightarrow> ('c, 'a, 'v) viewer \<Rightarrow> ('c, pointer, 'v option) viewer" where
  "view_pointer T vw m p =
     (case p of
        None \<Rightarrow> Some None
      | Some (a, i) \<Rightarrow> do { x \<leftarrow> load T a i m; v \<leftarrow> vw m x; Some (Some v) })"

definition foot_pointer :: "('c, 'a) cell_type \<Rightarrow> ('c, 'a) footprint \<Rightarrow> ('c, pointer) footprint" where
  "foot_pointer T ft m p =
     (case p of
        None \<Rightarrow> {}
      | Some (a, i) \<Rightarrow> insert a (case load T a i m of None \<Rightarrow> {} | Some x \<Rightarrow> ft m x))"

definition view_slice :: "('c, 'a) cell_type \<Rightarrow> ('c, 'a, 'v) viewer \<Rightarrow> ('c, slice, 'v list option) viewer" where
  "view_slice T vw m s =
     (case s of
        None \<Rightarrow> Some None
      | Some (a, off, n) \<Rightarrow> do { xs \<leftarrow> load_window T a off n m; vs \<leftarrow> view_each vw m xs; Some (Some vs) })"

definition foot_slice :: "('c, 'a) cell_type \<Rightarrow> ('c, 'a) footprint \<Rightarrow> ('c, slice) footprint" where
  "foot_slice T ft m s =
     (case s of
        None \<Rightarrow> {}
      | Some (a, off, n) \<Rightarrow>
          insert a (case load_window T a off n m of None \<Rightarrow> {} | Some xs \<Rightarrow> (\<Union>x \<in> set xs. ft m x)))"

definition view_pair :: "('c, 'a, 'v) viewer \<Rightarrow> ('c, 'b, 'w) viewer \<Rightarrow> ('c, 'a \<times> 'b, 'v \<times> 'w) viewer" where
  "view_pair v1 v2 m p = do { a \<leftarrow> v1 m (fst p); b \<leftarrow> v2 m (snd p); Some (a, b) }"

definition foot_pair :: "('c, 'a) footprint \<Rightarrow> ('c, 'b) footprint \<Rightarrow> ('c, 'a \<times> 'b) footprint" where
  "foot_pair f1 f2 m p = f1 m (fst p) \<union> f2 m (snd p)"

subsection \<open>Memories that grow\<close>

definition grows :: "'c memory \<Rightarrow> 'c memory \<Rightarrow> bool" where
  "grows m m' \<longleftrightarrow> mem_wf m' \<and> mem_next m \<le> mem_next m' \<and>
     (\<forall>a < mem_next m. mem_cells m' a = mem_cells m a)"

definition agree_on :: "addr set \<Rightarrow> 'c memory \<Rightarrow> 'c memory \<Rightarrow> bool" where
  "agree_on A m m' \<longleftrightarrow> (\<forall>a \<in> A. mem_cells m' a = mem_cells m a)"

lemma grows_refl [simp]: "grows m m \<longleftrightarrow> mem_wf m"
  by (simp add: grows_def)

lemma grows_trans: "grows m m1 \<Longrightarrow> grows m1 m2 \<Longrightarrow> grows m m2"
  by (auto simp: grows_def)

lemma grows_wf: "grows m m' \<Longrightarrow> mem_wf m'"
  by (simp add: grows_def)

lemma grows_next: "grows m m' \<Longrightarrow> mem_next m \<le> mem_next m'"
  by (simp add: grows_def)

lemma agree_on_mono: "agree_on B m m' \<Longrightarrow> A \<subseteq> B \<Longrightarrow> agree_on A m m'"
  by (auto simp: agree_on_def)

lemma agree_on_Un [simp]: "agree_on (A \<union> B) m m' \<longleftrightarrow> agree_on A m m' \<and> agree_on B m m'"
  by (auto simp: agree_on_def)

lemma agree_on_insert [simp]:
  "agree_on (insert a A) m m' \<longleftrightarrow> mem_cells m' a = mem_cells m a \<and> agree_on A m m'"
  by (auto simp: agree_on_def)

lemma agree_on_empty [simp]: "agree_on {} m m'"
  by (simp add: agree_on_def)

lemma mem_wf_dom: "mem_wf m \<Longrightarrow> dom (mem_cells m) \<subseteq> {..<mem_next m}"
  by (force simp: mem_wf_def dom_def not_le [symmetric])

lemma grows_agree: "mem_wf m \<Longrightarrow> grows m m' \<Longrightarrow> A \<subseteq> dom (mem_cells m) \<Longrightarrow> agree_on A m m'"
  using mem_wf_dom [of m] by (auto simp: grows_def agree_on_def)

lemma grows_reserve: "mem_wf m \<Longrightarrow> reserve m = (b, m1) \<Longrightarrow> b = mem_next m \<and> grows m m1 \<and> mem_next m1 = Suc b"
  by (auto simp: reserve_def grows_def mem_wf_def)

lemma grows_store: "grows m m' \<Longrightarrow> mem_next m \<le> b \<Longrightarrow> b < mem_next m' \<Longrightarrow> grows m (store b c m')"
  by (auto simp: grows_def store_def mem_wf_def)

lemma next_store [simp]: "mem_next (store b c m) = mem_next m"
  by (simp add: store_def)

lemma cells_store [simp]: "mem_cells (store b c m) = (mem_cells m)(b \<mapsto> c)"
  by (simp add: store_def)

lemma load_window_cong: "mem_cells m' a = mem_cells m a \<Longrightarrow> load_window T a off n m' = load_window T a off n m"
  by (simp add: load_window_def)

lemma load_cong: "mem_cells m' a = mem_cells m a \<Longrightarrow> load T a i m' = load T a i m"
  by (simp add: load_def load_window_def)

lemma load_window_Some: "load_window T a off n m = Some xs \<Longrightarrow> a \<in> dom (mem_cells m) \<and> length xs = n"
  by (auto simp: load_window_def bind_eq_Some_conv split: if_splits)

lemma load_Some: "load T a i m = Some x \<Longrightarrow> a \<in> dom (mem_cells m)"
  by (auto simp: load_def dest: load_window_Some)

lemma load_window_store [simp]:
  "lawful T \<Longrightarrow> n = length xs \<Longrightarrow> load_window T b 0 n (store b (ct_put T xs) m) = Some xs"
  by (simp add: load_window_def lawful_def)

lemma load_store [simp]: "lawful T \<Longrightarrow> load T b 0 (store b (ct_put T [x]) m) = Some x"
  by (simp add: load_def)


subsection \<open>The contract of a deep copy\<close>

locale heap_view =
  fixes view :: "'c memory \<Rightarrow> 'a \<Rightarrow> 'v option"
    and foot :: "'c memory \<Rightarrow> 'a \<Rightarrow> addr set"
  assumes foot_allocated: "view m x = Some v \<Longrightarrow> foot m x \<subseteq> dom (mem_cells m)"
    and view_local: "view m x = Some v \<Longrightarrow> agree_on (foot m x) m m' \<Longrightarrow> view m' x = Some v"
    and foot_local: "view m x = Some v \<Longrightarrow> agree_on (foot m x) m m' \<Longrightarrow> foot m' x = foot m x"
begin

lemma frame:
  assumes "mem_wf m" "view m x = Some v" "grows m m'"
  shows "view m' x = Some v" "foot m' x = foot m x"
  using assms view_local foot_local grows_agree foot_allocated by metis+

lemma foot_below:
  assumes "mem_wf m" "view m x = Some v"
  shows "foot m x \<subseteq> {..<mem_next m}"
  using assms foot_allocated mem_wf_dom by blast

end

locale deep_copy = heap_view view foot
  for view :: "'c memory \<Rightarrow> 'a \<Rightarrow> 'v option" and foot :: "'c memory \<Rightarrow> 'a \<Rightarrow> addr set" +
  fixes copy :: "'a \<Rightarrow> 'c memory \<Rightarrow> ('a \<times> 'c memory) option"
  assumes copies: "mem_wf m \<Longrightarrow> view m x = Some v \<Longrightarrow>
      \<exists>x' m'. copy x m = Some (x', m') \<and> grows m m' \<and> view m' x' = Some v \<and>
        foot m' x' \<subseteq> {mem_next m..<mem_next m'}"
begin

text \<open>The copy shares nothing with the original: whatever is written into the blocks of one,
  the other still represents the same value.\<close>

lemma independent:
  assumes "mem_wf m" "view m x = Some v" "copy x m = Some (x', m')"
  shows "view m' x' = Some v" "view m' x = Some v" "foot m' x' \<inter> foot m' x = {}"
    and "agree_on (- foot m' x') m' m'' \<Longrightarrow> view m'' x = Some v"
    and "agree_on (- foot m' x) m' m'' \<Longrightarrow> view m'' x' = Some v"
proof -
  from copies [OF assms(1, 2)] assms(3)
  have c: "grows m m'" "view m' x' = Some v" "foot m' x' \<subseteq> {mem_next m..<mem_next m'}" by auto
  show copy: "view m' x' = Some v" by fact
  show orig: "view m' x = Some v" using frame [OF assms(1, 2) c(1)] by simp
  show disj: "foot m' x' \<inter> foot m' x = {}"
    using c(3) foot_below [OF assms(1, 2)] frame(2) [OF assms(1, 2) c(1)] by fastforce
  show "agree_on (- foot m' x') m' m'' \<Longrightarrow> view m'' x = Some v"
    using view_local [OF orig] disj agree_on_mono by blast
  show "agree_on (- foot m' x) m' m'' \<Longrightarrow> view m'' x' = Some v"
    using view_local [OF copy] disj agree_on_mono by blast
qed

end

subsection \<open>Values, pairs and lists\<close>

lemma deep_copy_assign: "deep_copy view_value foot_value assign"
  by unfold_locales (auto simp: view_value_def foot_value_def assign_def)

lemma deep_copy_pair:
  assumes a: "deep_copy v1 f1 c1" and b: "deep_copy v2 f2 c2"
  shows "deep_copy (view_pair v1 v2) (foot_pair f1 f2) (copy_pair c1 c2)"
proof
  note a' = deep_copy.axioms(1) [OF a] and b' = deep_copy.axioms(1) [OF b]
  fix m :: "'a memory" and p v
  assume "view_pair v1 v2 m p = Some v"
  then obtain v' w' where v: "v = (v', w')" "v1 m (fst p) = Some v'" "v2 m (snd p) = Some w'"
    by (auto simp: view_pair_def bind_eq_Some_conv)
  show "foot_pair f1 f2 m p \<subseteq> dom (mem_cells m)"
    using heap_view.foot_allocated [OF a' v(2)] heap_view.foot_allocated [OF b' v(3)]
    by (simp add: foot_pair_def)
  {
    fix m' assume "agree_on (foot_pair f1 f2 m p) m m'"
    then have ag: "agree_on (f1 m (fst p)) m m'" "agree_on (f2 m (snd p)) m m'"
      by (simp_all add: foot_pair_def)
    show "view_pair v1 v2 m' p = Some v"
      using heap_view.view_local [OF a' v(2) ag(1)] heap_view.view_local [OF b' v(3) ag(2)]
      by (simp add: view_pair_def v(1))
    show "foot_pair f1 f2 m' p = foot_pair f1 f2 m p"
      using heap_view.foot_local [OF a' v(2) ag(1)] heap_view.foot_local [OF b' v(3) ag(2)]
      by (simp add: foot_pair_def)
  }
  assume wf: "mem_wf m"
  obtain x m1 where 1: "c1 (fst p) m = Some (x, m1)" "grows m m1" "v1 m1 x = Some v'"
      "f1 m1 x \<subseteq> {mem_next m..<mem_next m1}"
    using deep_copy.copies [OF a wf v(2)] by blast
  have "v2 m1 (snd p) = Some w'" by (rule heap_view.frame(1) [OF b' wf v(3) 1(2)])
  then obtain y m2 where 2: "c2 (snd p) m1 = Some (y, m2)" "grows m1 m2" "v2 m2 y = Some w'"
      "f2 m2 y \<subseteq> {mem_next m1..<mem_next m2}"
    using deep_copy.copies [OF b grows_wf [OF 1(2)]] by blast
  have 3: "v1 m2 x = Some v'" "f1 m2 x = f1 m1 x"
    using heap_view.frame [OF a' grows_wf [OF 1(2)] 1(3) 2(2)] by simp_all
  have "copy_pair c1 c2 p m = Some ((x, y), m2)"
    by (simp add: copy_pair_def 1(1) 2(1))
  moreover have "grows m m2" by (rule grows_trans [OF 1(2) 2(2)])
  moreover have "view_pair v1 v2 m2 (x, y) = Some v"
    by (simp add: view_pair_def 3 2(3) v(1))
  moreover have "foot_pair f1 f2 m2 (x, y) \<subseteq> {mem_next m..<mem_next m2}"
    using 1(4) 2(4) grows_next [OF 1(2)] grows_next [OF 2(2)] by (fastforce simp: foot_pair_def 3)
  ultimately show "\<exists>x' m'. copy_pair c1 c2 p m = Some (x', m') \<and> grows m m' \<and>
      view_pair v1 v2 m' x' = Some v \<and> foot_pair f1 f2 m' x' \<subseteq> {mem_next m..<mem_next m'}"
    by blast
qed

text \<open>A structure is a tuple of its fields: \<open>get\<close> takes the fields that are copied apart, \<open>put\<close>
  replaces them, and \<open>mk\<close> makes the value from theirs.\<close>

lemma deep_copy_struct:
  assumes d: "deep_copy vb fb cb"
    and copy: "\<And>x m. copy x m = map_option (\<lambda>(b, m'). (put x b, m')) (cb (get x) m)"
    and view: "\<And>m x. view m x = map_option (mk x) (vb m (get x))"
    and foot: "\<And>m x. foot m x = fb m (get x)"
    and get_put: "\<And>x b. get (put x b) = b"
    and mk_put: "\<And>x b v. mk (put x b) v = mk x v"
  shows "deep_copy view foot copy"
proof
  note d' = deep_copy.axioms(1) [OF d]
  fix m :: "'a memory" and x v
  assume "view m x = Some v"
  then obtain w where w: "v = mk x w" "vb m (get x) = Some w" by (auto simp: view)
  show "foot m x \<subseteq> dom (mem_cells m)"
    using heap_view.foot_allocated [OF d' w(2)] by (simp add: foot)
  show "agree_on (foot m x) m m' \<Longrightarrow> view m' x = Some v" for m'
    using heap_view.view_local [OF d' w(2)] by (simp add: view foot w(1))
  show "agree_on (foot m x) m m' \<Longrightarrow> foot m' x = foot m x" for m'
    using heap_view.foot_local [OF d' w(2)] by (simp add: foot)
  assume "mem_wf m"
  then show "\<exists>x' m'. copy x m = Some (x', m') \<and> grows m m' \<and> view m' x' = Some v \<and>
      foot m' x' \<subseteq> {mem_next m..<mem_next m'}"
    using deep_copy.copies [OF d _ w(2)] by (auto simp: copy view foot get_put mk_put w(1))
qed

definition foot_each :: "('c, 'a) footprint \<Rightarrow> ('c, 'a list) footprint" where
  "foot_each ft m xs = (\<Union>x \<in> set xs. ft m x)"

lemma heap_view_each:
  assumes d: "heap_view vw ft"
  shows "heap_view (view_each vw) (foot_each ft)"
proof
  fix m :: "'a memory" and xs vs
  assume v: "view_each vw m xs = Some vs"
  then show "foot_each ft m xs \<subseteq> dom (mem_cells m)"
    by (induction xs arbitrary: vs)
      (auto simp: foot_each_def bind_eq_Some_conv dest: heap_view.foot_allocated [OF d])
  show "agree_on (foot_each ft m xs) m m' \<Longrightarrow> view_each vw m' xs = Some vs" for m'
    using v by (induction xs arbitrary: vs)
      (auto simp: foot_each_def bind_eq_Some_conv dest: heap_view.view_local [OF d])
  show "agree_on (foot_each ft m xs) m m' \<Longrightarrow> foot_each ft m' xs = foot_each ft m xs" for m'
    using v by (induction xs arbitrary: vs)
      (auto simp: foot_each_def bind_eq_Some_conv heap_view.foot_local [OF d])
qed

lemma deep_copy_each:
  assumes d: "deep_copy vw ft cp"
  shows "deep_copy (view_each vw) (foot_each ft) (copy_each cp)"
proof (intro deep_copy.intro deep_copy_axioms.intro)
  note hv = deep_copy.axioms(1) [OF d]
  note hvs = heap_view_each [OF hv]
  show "heap_view (view_each vw) (foot_each ft)" by (rule hvs)
  show "mem_wf m \<Longrightarrow> view_each vw m xs = Some vs \<Longrightarrow>
      \<exists>x' m'. copy_each cp xs m = Some (x', m') \<and> grows m m' \<and> view_each vw m' x' = Some vs \<and>
        foot_each ft m' x' \<subseteq> {mem_next m..<mem_next m'}" for m :: "'a memory" and xs vs
  proof (induction xs arbitrary: m vs)
    case Nil
    then show ?case by (auto simp: foot_each_def)
  next
    case (Cons x xs)
    then obtain u us where u: "vs = u # us" "vw m x = Some u" "view_each vw m xs = Some us"
      by (auto simp: bind_eq_Some_conv)
    obtain y m1 where 1: "cp x m = Some (y, m1)" "grows m m1" "vw m1 y = Some u"
        "ft m1 y \<subseteq> {mem_next m..<mem_next m1}"
      using deep_copy.copies [OF d Cons.prems(1) u(2)] by blast
    have "view_each vw m1 xs = Some us"
      by (rule heap_view.frame(1) [OF hvs Cons.prems(1) u(3) 1(2)])
    then obtain ys m2 where 2: "copy_each cp xs m1 = Some (ys, m2)" "grows m1 m2"
        "view_each vw m2 ys = Some us" "foot_each ft m2 ys \<subseteq> {mem_next m1..<mem_next m2}"
      using Cons.IH [OF grows_wf [OF 1(2)]] by blast
    have 3: "vw m2 y = Some u" "ft m2 y = ft m1 y"
      using heap_view.frame [OF hv grows_wf [OF 1(2)] 1(3) 2(2)] by simp_all
    have "foot_each ft m2 (y # ys) \<subseteq> {mem_next m..<mem_next m2}"
      using 1(4) 2(4) grows_next [OF 1(2)] grows_next [OF 2(2)] by (fastforce simp: foot_each_def 3)
    then show ?case
      using grows_trans [OF 1(2) 2(2)] by (auto simp: 1(1) 2(1, 3) 3 u(1))
  qed
qed


subsection \<open>Pointers and slices\<close>

text \<open>What the copy of a pointer and of a slice share: the contents of a window are copied into
  a block of their own.\<close>

lemma copy_block:
  assumes d: "deep_copy vw ft cp" and wf: "mem_wf m"
    and x: "vw m x = Some v" and b: "reserve m = (b, m1)"
  shows "\<exists>y m2. cp x m1 = Some (y, m2) \<and> b = mem_next m \<and> b < mem_next m2 \<and>
    (\<forall>c. grows m (store b c m2) \<and> vw (store b c m2) y = Some v \<and>
         ft (store b c m2) y \<subseteq> {mem_next m..<mem_next m2})"
proof -
  note hv = deep_copy.axioms(1) [OF d]
  have 1: "b = mem_next m" "grows m m1" "mem_next m1 = Suc b"
    using grows_reserve [OF wf b] by simp_all
  have "vw m1 x = Some v" by (rule heap_view.frame(1) [OF hv wf x 1(2)])
  then obtain y m2 where 2: "cp x m1 = Some (y, m2)" "grows m1 m2" "vw m2 y = Some v"
      "ft m2 y \<subseteq> {mem_next m1..<mem_next m2}"
    using deep_copy.copies [OF d grows_wf [OF 1(2)]] by blast
  have bn: "b < mem_next m2" using 1(3) grows_next [OF 2(2)] by simp
  have "grows m (store b c m2)" for c
    by (rule grows_store [OF grows_trans [OF 1(2) 2(2)]]) (simp_all add: 1(1) bn [unfolded 1(1)])
  moreover have ag: "agree_on (ft m2 y) m2 (store b c m2)" for c
    using 2(4) 1(3) by (auto simp: agree_on_def)
  ultimately show ?thesis
    using heap_view.view_local [OF hv 2(3) ag] heap_view.foot_local [OF hv 2(3) ag] 1 2 bn by auto
qed

lemma heap_view_slice:
  assumes d: "heap_view vw ft"
  shows "heap_view (view_slice T vw) (foot_slice T ft)"
proof
  note hv = heap_view_each [OF d]
  fix m :: "'a memory" and s v
  assume v: "view_slice T vw m s = Some v"
  have "foot_slice T ft m s \<subseteq> dom (mem_cells m) \<and>
      (agree_on (foot_slice T ft m s) m m' \<longrightarrow>
        view_slice T vw m' s = Some v \<and> foot_slice T ft m' s = foot_slice T ft m s)" for m'
  proof (cases s)
    case None
    then show ?thesis using v by (simp add: view_slice_def foot_slice_def)
  next
    case (Some q)
    obtain a off n where q: "q = (a, off, n)" by (cases q)
    obtain xs ws where x: "load_window T a off n m = Some xs" "view_each vw m xs = Some ws" "v = Some ws"
      using v by (auto simp: Some q view_slice_def bind_eq_Some_conv)
    have f: "foot_slice T ft m s = insert a (foot_each ft m xs)"
      by (simp add: foot_slice_def foot_each_def Some q x)
    have "load_window T a off n m' = Some xs" if "agree_on (foot_slice T ft m s) m m'"
      using that load_window_cong [of m' a m T off n] by (simp add: f x)
    then show ?thesis
      using heap_view.foot_allocated [OF hv x(2)] heap_view.view_local [OF hv x(2)]
        heap_view.foot_local [OF hv x(2)] load_window_Some [OF x(1)]
      unfolding f by (simp add: view_slice_def foot_slice_def foot_each_def [symmetric] Some q x(3))
  qed
  then show "foot_slice T ft m s \<subseteq> dom (mem_cells m)"
    and "agree_on (foot_slice T ft m s) m m' \<Longrightarrow> view_slice T vw m' s = Some v"
    and "agree_on (foot_slice T ft m s) m m' \<Longrightarrow> foot_slice T ft m' s = foot_slice T ft m s" for m'
    by blast+
qed

lemma heap_view_pointer:
  assumes d: "heap_view vw ft"
  shows "heap_view (view_pointer T vw) (foot_pointer T ft)"
proof
  fix m :: "'a memory" and p v
  assume v: "view_pointer T vw m p = Some v"
  have "foot_pointer T ft m p \<subseteq> dom (mem_cells m) \<and>
      (agree_on (foot_pointer T ft m p) m m' \<longrightarrow>
        view_pointer T vw m' p = Some v \<and> foot_pointer T ft m' p = foot_pointer T ft m p)" for m'
  proof (cases p)
    case None
    then show ?thesis using v by (simp add: view_pointer_def foot_pointer_def)
  next
    case (Some q)
    obtain a i where q: "q = (a, i)" by (cases q)
    obtain x w where x: "load T a i m = Some x" "vw m x = Some w" "v = Some w"
      using v by (auto simp: Some q view_pointer_def bind_eq_Some_conv)
    have f: "foot_pointer T ft m p = insert a (ft m x)"
      by (simp add: foot_pointer_def Some q x)
    have "load T a i m' = Some x" if "agree_on (foot_pointer T ft m p) m m'"
      using that load_cong [of m' a m T i] by (simp add: f x)
    then show ?thesis
      using heap_view.foot_allocated [OF d x(2)] heap_view.view_local [OF d x(2)]
        heap_view.foot_local [OF d x(2)] load_Some [OF x(1)]
      unfolding f by (simp add: view_pointer_def foot_pointer_def Some q x(3))
  qed
  then show "foot_pointer T ft m p \<subseteq> dom (mem_cells m)"
    and "agree_on (foot_pointer T ft m p) m m' \<Longrightarrow> view_pointer T vw m' p = Some v"
    and "agree_on (foot_pointer T ft m p) m m' \<Longrightarrow> foot_pointer T ft m' p = foot_pointer T ft m p" for m'
    by blast+
qed

lemma deep_copy_pointer:
  assumes d: "deep_copy vw ft cp" and T: "lawful T"
  shows "deep_copy (view_pointer T vw) (foot_pointer T ft) (copy_pointer T cp)"
proof (intro deep_copy.intro deep_copy_axioms.intro)
  show "heap_view (view_pointer T vw) (foot_pointer T ft)"
    by (rule heap_view_pointer [OF deep_copy.axioms(1) [OF d]])
  fix m :: "'a memory" and p v
  assume wf: "mem_wf m" and v: "view_pointer T vw m p = Some v"
  show "\<exists>x' m'. copy_pointer T cp p m = Some (x', m') \<and> grows m m' \<and>
      view_pointer T vw m' x' = Some v \<and> foot_pointer T ft m' x' \<subseteq> {mem_next m..<mem_next m'}"
  proof (cases p)
    case None
    then show ?thesis using wf v by (simp add: copy_pointer_def view_pointer_def foot_pointer_def)
  next
    case (Some q)
    obtain a i where q: "q = (a, i)" by (cases q)
    obtain x w where x: "load T a i m = Some x" "vw m x = Some w" "v = Some w"
      using v by (auto simp: Some q view_pointer_def bind_eq_Some_conv)
    obtain b m1 where b: "reserve m = (b, m1)" by (cases "reserve m")
    obtain y m2 where y: "cp x m1 = Some (y, m2)" "b = mem_next m" "b < mem_next m2"
        "\<And>c. grows m (store b c m2)" "\<And>c. vw (store b c m2) y = Some w"
        "\<And>c. ft (store b c m2) y \<subseteq> {mem_next m..<mem_next m2}"
      using copy_block [OF d wf x(2) b] by blast
    have "copy_pointer T cp p m = Some (Some (b, 0), store b (ct_put T [y]) m2)"
      by (simp add: copy_pointer_def Some q x b y)
    then show ?thesis using y T x
      by (auto simp: view_pointer_def foot_pointer_def)
  qed
qed

lemma view_each_length: "view_each vw m xs = Some vs \<Longrightarrow> length vs = length xs"
  by (induction xs arbitrary: vs) (auto simp: bind_eq_Some_conv)

lemma deep_copy_slice:
  assumes d: "deep_copy vw ft cp" and T: "lawful T"
  shows "deep_copy (view_slice T vw) (foot_slice T ft) (copy_slice T cp)"
proof (intro deep_copy.intro deep_copy_axioms.intro)
  show "heap_view (view_slice T vw) (foot_slice T ft)"
    by (rule heap_view_slice [OF deep_copy.axioms(1) [OF d]])
  fix m :: "'a memory" and s v
  assume wf: "mem_wf m" and v: "view_slice T vw m s = Some v"
  show "\<exists>x' m'. copy_slice T cp s m = Some (x', m') \<and> grows m m' \<and>
      view_slice T vw m' x' = Some v \<and> foot_slice T ft m' x' \<subseteq> {mem_next m..<mem_next m'}"
  proof (cases s)
    case None
    then show ?thesis using wf v by (simp add: copy_slice_def view_slice_def foot_slice_def)
  next
    case (Some q)
    obtain a off n where q: "q = (a, off, n)" by (cases q)
    obtain xs ws where x: "load_window T a off n m = Some xs" "view_each vw m xs = Some ws" "v = Some ws"
      using v by (auto simp: Some q view_slice_def bind_eq_Some_conv)
    obtain b m1 where b: "reserve m = (b, m1)" by (cases "reserve m")
    obtain ys m2 where y: "copy_each cp xs m1 = Some (ys, m2)" "b = mem_next m" "b < mem_next m2"
        "\<And>c. grows m (store b c m2)" "\<And>c. view_each vw (store b c m2) ys = Some ws"
        "\<And>c. foot_each ft (store b c m2) ys \<subseteq> {mem_next m..<mem_next m2}"
      using copy_block [OF deep_copy_each [OF d] wf x(2) b] by blast
    have n: "n = length ys"
      using view_each_length [OF x(2)] view_each_length [OF y(5)] load_window_Some [OF x(1)] by simp
    have "copy_slice T cp s m = Some (Some (b, 0, n), store b (ct_put T ys) m2)"
      by (simp add: copy_slice_def Some q x b y)
    then show ?thesis using y T x n
      by (auto simp: view_slice_def foot_slice_def foot_each_def)
  qed
qed

lemma copy_slice_nil: "copy_slice T cp s m = Some (s', m') \<Longrightarrow> s' = None \<longleftrightarrow> s = None"
  by (auto simp: copy_slice_def reserve_def bind_eq_Some_conv split: option.splits prod.splits)

lemma copy_pointer_nil: "copy_pointer T cp p m = Some (p', m') \<Longrightarrow> p' = None \<longleftrightarrow> p = None"
  by (auto simp: copy_pointer_def reserve_def bind_eq_Some_conv split: option.splits prod.splits)

end
