(* ===== verification/DeepCopy.thy ===== *)
theory DeepCopy
  imports GoMemory ApiTypes
begin

section \<open>The generated deep copies (zz_generated.deepcopy.go)\<close>

text \<open>
  The custom resources as they lie in memory, and the generated functions that copy them.
  The structures of \<open>ApiTypes\<close> are values; here a pointer field is an address and a slice field a
  window of an array, so that two structures may share a block. The structures of the API
  machinery (\<open>metav1.ObjectMeta\<close>, \<open>metav1.ListMeta\<close>, \<open>metav1.Condition\<close>, \<open>metav1.Time\<close>,
  \<open>corev1.ResourceRequirements\<close>) are values of the type \<open>'f\<close>, and their own copying functions are
  parameters. The views read the memory back into the values of \<open>ApiTypes\<close>: the copies preserve
  these, share no block with the original, and change nothing that existed before.
\<close>

subsection \<open>Memory layout\<close>

type_synonym TypeMeta = "string \<times> string"

record mem_VoiceModelSpec =
  ms_Model :: string
  ms_Replicas :: pointer
  ms_Device :: string
  ms_Quantization :: string
  ms_Image :: string
  ms_Resources :: pointer
  ms_Port :: int
  ms_Health :: pointer
  ms_Metrics :: pointer

record mem_VoiceModelStatus =
  mt_Phase :: VoiceModelPhase
  mt_ReadyReplicas :: int
  mt_Endpoint :: string
  mt_Message :: string
  mt_Conditions :: slice
  mt_LastTransitionTime :: pointer

record 'f mem_VoiceModel =
  mv_TypeMeta :: TypeMeta
  mv_ObjectMeta :: 'f
  mv_Spec :: mem_VoiceModelSpec
  mv_Status :: mem_VoiceModelStatus

record 'f mem_VoiceModelList =
  mvl_TypeMeta :: TypeMeta
  mvl_ListMeta :: 'f
  mvl_Items :: slice

record mem_PipelineStage =
  mps_Name :: string
  mps_Model :: string
  mps_Enabled :: pointer

record mem_InferencePipelineSpec =
  mis_Stages :: slice

record mem_InferencePipelineStatus =
  mit_Phase :: InferencePipelinePhase
  mit_Stages :: slice
  mit_Message :: string
  mit_Conditions :: slice
  mit_LastTransitionTime :: pointer

record 'f mem_InferencePipeline =
  mip_TypeMeta :: TypeMeta
  mip_ObjectMeta :: 'f
  mip_Spec :: mem_InferencePipelineSpec
  mip_Status :: mem_InferencePipelineStatus

record 'f mem_InferencePipelineList =
  mipl_TypeMeta :: TypeMeta
  mipl_ListMeta :: 'f
  mipl_Items :: slice

record mem_EvalRunSpec =
  mes_Dataset :: string
  mes_GatewayURL :: string
  mes_Model :: string
  mes_Image :: string
  mes_WERThreshold :: string
  mes_TimeoutSeconds :: pointer
  mes_Suspend :: bool

record mem_EvalRunStatus =
  met_Phase :: EvalRunPhase
  met_WorkflowRef :: string
  met_CorpusWER :: string
  met_MeanWER :: string
  met_Passed :: pointer
  met_TotalSamples :: int
  met_Message :: string
  met_StartTime :: pointer
  met_CompletionTime :: pointer
  met_Conditions :: slice

record 'f mem_EvalRun =
  mer_TypeMeta :: TypeMeta
  mer_ObjectMeta :: 'f
  mer_Spec :: mem_EvalRunSpec
  mer_Status :: mem_EvalRunStatus

record 'f mem_EvalRunList =
  merl_TypeMeta :: TypeMeta
  merl_ListMeta :: 'f
  merl_Items :: slice

text \<open>One kind of block for each element type; \<open>ForeignBlock\<close> holds whatever the structures of
  the API machinery point to.\<close>

datatype 'f cell =
    Int32s "int list"
  | Bools "bool list"
  | HealthConfigs "HealthConfig list"
  | ResourceRequirementss "'f list"
  | Times "'f list"
  | Conditions "'f list"
  | ForeignBlock "'f list"
  | PipelineStages "mem_PipelineStage list"
  | PipelineStageStatuses "PipelineStageStatus list"
  | VoiceModelSpecs "mem_VoiceModelSpec list"
  | VoiceModelStatuses "mem_VoiceModelStatus list"
  | VoiceModels "'f mem_VoiceModel list"
  | VoiceModelLists "'f mem_VoiceModelList list"
  | InferencePipelineSpecs "mem_InferencePipelineSpec list"
  | InferencePipelineStatuses "mem_InferencePipelineStatus list"
  | InferencePipelines "'f mem_InferencePipeline list"
  | InferencePipelineLists "'f mem_InferencePipelineList list"
  | EvalRunSpecs "mem_EvalRunSpec list"
  | EvalRunStatuses "mem_EvalRunStatus list"
  | EvalRuns "'f mem_EvalRun list"
  | EvalRunLists "'f mem_EvalRunList list"

type_synonym 'f api_memory = "'f cell memory"

definition Int32_cell :: "('f cell, int) cell_type" where
  "Int32_cell = \<lparr>ct_get = (\<lambda>c. case c of Int32s xs \<Rightarrow> Some xs | _ \<Rightarrow> None), ct_put = Int32s\<rparr>"

definition Bool_cell :: "('f cell, bool) cell_type" where
  "Bool_cell = \<lparr>ct_get = (\<lambda>c. case c of Bools xs \<Rightarrow> Some xs | _ \<Rightarrow> None), ct_put = Bools\<rparr>"

definition HealthConfig_cell :: "('f cell, HealthConfig) cell_type" where
  "HealthConfig_cell = \<lparr>ct_get = (\<lambda>c. case c of HealthConfigs xs \<Rightarrow> Some xs | _ \<Rightarrow> None), ct_put = HealthConfigs\<rparr>"

definition ResourceRequirements_cell :: "('f cell, 'f) cell_type" where
  "ResourceRequirements_cell = \<lparr>ct_get = (\<lambda>c. case c of ResourceRequirementss xs \<Rightarrow> Some xs | _ \<Rightarrow> None), ct_put = ResourceRequirementss\<rparr>"

definition Time_cell :: "('f cell, 'f) cell_type" where
  "Time_cell = \<lparr>ct_get = (\<lambda>c. case c of Times xs \<Rightarrow> Some xs | _ \<Rightarrow> None), ct_put = Times\<rparr>"

definition Condition_cell :: "('f cell, 'f) cell_type" where
  "Condition_cell = \<lparr>ct_get = (\<lambda>c. case c of Conditions xs \<Rightarrow> Some xs | _ \<Rightarrow> None), ct_put = Conditions\<rparr>"

definition PipelineStage_cell :: "('f cell, mem_PipelineStage) cell_type" where
  "PipelineStage_cell = \<lparr>ct_get = (\<lambda>c. case c of PipelineStages xs \<Rightarrow> Some xs | _ \<Rightarrow> None), ct_put = PipelineStages\<rparr>"

definition PipelineStageStatus_cell :: "('f cell, PipelineStageStatus) cell_type" where
  "PipelineStageStatus_cell = \<lparr>ct_get = (\<lambda>c. case c of PipelineStageStatuses xs \<Rightarrow> Some xs | _ \<Rightarrow> None), ct_put = PipelineStageStatuses\<rparr>"

definition VoiceModelSpec_cell :: "('f cell, mem_VoiceModelSpec) cell_type" where
  "VoiceModelSpec_cell = \<lparr>ct_get = (\<lambda>c. case c of VoiceModelSpecs xs \<Rightarrow> Some xs | _ \<Rightarrow> None), ct_put = VoiceModelSpecs\<rparr>"

definition VoiceModelStatus_cell :: "('f cell, mem_VoiceModelStatus) cell_type" where
  "VoiceModelStatus_cell = \<lparr>ct_get = (\<lambda>c. case c of VoiceModelStatuses xs \<Rightarrow> Some xs | _ \<Rightarrow> None), ct_put = VoiceModelStatuses\<rparr>"

definition VoiceModel_cell :: "('f cell, 'f mem_VoiceModel) cell_type" where
  "VoiceModel_cell = \<lparr>ct_get = (\<lambda>c. case c of VoiceModels xs \<Rightarrow> Some xs | _ \<Rightarrow> None), ct_put = VoiceModels\<rparr>"

definition VoiceModelList_cell :: "('f cell, 'f mem_VoiceModelList) cell_type" where
  "VoiceModelList_cell = \<lparr>ct_get = (\<lambda>c. case c of VoiceModelLists xs \<Rightarrow> Some xs | _ \<Rightarrow> None), ct_put = VoiceModelLists\<rparr>"

definition InferencePipelineSpec_cell :: "('f cell, mem_InferencePipelineSpec) cell_type" where
  "InferencePipelineSpec_cell = \<lparr>ct_get = (\<lambda>c. case c of InferencePipelineSpecs xs \<Rightarrow> Some xs | _ \<Rightarrow> None), ct_put = InferencePipelineSpecs\<rparr>"

definition InferencePipelineStatus_cell :: "('f cell, mem_InferencePipelineStatus) cell_type" where
  "InferencePipelineStatus_cell = \<lparr>ct_get = (\<lambda>c. case c of InferencePipelineStatuses xs \<Rightarrow> Some xs | _ \<Rightarrow> None), ct_put = InferencePipelineStatuses\<rparr>"

definition InferencePipeline_cell :: "('f cell, 'f mem_InferencePipeline) cell_type" where
  "InferencePipeline_cell = \<lparr>ct_get = (\<lambda>c. case c of InferencePipelines xs \<Rightarrow> Some xs | _ \<Rightarrow> None), ct_put = InferencePipelines\<rparr>"

definition InferencePipelineList_cell :: "('f cell, 'f mem_InferencePipelineList) cell_type" where
  "InferencePipelineList_cell = \<lparr>ct_get = (\<lambda>c. case c of InferencePipelineLists xs \<Rightarrow> Some xs | _ \<Rightarrow> None), ct_put = InferencePipelineLists\<rparr>"

definition EvalRunSpec_cell :: "('f cell, mem_EvalRunSpec) cell_type" where
  "EvalRunSpec_cell = \<lparr>ct_get = (\<lambda>c. case c of EvalRunSpecs xs \<Rightarrow> Some xs | _ \<Rightarrow> None), ct_put = EvalRunSpecs\<rparr>"

definition EvalRunStatus_cell :: "('f cell, mem_EvalRunStatus) cell_type" where
  "EvalRunStatus_cell = \<lparr>ct_get = (\<lambda>c. case c of EvalRunStatuses xs \<Rightarrow> Some xs | _ \<Rightarrow> None), ct_put = EvalRunStatuses\<rparr>"

definition EvalRun_cell :: "('f cell, 'f mem_EvalRun) cell_type" where
  "EvalRun_cell = \<lparr>ct_get = (\<lambda>c. case c of EvalRuns xs \<Rightarrow> Some xs | _ \<Rightarrow> None), ct_put = EvalRuns\<rparr>"

definition EvalRunList_cell :: "('f cell, 'f mem_EvalRunList) cell_type" where
  "EvalRunList_cell = \<lparr>ct_get = (\<lambda>c. case c of EvalRunLists xs \<Rightarrow> Some xs | _ \<Rightarrow> None), ct_put = EvalRunLists\<rparr>"

definition foreign_cell :: "('f cell, 'f) cell_type" where
  "foreign_cell = \<lparr>ct_get = (\<lambda>c. case c of ForeignBlock xs \<Rightarrow> Some xs | _ \<Rightarrow> None), ct_put = ForeignBlock\<rparr>"

lemma lawful_cells [simp]:
  "lawful Int32_cell"
  "lawful Bool_cell"
  "lawful HealthConfig_cell"
  "lawful ResourceRequirements_cell"
  "lawful Time_cell"
  "lawful Condition_cell"
  "lawful PipelineStage_cell"
  "lawful PipelineStageStatus_cell"
  "lawful VoiceModelSpec_cell"
  "lawful VoiceModelStatus_cell"
  "lawful VoiceModel_cell"
  "lawful VoiceModelList_cell"
  "lawful InferencePipelineSpec_cell"
  "lawful InferencePipelineStatus_cell"
  "lawful InferencePipeline_cell"
  "lawful InferencePipelineList_cell"
  "lawful EvalRunSpec_cell"
  "lawful EvalRunStatus_cell"
  "lawful EvalRun_cell"
  "lawful EvalRunList_cell"
  "lawful foreign_cell"
  by (simp_all add: lawful_def Int32_cell_def
    Bool_cell_def
    HealthConfig_cell_def
    ResourceRequirements_cell_def
    Time_cell_def
    Condition_cell_def
    PipelineStage_cell_def
    PipelineStageStatus_cell_def
    VoiceModelSpec_cell_def
    VoiceModelStatus_cell_def
    VoiceModel_cell_def
    VoiceModelList_cell_def
    InferencePipelineSpec_cell_def
    InferencePipelineStatus_cell_def
    InferencePipeline_cell_def
    InferencePipelineList_cell_def
    EvalRunSpec_cell_def
    EvalRunStatus_cell_def
    EvalRun_cell_def
    EvalRunList_cell_def
    foreign_cell_def)


subsection \<open>The copying functions of the API machinery\<close>

record 'f machinery =
  ObjectMeta_DeepCopyInto :: "('f cell, 'f) copier"
  ListMeta_DeepCopyInto :: "('f cell, 'f) copier"
  Condition_DeepCopyInto :: "('f cell, 'f) copier"
  ResourceRequirements_DeepCopyInto :: "('f cell, 'f) copier"
  Time_DeepCopy :: "('f cell, pointer) copier"

subsection \<open>DeepCopyInto\<close>

text \<open>
  \<open>in.DeepCopyInto(out)\<close> overwrites the whole of \<open>*out\<close>, so the model returns what it writes. Every
  function starts with \<open>*out = *in\<close>, after which the two share their blocks, and goes on to
  replace the fields that are pointers, slices or structures with pointers.
\<close>

definition HealthConfig_DeepCopyInto :: "('f cell, HealthConfig) copier" where
  "HealthConfig_DeepCopyInto inn m = Some (inn, m)"

definition PipelineStageStatus_DeepCopyInto :: "('f cell, PipelineStageStatus) copier" where
  "PipelineStageStatus_DeepCopyInto inn m = Some (inn, m)"

definition PipelineStage_DeepCopyInto :: "('f cell, mem_PipelineStage) copier" where
  "PipelineStage_DeepCopyInto inn m = do {
     let out = inn;
     (enabled, m) \<leftarrow> copy_pointer Bool_cell assign (mps_Enabled inn) m;
     Some (out\<lparr>mps_Enabled := enabled\<rparr>, m) }"

definition EvalRunSpec_DeepCopyInto :: "('f cell, mem_EvalRunSpec) copier" where
  "EvalRunSpec_DeepCopyInto inn m = do {
     let out = inn;
     (timeout, m) \<leftarrow> copy_pointer Int32_cell assign (mes_TimeoutSeconds inn) m;
     Some (out\<lparr>mes_TimeoutSeconds := timeout\<rparr>, m) }"

text \<open>The guards \<open>in.StartTime != nil\<close> and \<open>in.CompletionTime != nil\<close> around \<open>(*in).DeepCopy()\<close>.\<close>

definition copy_time :: "'f machinery \<Rightarrow> ('f cell, pointer) copier" where
  "copy_time K t m = (if t \<noteq> None then Time_DeepCopy K t m else Some (t, m))"

definition copy_conditions :: "'f machinery \<Rightarrow> ('f cell, slice) copier" where
  "copy_conditions K = copy_slice Condition_cell (Condition_DeepCopyInto K)"

definition EvalRunStatus_DeepCopyInto :: "'f machinery \<Rightarrow> ('f cell, mem_EvalRunStatus) copier" where
  "EvalRunStatus_DeepCopyInto K inn m = do {
     let out = inn;
     (passed, m) \<leftarrow> copy_pointer Bool_cell assign (met_Passed inn) m;
     let out = out\<lparr>met_Passed := passed\<rparr>;
     (start, m) \<leftarrow> copy_time K (met_StartTime inn) m;
     let out = out\<lparr>met_StartTime := start\<rparr>;
     (completion, m) \<leftarrow> copy_time K (met_CompletionTime inn) m;
     let out = out\<lparr>met_CompletionTime := completion\<rparr>;
     (conditions, m) \<leftarrow> copy_conditions K (met_Conditions inn) m;
     Some (out\<lparr>met_Conditions := conditions\<rparr>, m) }"

definition EvalRun_DeepCopyInto :: "'f machinery \<Rightarrow> ('f cell, 'f mem_EvalRun) copier" where
  "EvalRun_DeepCopyInto K inn m = do {
     let out = inn;
     let out = out\<lparr>mer_TypeMeta := mer_TypeMeta inn\<rparr>;
     (meta, m) \<leftarrow> ObjectMeta_DeepCopyInto K (mer_ObjectMeta inn) m;
     let out = out\<lparr>mer_ObjectMeta := meta\<rparr>;
     (spec, m) \<leftarrow> EvalRunSpec_DeepCopyInto (mer_Spec inn) m;
     let out = out\<lparr>mer_Spec := spec\<rparr>;
     (status, m) \<leftarrow> EvalRunStatus_DeepCopyInto K (mer_Status inn) m;
     Some (out\<lparr>mer_Status := status\<rparr>, m) }"

definition EvalRunList_DeepCopyInto :: "'f machinery \<Rightarrow> ('f cell, 'f mem_EvalRunList) copier" where
  "EvalRunList_DeepCopyInto K inn m = do {
     let out = inn;
     let out = out\<lparr>merl_TypeMeta := merl_TypeMeta inn\<rparr>;
     (meta, m) \<leftarrow> ListMeta_DeepCopyInto K (merl_ListMeta inn) m;
     let out = out\<lparr>merl_ListMeta := meta\<rparr>;
     (items, m) \<leftarrow> copy_slice EvalRun_cell (EvalRun_DeepCopyInto K) (merl_Items inn) m;
     Some (out\<lparr>merl_Items := items\<rparr>, m) }"

definition InferencePipelineSpec_DeepCopyInto :: "('f cell, mem_InferencePipelineSpec) copier" where
  "InferencePipelineSpec_DeepCopyInto inn m = do {
     let out = inn;
     (stages, m) \<leftarrow> copy_slice PipelineStage_cell PipelineStage_DeepCopyInto (mis_Stages inn) m;
     Some (out\<lparr>mis_Stages := stages\<rparr>, m) }"

text \<open>The status stages have no pointers: \<open>copy(*out, *in)\<close> assigns the elements.\<close>

definition InferencePipelineStatus_DeepCopyInto ::
    "'f machinery \<Rightarrow> ('f cell, mem_InferencePipelineStatus) copier" where
  "InferencePipelineStatus_DeepCopyInto K inn m = do {
     let out = inn;
     (stages, m) \<leftarrow> copy_slice PipelineStageStatus_cell assign (mit_Stages inn) m;
     let out = out\<lparr>mit_Stages := stages\<rparr>;
     (conditions, m) \<leftarrow> copy_conditions K (mit_Conditions inn) m;
     let out = out\<lparr>mit_Conditions := conditions\<rparr>;
     (transition, m) \<leftarrow> copy_time K (mit_LastTransitionTime inn) m;
     Some (out\<lparr>mit_LastTransitionTime := transition\<rparr>, m) }"

definition InferencePipeline_DeepCopyInto :: "'f machinery \<Rightarrow> ('f cell, 'f mem_InferencePipeline) copier" where
  "InferencePipeline_DeepCopyInto K inn m = do {
     let out = inn;
     let out = out\<lparr>mip_TypeMeta := mip_TypeMeta inn\<rparr>;
     (meta, m) \<leftarrow> ObjectMeta_DeepCopyInto K (mip_ObjectMeta inn) m;
     let out = out\<lparr>mip_ObjectMeta := meta\<rparr>;
     (spec, m) \<leftarrow> InferencePipelineSpec_DeepCopyInto (mip_Spec inn) m;
     let out = out\<lparr>mip_Spec := spec\<rparr>;
     (status, m) \<leftarrow> InferencePipelineStatus_DeepCopyInto K (mip_Status inn) m;
     Some (out\<lparr>mip_Status := status\<rparr>, m) }"

definition InferencePipelineList_DeepCopyInto ::
    "'f machinery \<Rightarrow> ('f cell, 'f mem_InferencePipelineList) copier" where
  "InferencePipelineList_DeepCopyInto K inn m = do {
     let out = inn;
     let out = out\<lparr>mipl_TypeMeta := mipl_TypeMeta inn\<rparr>;
     (meta, m) \<leftarrow> ListMeta_DeepCopyInto K (mipl_ListMeta inn) m;
     let out = out\<lparr>mipl_ListMeta := meta\<rparr>;
     (items, m) \<leftarrow> copy_slice InferencePipeline_cell (InferencePipeline_DeepCopyInto K) (mipl_Items inn) m;
     Some (out\<lparr>mipl_Items := items\<rparr>, m) }"

definition VoiceModelSpec_DeepCopyInto :: "'f machinery \<Rightarrow> ('f cell, mem_VoiceModelSpec) copier" where
  "VoiceModelSpec_DeepCopyInto K inn m = do {
     let out = inn;
     (replicas, m) \<leftarrow> copy_pointer Int32_cell assign (ms_Replicas inn) m;
     let out = out\<lparr>ms_Replicas := replicas\<rparr>;
     (resources, m) \<leftarrow> copy_pointer ResourceRequirements_cell (ResourceRequirements_DeepCopyInto K)
        (ms_Resources inn) m;
     let out = out\<lparr>ms_Resources := resources\<rparr>;
     (health, m) \<leftarrow> copy_pointer HealthConfig_cell assign (ms_Health inn) m;
     let out = out\<lparr>ms_Health := health\<rparr>;
     (metrics, m) \<leftarrow> copy_pointer Bool_cell assign (ms_Metrics inn) m;
     Some (out\<lparr>ms_Metrics := metrics\<rparr>, m) }"

definition VoiceModelStatus_DeepCopyInto :: "'f machinery \<Rightarrow> ('f cell, mem_VoiceModelStatus) copier" where
  "VoiceModelStatus_DeepCopyInto K inn m = do {
     let out = inn;
     (conditions, m) \<leftarrow> copy_conditions K (mt_Conditions inn) m;
     let out = out\<lparr>mt_Conditions := conditions\<rparr>;
     (transition, m) \<leftarrow> copy_time K (mt_LastTransitionTime inn) m;
     Some (out\<lparr>mt_LastTransitionTime := transition\<rparr>, m) }"

definition VoiceModel_DeepCopyInto :: "'f machinery \<Rightarrow> ('f cell, 'f mem_VoiceModel) copier" where
  "VoiceModel_DeepCopyInto K inn m = do {
     let out = inn;
     let out = out\<lparr>mv_TypeMeta := mv_TypeMeta inn\<rparr>;
     (meta, m) \<leftarrow> ObjectMeta_DeepCopyInto K (mv_ObjectMeta inn) m;
     let out = out\<lparr>mv_ObjectMeta := meta\<rparr>;
     (spec, m) \<leftarrow> VoiceModelSpec_DeepCopyInto K (mv_Spec inn) m;
     let out = out\<lparr>mv_Spec := spec\<rparr>;
     (status, m) \<leftarrow> VoiceModelStatus_DeepCopyInto K (mv_Status inn) m;
     Some (out\<lparr>mv_Status := status\<rparr>, m) }"

definition VoiceModelList_DeepCopyInto :: "'f machinery \<Rightarrow> ('f cell, 'f mem_VoiceModelList) copier" where
  "VoiceModelList_DeepCopyInto K inn m = do {
     let out = inn;
     let out = out\<lparr>mvl_TypeMeta := mvl_TypeMeta inn\<rparr>;
     (meta, m) \<leftarrow> ListMeta_DeepCopyInto K (mvl_ListMeta inn) m;
     let out = out\<lparr>mvl_ListMeta := meta\<rparr>;
     (items, m) \<leftarrow> copy_slice VoiceModel_cell (VoiceModel_DeepCopyInto K) (mvl_Items inn) m;
     Some (out\<lparr>mvl_Items := items\<rparr>, m) }"

subsection \<open>DeepCopy and DeepCopyObject\<close>

text \<open>
  \<open>in.DeepCopy()\<close> is nil for nil, and otherwise \<open>new(T)\<close> filled by \<open>DeepCopyInto\<close>: what
  \<open>copy_pointer\<close> does for a field. \<open>DeepCopyObject\<close> turns the pointer into an interface value. A Go
  interface that holds a nil pointer is not itself nil, hence the option outside the constructors
  and the one inside the pointer.
\<close>

definition EvalRun_DeepCopy :: "'f machinery \<Rightarrow> ('f cell, pointer) copier" where
  "EvalRun_DeepCopy K inn = copy_pointer EvalRun_cell (EvalRun_DeepCopyInto K) inn"

definition EvalRunList_DeepCopy :: "'f machinery \<Rightarrow> ('f cell, pointer) copier" where
  "EvalRunList_DeepCopy K inn = copy_pointer EvalRunList_cell (EvalRunList_DeepCopyInto K) inn"

definition EvalRunSpec_DeepCopy :: "('f cell, pointer) copier" where
  "EvalRunSpec_DeepCopy inn = copy_pointer EvalRunSpec_cell EvalRunSpec_DeepCopyInto inn"

definition EvalRunStatus_DeepCopy :: "'f machinery \<Rightarrow> ('f cell, pointer) copier" where
  "EvalRunStatus_DeepCopy K inn = copy_pointer EvalRunStatus_cell (EvalRunStatus_DeepCopyInto K) inn"

definition HealthConfig_DeepCopy :: "('f cell, pointer) copier" where
  "HealthConfig_DeepCopy inn = copy_pointer HealthConfig_cell HealthConfig_DeepCopyInto inn"

definition InferencePipeline_DeepCopy :: "'f machinery \<Rightarrow> ('f cell, pointer) copier" where
  "InferencePipeline_DeepCopy K inn = copy_pointer InferencePipeline_cell (InferencePipeline_DeepCopyInto K) inn"

definition InferencePipelineList_DeepCopy :: "'f machinery \<Rightarrow> ('f cell, pointer) copier" where
  "InferencePipelineList_DeepCopy K inn = copy_pointer InferencePipelineList_cell (InferencePipelineList_DeepCopyInto K) inn"

definition InferencePipelineSpec_DeepCopy :: "('f cell, pointer) copier" where
  "InferencePipelineSpec_DeepCopy inn = copy_pointer InferencePipelineSpec_cell InferencePipelineSpec_DeepCopyInto inn"

definition InferencePipelineStatus_DeepCopy :: "'f machinery \<Rightarrow> ('f cell, pointer) copier" where
  "InferencePipelineStatus_DeepCopy K inn = copy_pointer InferencePipelineStatus_cell (InferencePipelineStatus_DeepCopyInto K) inn"

definition PipelineStage_DeepCopy :: "('f cell, pointer) copier" where
  "PipelineStage_DeepCopy inn = copy_pointer PipelineStage_cell PipelineStage_DeepCopyInto inn"

definition PipelineStageStatus_DeepCopy :: "('f cell, pointer) copier" where
  "PipelineStageStatus_DeepCopy inn = copy_pointer PipelineStageStatus_cell PipelineStageStatus_DeepCopyInto inn"

definition VoiceModel_DeepCopy :: "'f machinery \<Rightarrow> ('f cell, pointer) copier" where
  "VoiceModel_DeepCopy K inn = copy_pointer VoiceModel_cell (VoiceModel_DeepCopyInto K) inn"

definition VoiceModelList_DeepCopy :: "'f machinery \<Rightarrow> ('f cell, pointer) copier" where
  "VoiceModelList_DeepCopy K inn = copy_pointer VoiceModelList_cell (VoiceModelList_DeepCopyInto K) inn"

definition VoiceModelSpec_DeepCopy :: "'f machinery \<Rightarrow> ('f cell, pointer) copier" where
  "VoiceModelSpec_DeepCopy K inn = copy_pointer VoiceModelSpec_cell (VoiceModelSpec_DeepCopyInto K) inn"

definition VoiceModelStatus_DeepCopy :: "'f machinery \<Rightarrow> ('f cell, pointer) copier" where
  "VoiceModelStatus_DeepCopy K inn = copy_pointer VoiceModelStatus_cell (VoiceModelStatus_DeepCopyInto K) inn"

datatype runtime_Object =
    EvalRun_Object pointer
  | EvalRunList_Object pointer
  | InferencePipeline_Object pointer
  | InferencePipelineList_Object pointer
  | VoiceModel_Object pointer
  | VoiceModelList_Object pointer

definition EvalRun_DeepCopyObject ::
    "'f machinery \<Rightarrow> pointer \<Rightarrow> 'f api_memory \<Rightarrow> (runtime_Object option \<times> 'f api_memory) option" where
  "EvalRun_DeepCopyObject K inn m = do {
     (c, m) \<leftarrow> EvalRun_DeepCopy K inn m;
     if c \<noteq> None then Some (Some (EvalRun_Object c), m) else Some (None, m) }"

definition EvalRunList_DeepCopyObject ::
    "'f machinery \<Rightarrow> pointer \<Rightarrow> 'f api_memory \<Rightarrow> (runtime_Object option \<times> 'f api_memory) option" where
  "EvalRunList_DeepCopyObject K inn m = do {
     (c, m) \<leftarrow> EvalRunList_DeepCopy K inn m;
     if c \<noteq> None then Some (Some (EvalRunList_Object c), m) else Some (None, m) }"

definition InferencePipeline_DeepCopyObject ::
    "'f machinery \<Rightarrow> pointer \<Rightarrow> 'f api_memory \<Rightarrow> (runtime_Object option \<times> 'f api_memory) option" where
  "InferencePipeline_DeepCopyObject K inn m = do {
     (c, m) \<leftarrow> InferencePipeline_DeepCopy K inn m;
     if c \<noteq> None then Some (Some (InferencePipeline_Object c), m) else Some (None, m) }"

definition InferencePipelineList_DeepCopyObject ::
    "'f machinery \<Rightarrow> pointer \<Rightarrow> 'f api_memory \<Rightarrow> (runtime_Object option \<times> 'f api_memory) option" where
  "InferencePipelineList_DeepCopyObject K inn m = do {
     (c, m) \<leftarrow> InferencePipelineList_DeepCopy K inn m;
     if c \<noteq> None then Some (Some (InferencePipelineList_Object c), m) else Some (None, m) }"

definition VoiceModel_DeepCopyObject ::
    "'f machinery \<Rightarrow> pointer \<Rightarrow> 'f api_memory \<Rightarrow> (runtime_Object option \<times> 'f api_memory) option" where
  "VoiceModel_DeepCopyObject K inn m = do {
     (c, m) \<leftarrow> VoiceModel_DeepCopy K inn m;
     if c \<noteq> None then Some (Some (VoiceModel_Object c), m) else Some (None, m) }"

definition VoiceModelList_DeepCopyObject ::
    "'f machinery \<Rightarrow> pointer \<Rightarrow> 'f api_memory \<Rightarrow> (runtime_Object option \<times> 'f api_memory) option" where
  "VoiceModelList_DeepCopyObject K inn m = do {
     (c, m) \<leftarrow> VoiceModelList_DeepCopy K inn m;
     if c \<noteq> None then Some (Some (VoiceModelList_Object c), m) else Some (None, m) }"


subsection \<open>Reading the memory back\<close>

record 'f machinery_views =
  view_ObjectMeta :: "('f cell, 'f, ObjectMeta) viewer"
  foot_ObjectMeta :: "('f cell, 'f) footprint"
  view_ListMeta :: "('f cell, 'f, json) viewer"
  foot_ListMeta :: "('f cell, 'f) footprint"
  view_Condition :: "('f cell, 'f, json) viewer"
  foot_Condition :: "('f cell, 'f) footprint"
  view_ResourceRequirements :: "('f cell, 'f, ResourceRequirements) viewer"
  foot_ResourceRequirements :: "('f cell, 'f) footprint"
  view_Time :: "('f cell, 'f, instant) viewer"
  foot_Time :: "('f cell, 'f) footprint"

text \<open>The documented behaviour of the API machinery's functions: each makes a deep copy.\<close>

definition machinery_copies :: "'f machinery_views \<Rightarrow> 'f machinery \<Rightarrow> bool" where
  "machinery_copies V K \<longleftrightarrow>
     deep_copy (view_ObjectMeta V) (foot_ObjectMeta V) (ObjectMeta_DeepCopyInto K) \<and>
     deep_copy (view_ListMeta V) (foot_ListMeta V) (ListMeta_DeepCopyInto K) \<and>
     deep_copy (view_Condition V) (foot_Condition V) (Condition_DeepCopyInto K) \<and>
     deep_copy (view_ResourceRequirements V) (foot_ResourceRequirements V)
       (ResourceRequirements_DeepCopyInto K) \<and>
     deep_copy (view_pointer Time_cell (view_Time V)) (foot_pointer Time_cell (foot_Time V))
       (Time_DeepCopy K)"

definition elements :: "'v list option \<Rightarrow> 'v list" where
  "elements vs = (case vs of None \<Rightarrow> [] | Some xs \<Rightarrow> xs)"

abbreviation view_times :: "'f machinery_views \<Rightarrow> ('f cell, pointer, instant option) viewer" where
  "view_times V \<equiv> view_pointer Time_cell (view_Time V)"

abbreviation foot_times :: "'f machinery_views \<Rightarrow> ('f cell, pointer) footprint" where
  "foot_times V \<equiv> foot_pointer Time_cell (foot_Time V)"

abbreviation view_conditions :: "'f machinery_views \<Rightarrow> ('f cell, slice, json list option) viewer" where
  "view_conditions V \<equiv> view_slice Condition_cell (view_Condition V)"

abbreviation foot_conditions :: "'f machinery_views \<Rightarrow> ('f cell, slice) footprint" where
  "foot_conditions V \<equiv> foot_slice Condition_cell (foot_Condition V)"

abbreviation view_bool :: "('f cell, pointer, bool option) viewer" where
  "view_bool \<equiv> view_pointer Bool_cell view_value"

abbreviation foot_bool :: "('f cell, pointer) footprint" where
  "foot_bool \<equiv> foot_pointer Bool_cell foot_value"

abbreviation view_int32 :: "('f cell, pointer, int option) viewer" where
  "view_int32 \<equiv> view_pointer Int32_cell view_value"

abbreviation foot_int32 :: "('f cell, pointer) footprint" where
  "foot_int32 \<equiv> foot_pointer Int32_cell foot_value"

subsubsection \<open>InferencePipeline\<close>

definition view_PipelineStage :: "('f cell, mem_PipelineStage, PipelineStage) viewer" where
  "view_PipelineStage m x = do {
     enabled \<leftarrow> view_bool m (mps_Enabled x);
     Some \<lparr>ps_Name = mps_Name x, ps_Model = mps_Model x, ps_Enabled = enabled\<rparr> }"

definition foot_PipelineStage :: "('f cell, mem_PipelineStage) footprint" where
  "foot_PipelineStage m x = foot_bool m (mps_Enabled x)"

definition view_InferencePipelineSpec :: "('f cell, mem_InferencePipelineSpec, PipelineStage list) viewer" where
  "view_InferencePipelineSpec m x =
     map_option elements (view_slice PipelineStage_cell view_PipelineStage m (mis_Stages x))"

definition foot_InferencePipelineSpec :: "('f cell, mem_InferencePipelineSpec) footprint" where
  "foot_InferencePipelineSpec m x = foot_slice PipelineStage_cell foot_PipelineStage m (mis_Stages x)"

definition view_InferencePipelineStatus ::
    "'f machinery_views \<Rightarrow> ('f cell, mem_InferencePipelineStatus, InferencePipelineStatus) viewer" where
  "view_InferencePipelineStatus V m x = do {
     stages \<leftarrow> view_slice PipelineStageStatus_cell view_value m (mit_Stages x);
     conditions \<leftarrow> view_conditions V m (mit_Conditions x);
     transition \<leftarrow> view_times V m (mit_LastTransitionTime x);
     Some \<lparr>is_Phase = mit_Phase x, is_Stages = elements stages, is_Message = mit_Message x,
           is_Conditions = elements conditions, is_LastTransitionTime = transition\<rparr> }"

definition foot_InferencePipelineStatus ::
    "'f machinery_views \<Rightarrow> ('f cell, mem_InferencePipelineStatus) footprint" where
  "foot_InferencePipelineStatus V m x =
     foot_slice PipelineStageStatus_cell foot_value m (mit_Stages x) \<union>
     (foot_conditions V m (mit_Conditions x) \<union> foot_times V m (mit_LastTransitionTime x))"

definition view_InferencePipeline ::
    "'f machinery_views \<Rightarrow> ('f cell, 'f mem_InferencePipeline, TypeMeta \<times> InferencePipeline) viewer" where
  "view_InferencePipeline V m x = do {
     meta \<leftarrow> view_ObjectMeta V m (mip_ObjectMeta x);
     stages \<leftarrow> view_InferencePipelineSpec m (mip_Spec x);
     status \<leftarrow> view_InferencePipelineStatus V m (mip_Status x);
     Some (mip_TypeMeta x, \<lparr>ip_Meta = meta, ip_Stages = stages, ip_Status = status\<rparr>) }"

definition foot_InferencePipeline :: "'f machinery_views \<Rightarrow> ('f cell, 'f mem_InferencePipeline) footprint" where
  "foot_InferencePipeline V m x =
     foot_ObjectMeta V m (mip_ObjectMeta x) \<union>
     (foot_InferencePipelineSpec m (mip_Spec x) \<union> foot_InferencePipelineStatus V m (mip_Status x))"

definition view_InferencePipelineList :: "'f machinery_views \<Rightarrow>
    ('f cell, 'f mem_InferencePipelineList, TypeMeta \<times> json \<times> (TypeMeta \<times> InferencePipeline) list option) viewer" where
  "view_InferencePipelineList V m x = do {
     meta \<leftarrow> view_ListMeta V m (mipl_ListMeta x);
     items \<leftarrow> view_slice InferencePipeline_cell (view_InferencePipeline V) m (mipl_Items x);
     Some (mipl_TypeMeta x, meta, items) }"

definition foot_InferencePipelineList ::
    "'f machinery_views \<Rightarrow> ('f cell, 'f mem_InferencePipelineList) footprint" where
  "foot_InferencePipelineList V m x =
     foot_ListMeta V m (mipl_ListMeta x) \<union>
     foot_slice InferencePipeline_cell (foot_InferencePipeline V) m (mipl_Items x)"

subsubsection \<open>VoiceModel\<close>

definition view_VoiceModelSpec :: "'f machinery_views \<Rightarrow> ('f cell, mem_VoiceModelSpec, VoiceModelSpec) viewer" where
  "view_VoiceModelSpec V m x = do {
     replicas \<leftarrow> view_int32 m (ms_Replicas x);
     resources \<leftarrow> view_pointer ResourceRequirements_cell (view_ResourceRequirements V) m (ms_Resources x);
     health \<leftarrow> view_pointer HealthConfig_cell view_value m (ms_Health x);
     metrics \<leftarrow> view_bool m (ms_Metrics x);
     Some \<lparr>vs_Model = ms_Model x, vs_Replicas = replicas, vs_Device = ms_Device x,
           vs_Quantization = ms_Quantization x, vs_Image = ms_Image x, vs_Resources = resources,
           vs_Port = ms_Port x, vs_Health = health, vs_Metrics = metrics\<rparr> }"

definition foot_VoiceModelSpec :: "'f machinery_views \<Rightarrow> ('f cell, mem_VoiceModelSpec) footprint" where
  "foot_VoiceModelSpec V m x =
     foot_int32 m (ms_Replicas x) \<union>
     (foot_pointer ResourceRequirements_cell (foot_ResourceRequirements V) m (ms_Resources x) \<union>
     (foot_pointer HealthConfig_cell foot_value m (ms_Health x) \<union> foot_bool m (ms_Metrics x)))"

definition view_VoiceModelStatus ::
    "'f machinery_views \<Rightarrow> ('f cell, mem_VoiceModelStatus, VoiceModelStatus) viewer" where
  "view_VoiceModelStatus V m x = do {
     conditions \<leftarrow> view_conditions V m (mt_Conditions x);
     transition \<leftarrow> view_times V m (mt_LastTransitionTime x);
     Some \<lparr>vt_Phase = mt_Phase x, vt_ReadyReplicas = mt_ReadyReplicas x, vt_Endpoint = mt_Endpoint x,
           vt_Message = mt_Message x, vt_Conditions = elements conditions,
           vt_LastTransitionTime = transition\<rparr> }"

definition foot_VoiceModelStatus :: "'f machinery_views \<Rightarrow> ('f cell, mem_VoiceModelStatus) footprint" where
  "foot_VoiceModelStatus V m x =
     foot_conditions V m (mt_Conditions x) \<union> foot_times V m (mt_LastTransitionTime x)"

definition view_VoiceModel ::
    "'f machinery_views \<Rightarrow> ('f cell, 'f mem_VoiceModel, TypeMeta \<times> VoiceModel) viewer" where
  "view_VoiceModel V m x = do {
     meta \<leftarrow> view_ObjectMeta V m (mv_ObjectMeta x);
     spec \<leftarrow> view_VoiceModelSpec V m (mv_Spec x);
     status \<leftarrow> view_VoiceModelStatus V m (mv_Status x);
     Some (mv_TypeMeta x, \<lparr>vm_Meta = meta, vm_Spec = spec, vm_Status = status\<rparr>) }"

definition foot_VoiceModel :: "'f machinery_views \<Rightarrow> ('f cell, 'f mem_VoiceModel) footprint" where
  "foot_VoiceModel V m x =
     foot_ObjectMeta V m (mv_ObjectMeta x) \<union>
     (foot_VoiceModelSpec V m (mv_Spec x) \<union> foot_VoiceModelStatus V m (mv_Status x))"

definition view_VoiceModelList :: "'f machinery_views \<Rightarrow>
    ('f cell, 'f mem_VoiceModelList, TypeMeta \<times> json \<times> (TypeMeta \<times> VoiceModel) list option) viewer" where
  "view_VoiceModelList V m x = do {
     meta \<leftarrow> view_ListMeta V m (mvl_ListMeta x);
     items \<leftarrow> view_slice VoiceModel_cell (view_VoiceModel V) m (mvl_Items x);
     Some (mvl_TypeMeta x, meta, items) }"

definition foot_VoiceModelList :: "'f machinery_views \<Rightarrow> ('f cell, 'f mem_VoiceModelList) footprint" where
  "foot_VoiceModelList V m x =
     foot_ListMeta V m (mvl_ListMeta x) \<union>
     foot_slice VoiceModel_cell (foot_VoiceModel V) m (mvl_Items x)"

subsubsection \<open>EvalRun\<close>

definition view_EvalRunSpec :: "('f cell, mem_EvalRunSpec, EvalRunSpec) viewer" where
  "view_EvalRunSpec m x = do {
     timeout \<leftarrow> view_int32 m (mes_TimeoutSeconds x);
     Some \<lparr>es_Dataset = mes_Dataset x, es_GatewayURL = mes_GatewayURL x, es_Model = mes_Model x,
           es_Image = mes_Image x, es_WERThreshold = mes_WERThreshold x, es_TimeoutSeconds = timeout,
           es_Suspend = mes_Suspend x\<rparr> }"

definition foot_EvalRunSpec :: "('f cell, mem_EvalRunSpec) footprint" where
  "foot_EvalRunSpec m x = foot_int32 m (mes_TimeoutSeconds x)"

definition view_EvalRunStatus ::
    "'f machinery_views \<Rightarrow> ('f cell, mem_EvalRunStatus, EvalRunStatus) viewer" where
  "view_EvalRunStatus V m x = do {
     passed \<leftarrow> view_bool m (met_Passed x);
     start \<leftarrow> view_times V m (met_StartTime x);
     completion \<leftarrow> view_times V m (met_CompletionTime x);
     conditions \<leftarrow> view_conditions V m (met_Conditions x);
     Some \<lparr>et_Phase = met_Phase x, et_WorkflowRef = met_WorkflowRef x, et_CorpusWER = met_CorpusWER x,
           et_MeanWER = met_MeanWER x, et_Passed = passed, et_TotalSamples = met_TotalSamples x,
           et_Message = met_Message x, et_StartTime = start, et_CompletionTime = completion,
           et_Conditions = elements conditions\<rparr> }"

definition foot_EvalRunStatus :: "'f machinery_views \<Rightarrow> ('f cell, mem_EvalRunStatus) footprint" where
  "foot_EvalRunStatus V m x =
     foot_bool m (met_Passed x) \<union>
     (foot_times V m (met_StartTime x) \<union>
     (foot_times V m (met_CompletionTime x) \<union> foot_conditions V m (met_Conditions x)))"

definition view_EvalRun :: "'f machinery_views \<Rightarrow> ('f cell, 'f mem_EvalRun, TypeMeta \<times> EvalRun) viewer" where
  "view_EvalRun V m x = do {
     meta \<leftarrow> view_ObjectMeta V m (mer_ObjectMeta x);
     spec \<leftarrow> view_EvalRunSpec m (mer_Spec x);
     status \<leftarrow> view_EvalRunStatus V m (mer_Status x);
     Some (mer_TypeMeta x, \<lparr>er_Meta = meta, er_Spec = spec, er_Status = status\<rparr>) }"

definition foot_EvalRun :: "'f machinery_views \<Rightarrow> ('f cell, 'f mem_EvalRun) footprint" where
  "foot_EvalRun V m x =
     foot_ObjectMeta V m (mer_ObjectMeta x) \<union>
     (foot_EvalRunSpec m (mer_Spec x) \<union> foot_EvalRunStatus V m (mer_Status x))"

definition view_EvalRunList :: "'f machinery_views \<Rightarrow>
    ('f cell, 'f mem_EvalRunList, TypeMeta \<times> json \<times> (TypeMeta \<times> EvalRun) list option) viewer" where
  "view_EvalRunList V m x = do {
     meta \<leftarrow> view_ListMeta V m (merl_ListMeta x);
     items \<leftarrow> view_slice EvalRun_cell (view_EvalRun V) m (merl_Items x);
     Some (merl_TypeMeta x, meta, items) }"

definition foot_EvalRunList :: "'f machinery_views \<Rightarrow> ('f cell, 'f mem_EvalRunList) footprint" where
  "foot_EvalRunList V m x =
     foot_ListMeta V m (merl_ListMeta x) \<union>
     foot_slice EvalRun_cell (foot_EvalRun V) m (merl_Items x)"


subsection \<open>The generated functions are deep copies\<close>

text \<open>Each structure is the tuple of its copied fields (\<open>deep_copy_struct\<close>).\<close>

lemmas copy_to_fields = copy_pair_def bind_assoc map_conv_bind_option o_def case_prod_unfold Let_def

lemma deep_copy_bool: "deep_copy view_bool foot_bool (copy_pointer Bool_cell assign)"
  by (rule deep_copy_pointer [OF deep_copy_assign]) simp

lemma deep_copy_int32: "deep_copy view_int32 foot_int32 (copy_pointer Int32_cell assign)"
  by (rule deep_copy_pointer [OF deep_copy_assign]) simp

lemma deep_copy_PipelineStage:
  "deep_copy view_PipelineStage foot_PipelineStage PipelineStage_DeepCopyInto"
  by (rule deep_copy_struct [where get = mps_Enabled and put = "\<lambda>x b. x\<lparr>mps_Enabled := b\<rparr>" and
        mk = "\<lambda>x v. \<lparr>ps_Name = mps_Name x, ps_Model = mps_Model x, ps_Enabled = v\<rparr>",
      OF deep_copy_bool])
    (simp_all add: PipelineStage_DeepCopyInto_def view_PipelineStage_def foot_PipelineStage_def
      copy_to_fields)

lemma deep_copy_EvalRunSpec:
  "deep_copy view_EvalRunSpec foot_EvalRunSpec EvalRunSpec_DeepCopyInto"
  by (rule deep_copy_struct [where get = mes_TimeoutSeconds and put = "\<lambda>x b. x\<lparr>mes_TimeoutSeconds := b\<rparr>" and
        mk = "\<lambda>x v. \<lparr>es_Dataset = mes_Dataset x, es_GatewayURL = mes_GatewayURL x, es_Model = mes_Model x,
           es_Image = mes_Image x, es_WERThreshold = mes_WERThreshold x, es_TimeoutSeconds = v,
           es_Suspend = mes_Suspend x\<rparr>",
      OF deep_copy_int32])
    (simp_all add: EvalRunSpec_DeepCopyInto_def view_EvalRunSpec_def foot_EvalRunSpec_def copy_to_fields)

lemma deep_copy_InferencePipelineSpec:
  "deep_copy view_InferencePipelineSpec foot_InferencePipelineSpec InferencePipelineSpec_DeepCopyInto"
  by (rule deep_copy_struct [where get = mis_Stages and put = "\<lambda>x b. x\<lparr>mis_Stages := b\<rparr>" and
        mk = "\<lambda>x. elements", OF deep_copy_slice [OF deep_copy_PipelineStage]])
    (simp_all add: InferencePipelineSpec_DeepCopyInto_def view_InferencePipelineSpec_def
      foot_InferencePipelineSpec_def copy_to_fields)

interpretation stage: deep_copy view_PipelineStage foot_PipelineStage PipelineStage_DeepCopyInto
  by (rule deep_copy_PipelineStage)

interpretation eval_spec: deep_copy view_EvalRunSpec foot_EvalRunSpec EvalRunSpec_DeepCopyInto
  by (rule deep_copy_EvalRunSpec)

interpretation pipeline_spec: deep_copy view_InferencePipelineSpec foot_InferencePipelineSpec
    InferencePipelineSpec_DeepCopyInto
  by (rule deep_copy_InferencePipelineSpec)

lemma deep_copy_times:
  assumes "machinery_copies V K"
  shows "deep_copy (view_times V) (foot_times V) (copy_time K)"
proof -
  have d: "deep_copy (view_times V) (foot_times V) (Time_DeepCopy K)"
    using assms by (simp add: machinery_copies_def)
  show ?thesis
  proof (intro deep_copy.intro deep_copy_axioms.intro)
    show "heap_view (view_times V) (foot_times V)" by (rule deep_copy.axioms(1) [OF d])
    fix m :: "'a cell memory" and t v
    assume "mem_wf m" "view_times V m t = Some v"
    then show "\<exists>x' m'. copy_time K t m = Some (x', m') \<and> grows m m' \<and> view_times V m' x' = Some v \<and>
        foot_times V m' x' \<subseteq> {mem_next m..<mem_next m'}"
    proof (cases t)
      case None
      then show ?thesis using \<open>mem_wf m\<close> \<open>view_times V m t = Some v\<close>
        by (simp add: copy_time_def view_pointer_def foot_pointer_def)
    next
      case (Some p)
      then show ?thesis using deep_copy.copies [OF d \<open>mem_wf m\<close> \<open>view_times V m t = Some v\<close>]
        by (simp add: copy_time_def)
    qed
  qed
qed

lemma deep_copy_conditions:
  assumes "machinery_copies V K"
  shows "deep_copy (view_conditions V) (foot_conditions V) (copy_conditions K)"
  using deep_copy_slice [of "view_Condition V" "foot_Condition V" "Condition_DeepCopyInto K" Condition_cell] assms
  unfolding copy_conditions_def by (simp add: machinery_copies_def)

lemma deep_copy_EvalRunStatus:
  assumes "machinery_copies V K"
  shows "deep_copy (view_EvalRunStatus V) (foot_EvalRunStatus V) (EvalRunStatus_DeepCopyInto K)"
  by (rule deep_copy_struct [where
      get = "\<lambda>x. (met_Passed x, met_StartTime x, met_CompletionTime x, met_Conditions x)" and
      put = "\<lambda>x b. x\<lparr>met_Passed := fst b, met_StartTime := fst (snd b),
        met_CompletionTime := fst (snd (snd b)), met_Conditions := snd (snd (snd b))\<rparr>" and
      mk = "\<lambda>x v. \<lparr>et_Phase = met_Phase x, et_WorkflowRef = met_WorkflowRef x,
        et_CorpusWER = met_CorpusWER x, et_MeanWER = met_MeanWER x, et_Passed = fst v,
        et_TotalSamples = met_TotalSamples x, et_Message = met_Message x, et_StartTime = fst (snd v),
        et_CompletionTime = fst (snd (snd v)), et_Conditions = elements (snd (snd (snd v)))\<rparr>",
      OF deep_copy_pair [OF deep_copy_bool deep_copy_pair [OF deep_copy_times [OF assms]
        deep_copy_pair [OF deep_copy_times [OF assms] deep_copy_conditions [OF assms]]]]])
    (simp_all add: EvalRunStatus_DeepCopyInto_def view_EvalRunStatus_def foot_EvalRunStatus_def
      copy_to_fields view_pair_def foot_pair_def)

lemma deep_copy_InferencePipelineStatus:
  assumes "machinery_copies V K"
  shows "deep_copy (view_InferencePipelineStatus V) (foot_InferencePipelineStatus V)
    (InferencePipelineStatus_DeepCopyInto K)"
  by (rule deep_copy_struct [where
      get = "\<lambda>x. (mit_Stages x, mit_Conditions x, mit_LastTransitionTime x)" and
      put = "\<lambda>x b. x\<lparr>mit_Stages := fst b, mit_Conditions := fst (snd b),
        mit_LastTransitionTime := snd (snd b)\<rparr>" and
      mk = "\<lambda>x v. \<lparr>is_Phase = mit_Phase x, is_Stages = elements (fst v), is_Message = mit_Message x,
        is_Conditions = elements (fst (snd v)), is_LastTransitionTime = snd (snd v)\<rparr>",
      OF deep_copy_pair [OF deep_copy_slice [OF deep_copy_assign, where T = PipelineStageStatus_cell]
        deep_copy_pair [OF deep_copy_conditions [OF assms] deep_copy_times [OF assms]]]])
    (simp_all add: InferencePipelineStatus_DeepCopyInto_def view_InferencePipelineStatus_def
      foot_InferencePipelineStatus_def copy_to_fields view_pair_def foot_pair_def)

lemma deep_copy_VoiceModelStatus:
  assumes "machinery_copies V K"
  shows "deep_copy (view_VoiceModelStatus V) (foot_VoiceModelStatus V) (VoiceModelStatus_DeepCopyInto K)"
  by (rule deep_copy_struct [where
      get = "\<lambda>x. (mt_Conditions x, mt_LastTransitionTime x)" and
      put = "\<lambda>x b. x\<lparr>mt_Conditions := fst b, mt_LastTransitionTime := snd b\<rparr>" and
      mk = "\<lambda>x v. \<lparr>vt_Phase = mt_Phase x, vt_ReadyReplicas = mt_ReadyReplicas x,
        vt_Endpoint = mt_Endpoint x, vt_Message = mt_Message x, vt_Conditions = elements (fst v),
        vt_LastTransitionTime = snd v\<rparr>",
      OF deep_copy_pair [OF deep_copy_conditions [OF assms] deep_copy_times [OF assms]]])
    (simp_all add: VoiceModelStatus_DeepCopyInto_def view_VoiceModelStatus_def
      foot_VoiceModelStatus_def copy_to_fields view_pair_def foot_pair_def)

lemma deep_copy_VoiceModelSpec:
  assumes "machinery_copies V K"
  shows "deep_copy (view_VoiceModelSpec V) (foot_VoiceModelSpec V) (VoiceModelSpec_DeepCopyInto K)"
proof -
  have r: "deep_copy (view_ResourceRequirements V) (foot_ResourceRequirements V)
      (ResourceRequirements_DeepCopyInto K)"
    using assms by (simp add: machinery_copies_def)
  show ?thesis
    by (rule deep_copy_struct [where
      get = "\<lambda>x. (ms_Replicas x, ms_Resources x, ms_Health x, ms_Metrics x)" and
      put = "\<lambda>x b. x\<lparr>ms_Replicas := fst b, ms_Resources := fst (snd b),
        ms_Health := fst (snd (snd b)), ms_Metrics := snd (snd (snd b))\<rparr>" and
      mk = "\<lambda>x v. \<lparr>vs_Model = ms_Model x, vs_Replicas = fst v, vs_Device = ms_Device x,
        vs_Quantization = ms_Quantization x, vs_Image = ms_Image x, vs_Resources = fst (snd v),
        vs_Port = ms_Port x, vs_Health = fst (snd (snd v)), vs_Metrics = snd (snd (snd v))\<rparr>",
      OF deep_copy_pair [OF deep_copy_int32
        deep_copy_pair [OF deep_copy_pointer [OF r, where T = ResourceRequirements_cell]
        deep_copy_pair [OF deep_copy_pointer [OF deep_copy_assign, where T = HealthConfig_cell]
          deep_copy_bool]]]])
    (simp_all add: VoiceModelSpec_DeepCopyInto_def view_VoiceModelSpec_def foot_VoiceModelSpec_def
      copy_to_fields view_pair_def foot_pair_def)
qed


lemma deep_copy_InferencePipeline:
  assumes "machinery_copies V K"
  shows "deep_copy (view_InferencePipeline V) (foot_InferencePipeline V) (InferencePipeline_DeepCopyInto K)"
proof -
  have meta: "deep_copy (view_ObjectMeta V) (foot_ObjectMeta V) (ObjectMeta_DeepCopyInto K)"
    using assms by (simp add: machinery_copies_def)
  show ?thesis
    by (rule deep_copy_struct [where
      get = "\<lambda>x. (mip_ObjectMeta x, mip_Spec x, mip_Status x)" and
      put = "\<lambda>x b. x\<lparr>mip_ObjectMeta := fst b, mip_Spec := fst (snd b), mip_Status := snd (snd b)\<rparr>" and
      mk = "\<lambda>x v. (mip_TypeMeta x, \<lparr>ip_Meta = fst v, ip_Stages = fst (snd v), ip_Status = snd (snd v)\<rparr>)",
      OF deep_copy_pair [OF meta deep_copy_pair [OF deep_copy_InferencePipelineSpec deep_copy_InferencePipelineStatus [OF assms]]]])
    (simp_all add: InferencePipeline_DeepCopyInto_def view_InferencePipeline_def foot_InferencePipeline_def
      copy_to_fields view_pair_def foot_pair_def)
qed

lemma deep_copy_VoiceModel:
  assumes "machinery_copies V K"
  shows "deep_copy (view_VoiceModel V) (foot_VoiceModel V) (VoiceModel_DeepCopyInto K)"
proof -
  have meta: "deep_copy (view_ObjectMeta V) (foot_ObjectMeta V) (ObjectMeta_DeepCopyInto K)"
    using assms by (simp add: machinery_copies_def)
  show ?thesis
    by (rule deep_copy_struct [where
      get = "\<lambda>x. (mv_ObjectMeta x, mv_Spec x, mv_Status x)" and
      put = "\<lambda>x b. x\<lparr>mv_ObjectMeta := fst b, mv_Spec := fst (snd b), mv_Status := snd (snd b)\<rparr>" and
      mk = "\<lambda>x v. (mv_TypeMeta x, \<lparr>vm_Meta = fst v, vm_Spec = fst (snd v), vm_Status = snd (snd v)\<rparr>)",
      OF deep_copy_pair [OF meta deep_copy_pair [OF deep_copy_VoiceModelSpec [OF assms] deep_copy_VoiceModelStatus [OF assms]]]])
    (simp_all add: VoiceModel_DeepCopyInto_def view_VoiceModel_def foot_VoiceModel_def
      copy_to_fields view_pair_def foot_pair_def)
qed

lemma deep_copy_EvalRun:
  assumes "machinery_copies V K"
  shows "deep_copy (view_EvalRun V) (foot_EvalRun V) (EvalRun_DeepCopyInto K)"
proof -
  have meta: "deep_copy (view_ObjectMeta V) (foot_ObjectMeta V) (ObjectMeta_DeepCopyInto K)"
    using assms by (simp add: machinery_copies_def)
  show ?thesis
    by (rule deep_copy_struct [where
      get = "\<lambda>x. (mer_ObjectMeta x, mer_Spec x, mer_Status x)" and
      put = "\<lambda>x b. x\<lparr>mer_ObjectMeta := fst b, mer_Spec := fst (snd b), mer_Status := snd (snd b)\<rparr>" and
      mk = "\<lambda>x v. (mer_TypeMeta x, \<lparr>er_Meta = fst v, er_Spec = fst (snd v), er_Status = snd (snd v)\<rparr>)",
      OF deep_copy_pair [OF meta deep_copy_pair [OF deep_copy_EvalRunSpec deep_copy_EvalRunStatus [OF assms]]]])
    (simp_all add: EvalRun_DeepCopyInto_def view_EvalRun_def foot_EvalRun_def
      copy_to_fields view_pair_def foot_pair_def)
qed

lemma deep_copy_InferencePipelineList:
  assumes "machinery_copies V K"
  shows "deep_copy (view_InferencePipelineList V) (foot_InferencePipelineList V) (InferencePipelineList_DeepCopyInto K)"
proof -
  have meta: "deep_copy (view_ListMeta V) (foot_ListMeta V) (ListMeta_DeepCopyInto K)"
    using assms by (simp add: machinery_copies_def)
  show ?thesis
    by (rule deep_copy_struct [where
      get = "\<lambda>x. (mipl_ListMeta x, mipl_Items x)" and
      put = "\<lambda>x b. x\<lparr>mipl_ListMeta := fst b, mipl_Items := snd b\<rparr>" and
      mk = "\<lambda>x v. (mipl_TypeMeta x, fst v, snd v)",
      OF deep_copy_pair [OF meta
        deep_copy_slice [OF deep_copy_InferencePipeline [OF assms], where T = InferencePipeline_cell]]])
    (simp_all add: InferencePipelineList_DeepCopyInto_def view_InferencePipelineList_def foot_InferencePipelineList_def
      copy_to_fields view_pair_def foot_pair_def)
qed

lemma deep_copy_VoiceModelList:
  assumes "machinery_copies V K"
  shows "deep_copy (view_VoiceModelList V) (foot_VoiceModelList V) (VoiceModelList_DeepCopyInto K)"
proof -
  have meta: "deep_copy (view_ListMeta V) (foot_ListMeta V) (ListMeta_DeepCopyInto K)"
    using assms by (simp add: machinery_copies_def)
  show ?thesis
    by (rule deep_copy_struct [where
      get = "\<lambda>x. (mvl_ListMeta x, mvl_Items x)" and
      put = "\<lambda>x b. x\<lparr>mvl_ListMeta := fst b, mvl_Items := snd b\<rparr>" and
      mk = "\<lambda>x v. (mvl_TypeMeta x, fst v, snd v)",
      OF deep_copy_pair [OF meta
        deep_copy_slice [OF deep_copy_VoiceModel [OF assms], where T = VoiceModel_cell]]])
    (simp_all add: VoiceModelList_DeepCopyInto_def view_VoiceModelList_def foot_VoiceModelList_def
      copy_to_fields view_pair_def foot_pair_def)
qed

lemma deep_copy_EvalRunList:
  assumes "machinery_copies V K"
  shows "deep_copy (view_EvalRunList V) (foot_EvalRunList V) (EvalRunList_DeepCopyInto K)"
proof -
  have meta: "deep_copy (view_ListMeta V) (foot_ListMeta V) (ListMeta_DeepCopyInto K)"
    using assms by (simp add: machinery_copies_def)
  show ?thesis
    by (rule deep_copy_struct [where
      get = "\<lambda>x. (merl_ListMeta x, merl_Items x)" and
      put = "\<lambda>x b. x\<lparr>merl_ListMeta := fst b, merl_Items := snd b\<rparr>" and
      mk = "\<lambda>x v. (merl_TypeMeta x, fst v, snd v)",
      OF deep_copy_pair [OF meta
        deep_copy_slice [OF deep_copy_EvalRun [OF assms], where T = EvalRun_cell]]])
    (simp_all add: EvalRunList_DeepCopyInto_def view_EvalRunList_def foot_EvalRunList_def
      copy_to_fields view_pair_def foot_pair_def)
qed

subsection \<open>What DeepCopyObject gives its caller\<close>

text \<open>
  The cache of the API machinery hands its clients \<open>DeepCopyObject\<close> of what it stores, and relies
  on this: for nil the interface is nil; for an object it holds a pointer to an object with the
  same value; and whatever the caller then writes into the blocks of the copy, or the cache into
  those of its own object, the other keeps its value.
\<close>

definition isolates ::
    "('f cell, pointer, 'v option) viewer \<Rightarrow> ('f cell, pointer) footprint \<Rightarrow>
     (pointer \<Rightarrow> 'f api_memory \<Rightarrow> (runtime_Object option \<times> 'f api_memory) option) \<Rightarrow>
     (pointer \<Rightarrow> runtime_Object) \<Rightarrow> bool" where
  "isolates view foot copy object \<longleftrightarrow>
     (\<forall>m. copy None m = Some (None, m)) \<and>
     (\<forall>m p v. mem_wf m \<and> p \<noteq> None \<and> view m p = Some v \<longrightarrow>
       (\<exists>q m'. copy p m = Some (Some (object q), m') \<and> q \<noteq> None \<and> grows m m' \<and>
          view m' q = Some v \<and> view m' p = Some v \<and> foot m' q \<inter> foot m' p = {} \<and>
          (\<forall>m''. agree_on (- foot m' q) m' m'' \<longrightarrow> view m'' p = Some v) \<and>
          (\<forall>m''. agree_on (- foot m' p) m' m'' \<longrightarrow> view m'' q = Some v)))"

lemma isolates_copy_pointer:
  assumes d: "deep_copy vw ft cp" and T: "lawful T"
    and obj: "\<And>p m. copy p m = do { (c, m) \<leftarrow> copy_pointer T cp p m;
        if c \<noteq> None then Some (Some (object c), m) else Some (None, m) }"
  shows "isolates (view_pointer T vw) (foot_pointer T ft) copy object"
  unfolding isolates_def
proof (intro conjI allI impI)
  show "copy None m = Some (None, m)" for m by (simp add: obj copy_pointer_def)
  note dp = deep_copy_pointer [OF d T]
  fix m p v
  assume "mem_wf m \<and> p \<noteq> None \<and> view_pointer T vw m p = Some v"
  then have p: "mem_wf m" "p \<noteq> None" "view_pointer T vw m p = Some v" by auto
  obtain q m' where q: "copy_pointer T cp p m = Some (q, m')" "grows m m'"
    using deep_copy.copies [OF dp p(1, 3)] by blast
  then have "q \<noteq> None" using copy_pointer_nil [OF q(1)] p(2) by simp
  with q show "\<exists>q m'. copy p m = Some (Some (object q), m') \<and> q \<noteq> None \<and> grows m m' \<and>
      view_pointer T vw m' q = Some v \<and> view_pointer T vw m' p = Some v \<and>
      foot_pointer T ft m' q \<inter> foot_pointer T ft m' p = {} \<and>
      (\<forall>m''. agree_on (- foot_pointer T ft m' q) m' m'' \<longrightarrow> view_pointer T vw m'' p = Some v) \<and>
      (\<forall>m''. agree_on (- foot_pointer T ft m' p) m' m'' \<longrightarrow> view_pointer T vw m'' q = Some v)"
    using deep_copy.independent [OF dp p(1, 3) q(1)] by (auto simp: obj)
qed

text \<open>C18: \<open>DeepCopyObject\<close> of each custom resource and of each list type isolates its caller:
  nil gives a nil interface; for any object in any memory it returns (and never faults), without
  changing an existing block, a new object that represents the same resource (metadata, spec and
  status, with every element of a list) and shares no block with the original, so that writes to
  one never show in the other. The API machinery's own functions are assumed to be deep copies.\<close>

theorem DeepCopyObject_isolates:
  assumes "machinery_copies V K"
  shows "isolates (view_pointer VoiceModel_cell (view_VoiceModel V))
      (foot_pointer VoiceModel_cell (foot_VoiceModel V))
      (VoiceModel_DeepCopyObject K) VoiceModel_Object \<and>
    isolates (view_pointer VoiceModelList_cell (view_VoiceModelList V))
      (foot_pointer VoiceModelList_cell (foot_VoiceModelList V))
      (VoiceModelList_DeepCopyObject K) VoiceModelList_Object \<and>
    isolates (view_pointer InferencePipeline_cell (view_InferencePipeline V))
      (foot_pointer InferencePipeline_cell (foot_InferencePipeline V))
      (InferencePipeline_DeepCopyObject K) InferencePipeline_Object \<and>
    isolates (view_pointer InferencePipelineList_cell (view_InferencePipelineList V))
      (foot_pointer InferencePipelineList_cell (foot_InferencePipelineList V))
      (InferencePipelineList_DeepCopyObject K) InferencePipelineList_Object \<and>
    isolates (view_pointer EvalRun_cell (view_EvalRun V))
      (foot_pointer EvalRun_cell (foot_EvalRun V))
      (EvalRun_DeepCopyObject K) EvalRun_Object \<and>
    isolates (view_pointer EvalRunList_cell (view_EvalRunList V))
      (foot_pointer EvalRunList_cell (foot_EvalRunList V))
      (EvalRunList_DeepCopyObject K) EvalRunList_Object"
proof (intro conjI isolates_copy_pointer lawful_cells)
qed (use assms in \<open>simp_all add: deep_copy_VoiceModel deep_copy_VoiceModelList
    deep_copy_InferencePipeline deep_copy_InferencePipelineList deep_copy_EvalRun deep_copy_EvalRunList
    VoiceModel_DeepCopyObject_def VoiceModelList_DeepCopyObject_def InferencePipeline_DeepCopyObject_def
    InferencePipelineList_DeepCopyObject_def EvalRun_DeepCopyObject_def EvalRunList_DeepCopyObject_def
    VoiceModel_DeepCopy_def VoiceModelList_DeepCopy_def InferencePipeline_DeepCopy_def
    InferencePipelineList_DeepCopy_def EvalRun_DeepCopy_def EvalRunList_DeepCopy_def\<close>)


text \<open>A machinery for the witness: its structures hold a name and a pointer to a block of their
  own, which their copying functions copy.\<close>

definition sample_copy :: "((string \<times> pointer) cell, string \<times> pointer) copier" where
  "sample_copy x m = map_option (\<lambda>(p, m'). ((fst x, p), m')) (copy_pointer foreign_cell assign (snd x) m)"

definition sample_view :: "(string \<Rightarrow> (string \<times> pointer) option \<Rightarrow> 'v) \<Rightarrow>
    ((string \<times> pointer) cell, string \<times> pointer, 'v) viewer" where
  "sample_view g m x = map_option (g (fst x)) (view_pointer foreign_cell view_value m (snd x))"

definition sample_foot :: "((string \<times> pointer) cell, string \<times> pointer) footprint" where
  "sample_foot m x = foot_pointer foreign_cell foot_value m (snd x)"

lemma deep_copy_sample: "deep_copy (sample_view g) sample_foot sample_copy"
  by (rule deep_copy_struct [where get = snd and put = "\<lambda>x p. (fst x, p)" and mk = "\<lambda>x. g (fst x)",
      OF deep_copy_pointer [OF deep_copy_assign]])
    (simp_all add: sample_copy_def sample_view_def sample_foot_def)

definition sample_machinery :: "(string \<times> pointer) machinery" where
  "sample_machinery = \<lparr>ObjectMeta_DeepCopyInto = sample_copy, ListMeta_DeepCopyInto = sample_copy,
     Condition_DeepCopyInto = sample_copy, ResourceRequirements_DeepCopyInto = sample_copy,
     Time_DeepCopy = copy_pointer Time_cell sample_copy\<rparr>"

definition sample_views :: "(string \<times> pointer) machinery_views" where
  "sample_views = \<lparr>view_ObjectMeta =
       sample_view (\<lambda>name l. object_meta name '''' (case l of None \<Rightarrow> [] | Some (s, p) \<Rightarrow> [(''app'', s)])),
     foot_ObjectMeta = sample_foot,
     view_ListMeta = sample_view (\<lambda>name l. JStr name), foot_ListMeta = sample_foot,
     view_Condition = sample_view (\<lambda>name l. JStr name), foot_Condition = sample_foot,
     view_ResourceRequirements = sample_view (\<lambda>name l. \<lparr>rr_Requests = [(''cpu'', name)], rr_Limits = []\<rparr>),
     foot_ResourceRequirements = sample_foot,
     view_Time = sample_view (\<lambda>name l. int (length name)), foot_Time = sample_foot\<rparr>"

lemma machinery_copies_sample: "machinery_copies sample_views sample_machinery"
  by (simp add: machinery_copies_def sample_views_def sample_machinery_def deep_copy_sample deep_copy_pointer)

text \<open>A list of one model with two replicas: four blocks.\<close>

definition sample_model :: "(string \<times> pointer) mem_VoiceModel" where
  "sample_model = \<lparr>mv_TypeMeta = (''VoiceModel'', ''vox.vox.io/v1alpha1''),
     mv_ObjectMeta = (''whisper'', Some (0, 0)),
     mv_Spec = \<lparr>ms_Model = ''whisper-small'', ms_Replicas = Some (1, 0), ms_Device = ''cpu'',
       ms_Quantization = '''', ms_Image = '''', ms_Resources = None, ms_Port = 8000, ms_Health = None,
       ms_Metrics = None\<rparr>,
     mv_Status = \<lparr>mt_Phase = ''Ready'', mt_ReadyReplicas = 2, mt_Endpoint = '''', mt_Message = '''',
       mt_Conditions = None, mt_LastTransitionTime = None\<rparr>\<rparr>"

definition sample_memory :: "(string \<times> pointer) api_memory" where
  "sample_memory = \<lparr>mem_next = 4, mem_cells =
     [0 \<mapsto> ForeignBlock [(''speech'', None)], 1 \<mapsto> Int32s [2], 2 \<mapsto> VoiceModels [sample_model],
      3 \<mapsto> VoiceModelLists [\<lparr>mvl_TypeMeta = (''VoiceModelList'', ''vox.vox.io/v1alpha1''),
             mvl_ListMeta = ('''', None), mvl_Items = Some (2, 0, 1)\<rparr>]]\<rparr>"

lemma sample_memory_wf: "mem_wf sample_memory"
  by (simp add: mem_wf_def sample_memory_def)

lemma sample_memory_view:
  "view_pointer VoiceModelList_cell (view_VoiceModelList sample_views) sample_memory (Some (3, 0)) \<noteq> None"
  by code_simp

theorem DeepCopyObject_isolates_witness:
  "(case VoiceModelList_DeepCopyObject sample_machinery (Some (3, 0)) sample_memory of
      Some (Some (VoiceModelList_Object q), m') \<Rightarrow>
        q \<noteq> None \<and>
        view_pointer VoiceModelList_cell (view_VoiceModelList sample_views) m' q =
          view_pointer VoiceModelList_cell (view_VoiceModelList sample_views) sample_memory (Some (3, 0)) \<and>
        foot_pointer VoiceModelList_cell (foot_VoiceModelList sample_views) m' q \<inter>
          foot_pointer VoiceModelList_cell (foot_VoiceModelList sample_views) m' (Some (3, 0)) = {}
    | _ \<Rightarrow> False) \<and>
   VoiceModelList_DeepCopyObject sample_machinery None sample_memory = Some (None, sample_memory)"
proof -
  obtain v where v: "view_pointer VoiceModelList_cell (view_VoiceModelList sample_views) sample_memory
      (Some (3, 0)) = Some v"
    using sample_memory_view by blast
  have "isolates (view_pointer VoiceModelList_cell (view_VoiceModelList sample_views))
      (foot_pointer VoiceModelList_cell (foot_VoiceModelList sample_views))
      (VoiceModelList_DeepCopyObject sample_machinery) VoiceModelList_Object"
    using DeepCopyObject_isolates [OF machinery_copies_sample] by blast
  then have "VoiceModelList_DeepCopyObject sample_machinery None sample_memory = Some (None, sample_memory)"
    and "\<exists>q m'. VoiceModelList_DeepCopyObject sample_machinery (Some (3, 0)) sample_memory =
        Some (Some (VoiceModelList_Object q), m') \<and> q \<noteq> None \<and>
      view_pointer VoiceModelList_cell (view_VoiceModelList sample_views) m' q = Some v \<and>
      foot_pointer VoiceModelList_cell (foot_VoiceModelList sample_views) m' q \<inter>
          foot_pointer VoiceModelList_cell (foot_VoiceModelList sample_views) m' (Some (3, 0)) = {}"
    unfolding isolates_def using sample_memory_wf v by blast+
  then show ?thesis by (auto simp: v)
qed

end
