(* ===== verification/E2eUtils.thy ===== *)
theory E2eUtils
  imports GoStrings
begin

section \<open>Helpers of the operator's end-to-end tests (operator/test/utils/utils.go)\<close>

text \<open>
  The helpers run commands, read their output and edit files. The operating system is a parameter
  (\<open>e2e_env\<close>): the environment variables, the answer to the n-th command, the errors of the file
  system. The world holds the working directory, which \<open>Run\<close> changes, the files, the commands that
  were run, and what was written to the Ginkgo log. \<open>%q\<close> is modelled on ASCII: bytes from 128 up are
  left as they are.
\<close>

subsection \<open>Strings\<close>

fun is_prefix :: "string \<Rightarrow> string \<Rightarrow> bool" where
  "is_prefix [] s = True"
| "is_prefix (c # cs) [] = False"
| "is_prefix (c # cs) (d # ds) = (c = d \<and> is_prefix cs ds)"

definition trim_prefix :: "string \<Rightarrow> string \<Rightarrow> string" where
  "trim_prefix s p = (if is_prefix p s then drop (length p) s else s)"

fun str_index :: "string \<Rightarrow> string \<Rightarrow> nat option" where
  "str_index [] sub = (if sub = [] then Some 0 else None)"
| "str_index (c # cs) sub =
     (if is_prefix sub (c # cs) then Some 0 else map_option Suc (str_index cs sub))"

definition str_contains :: "string \<Rightarrow> string \<Rightarrow> bool" where
  "str_contains s sub \<longleftrightarrow> str_index s sub \<noteq> None"

text \<open>\<open>strings.ReplaceAll\<close> for a text to replace that is not empty; the first argument is the number of
  bytes of a match still to be skipped.\<close>

fun replace_from :: "nat \<Rightarrow> string \<Rightarrow> string \<Rightarrow> string \<Rightarrow> string" where
  "replace_from n old new [] = []"
| "replace_from (Suc n) old new (c # cs) = replace_from n old new cs"
| "replace_from 0 old new (c # cs) =
     (if is_prefix old (c # cs) then new @ replace_from (length old - 1) old new cs
      else c # replace_from 0 old new cs)"

definition replace_all :: "string \<Rightarrow> string \<Rightarrow> string \<Rightarrow> string" where
  "replace_all s old new = replace_from 0 old new s"

definition newline :: char where "newline = CHR 0x0A"
definition carriage_return :: char where "carriage_return = CHR 0x0D"

definition quote_char :: "char \<Rightarrow> string" where
  "quote_char c =
     (let n = (of_char c :: nat); esc = (\<lambda>d. [CHR 0x5C, d])
      in if n = 34 \<or> n = 92 then esc c
         else if n = 7 then esc CHR ''a'' else if n = 8 then esc CHR ''b''
         else if n = 9 then esc CHR ''t'' else if n = 10 then esc CHR ''n''
         else if n = 11 then esc CHR ''v'' else if n = 12 then esc CHR ''f''
         else if n = 13 then esc CHR ''r''
         else if n < 32 \<or> n = 127 then esc CHR ''x'' @ [hex_digit (n div 16), hex_digit (n mod 16)]
         else [c])"

definition quoted :: "string \<Rightarrow> string" where
  "quoted s = [CHR 0x22] @ concat (map quote_char s) @ [CHR 0x22]"

lemma is_prefix_append [simp]: "is_prefix p (p @ s)"
  by (induction p) auto

lemma is_prefix_iff: "is_prefix p s \<longleftrightarrow> (\<exists>t. s = p @ t)"
  by (induction p s rule: is_prefix.induct) auto

lemma str_contains_iff: "str_contains s sub \<longleftrightarrow> (\<exists>a b. s = a @ sub @ b)"
proof (induction s)
  case Nil
  then show ?case by (auto simp: str_contains_def)
next
  case (Cons c cs)
  have "str_contains (c # cs) sub \<longleftrightarrow> is_prefix sub (c # cs) \<or> str_contains cs sub"
    by (auto simp: str_contains_def)
  also have "\<dots> \<longleftrightarrow> (\<exists>b. c # cs = sub @ b) \<or> (\<exists>a b. cs = a @ sub @ b)"
    by (simp add: is_prefix_iff Cons.IH)
  also have "\<dots> \<longleftrightarrow> (\<exists>a b. c # cs = a @ sub @ b)"
    by (metis append_Cons append_Nil list.exhaust list.inject)
  finally show ?case .
qed

lemma str_index_Some:
  "str_index s sub = Some n \<Longrightarrow> s = take n s @ sub @ drop (n + length sub) s \<and> n \<le> length s"
  by (induction s arbitrary: n) (auto simp: is_prefix_iff split: if_splits)

subsection \<open>The operating system\<close>

record e2e_env =
  ex_environ :: "(string \<times> string) list"
  ex_getwd_error :: "nat \<Rightarrow> (string \<times> goerror) option"
  ex_chdir_error :: "nat \<Rightarrow> string \<Rightarrow> goerror option"
  ex_command :: "nat \<Rightarrow> string list \<Rightarrow> string \<Rightarrow> string list \<Rightarrow> string \<times> goerror option"
  ex_read_error :: "string \<Rightarrow> goerror option"
  ex_write_error :: "string \<Rightarrow> (goerror \<times> string option) option"

record e2e_world =
  ew_cwd :: string
  ew_files :: "string \<Rightarrow> string option"
  ew_runs :: "(string list \<times> string \<times> string list) list"
  ew_log :: "string list"

definition lookup_env :: "e2e_env \<Rightarrow> string \<Rightarrow> string option" where
  "lookup_env K key = lookup_first key (ex_environ K)"

definition environ_list :: "e2e_env \<Rightarrow> string list" where
  "environ_list K = map (\<lambda>(k, v). k @ ''='' @ v) (ex_environ K)"

definition ginkgo :: "string \<Rightarrow> e2e_world \<Rightarrow> e2e_world" where
  "ginkgo line w = w\<lparr>ew_log := ew_log w @ [line]\<rparr>"

subsection \<open>Commands\<close>

definition certmanagerVersion :: string where "certmanagerVersion = ''v1.20.0''"

definition certmanagerURL :: "string \<Rightarrow> string" where
  "certmanagerURL version =
     ''https://github.com/cert-manager/cert-manager/releases/download/'' @ version @ ''/cert-manager.yaml''"

definition defaultKindBinary :: string where "defaultKindBinary = ''kind''"
definition defaultKindCluster :: string where "defaultKindCluster = ''kind''"

definition warnError :: "goerror \<Rightarrow> e2e_world \<Rightarrow> e2e_world" where
  "warnError err w = ginkgo (''warning: '' @ err @ [newline]) w"

text \<open>\<open>os.Getwd\<close> returns the working directory, or an error with whatever text it has.\<close>

definition GetProjectDir :: "e2e_env \<Rightarrow> e2e_world \<Rightarrow> string \<times> goerror option" where
  "GetProjectDir K w =
     (case ex_getwd_error K (length (ew_runs w)) of
        Some (wd, err) \<Rightarrow> (wd, Some (''failed to get current working directory: '' @ err))
      | None \<Rightarrow> (replace_all (ew_cwd w) ''/test/e2e'' '''', None))"

text \<open>A command is its argument list, the program first. The answer is the output and the error of
  \<open>CombinedOutput\<close>. A failure to change the directory is logged, and the command runs all the same.\<close>

definition Run :: "e2e_env \<Rightarrow> string list \<Rightarrow> e2e_world \<Rightarrow> (string \<times> goerror option) \<times> e2e_world" where
  "Run K args w =
     (let n = length (ew_runs w);
          (dir, _) = GetProjectDir K w;
          w1 = (case ex_chdir_error K n dir of
                  Some err \<Rightarrow> ginkgo (''chdir dir: '' @ quoted err @ [newline]) w
                | None \<Rightarrow> w\<lparr>ew_cwd := dir\<rparr>);
          env = environ_list K @ [''GO111MODULE=on''];
          command = join_with '' '' args;
          w2 = ginkgo (''running: '' @ quoted command @ [newline]) w1;
          (output, res) = ex_command K n args dir env;
          w3 = w2\<lparr>ew_runs := ew_runs w2 @ [(args, dir, env)]\<rparr>
      in case res of
           Some err \<Rightarrow>
             ((output, Some (quoted command @ '' failed with error '' @ quoted output @ '': '' @ err)), w3)
         | None \<Rightarrow> ((output, None), w3))"

definition run_or_warn :: "e2e_env \<Rightarrow> string list \<Rightarrow> e2e_world \<Rightarrow> e2e_world" where
  "run_or_warn K args w =
     (let ((output, res), w1) = Run K args w
      in case res of Some err \<Rightarrow> warnError err w1 | None \<Rightarrow> w1)"

fun delete_leases :: "e2e_env \<Rightarrow> string list \<Rightarrow> e2e_world \<Rightarrow> e2e_world" where
  "delete_leases K [] w = w"
| "delete_leases K (lease # leases) w =
     delete_leases K leases
       (run_or_warn K [''kubectl'', ''delete'', ''lease'', lease, ''-n'', ''kube-system'',
          ''--ignore-not-found'', ''--force'', ''--grace-period=0''] w)"

definition UninstallCertManager :: "e2e_env \<Rightarrow> e2e_world \<Rightarrow> e2e_world" where
  "UninstallCertManager K w =
     (let url = certmanagerURL certmanagerVersion;
          w1 = run_or_warn K [''kubectl'', ''delete'', ''-f'', url] w
      in delete_leases K [''cert-manager-cainjector-leader-election'', ''cert-manager-controller''] w1)"

definition InstallCertManager :: "e2e_env \<Rightarrow> e2e_world \<Rightarrow> goerror option \<times> e2e_world" where
  "InstallCertManager K w =
     (let url = certmanagerURL certmanagerVersion;
          ((output, res), w1) = Run K [''kubectl'', ''apply'', ''-f'', url] w
      in case res of
           Some err \<Rightarrow> (Some err, w1)
         | None \<Rightarrow>
             (let ((output, res), w2) = Run K [''kubectl'', ''wait'', ''deployment.apps/cert-manager-webhook'',
                    ''--for'', ''condition=Available'', ''--namespace'', ''cert-manager'',
                    ''--timeout'', ''5m''] w1
              in (res, w2)))"

fun non_empty :: "string list \<Rightarrow> string list \<Rightarrow> string list" where
  "non_empty res [] = res"
| "non_empty res (element # elements) =
     (if element \<noteq> '''' then non_empty (res @ [element]) elements else non_empty res elements)"

definition GetNonEmptyLines :: "string \<Rightarrow> string list" where
  "GetNonEmptyLines output = non_empty [] (split_on newline output)"

definition certManagerCRDs :: "string list" where
  "certManagerCRDs =
     [''certificates.cert-manager.io'', ''issuers.cert-manager.io'', ''clusterissuers.cert-manager.io'',
      ''certificaterequests.cert-manager.io'', ''orders.acme.cert-manager.io'',
      ''challenges.acme.cert-manager.io'']"

definition any_crd :: "string list \<Rightarrow> string list \<Rightarrow> bool" where
  "any_crd crds crdList = list_ex (\<lambda>crd. list_ex (\<lambda>line. str_contains line crd) crdList) crds"

definition IsCertManagerCRDsInstalled :: "e2e_env \<Rightarrow> e2e_world \<Rightarrow> bool \<times> e2e_world" where
  "IsCertManagerCRDsInstalled K w =
     (let ((output, res), w1) = Run K [''kubectl'', ''get'', ''crds''] w
      in case res of
           Some err \<Rightarrow> (False, w1)
         | None \<Rightarrow> (any_crd certManagerCRDs (GetNonEmptyLines output), w1))"

definition LoadImageToKindClusterWithName :: "e2e_env \<Rightarrow> string \<Rightarrow> e2e_world \<Rightarrow> goerror option \<times> e2e_world" where
  "LoadImageToKindClusterWithName K name w =
     (let cluster = (case lookup_env K ''KIND_CLUSTER'' of Some v \<Rightarrow> v | None \<Rightarrow> defaultKindCluster);
          kindOptions = [''load'', ''docker-image'', name, ''--name'', cluster];
          kindBinary = (case lookup_env K ''KIND'' of Some v \<Rightarrow> v | None \<Rightarrow> defaultKindBinary);
          ((output, res), w1) = Run K (kindBinary # kindOptions) w
      in (res, w1))"

subsection \<open>UncommentCode\<close>

text \<open>
  \<open>bufio.Scanner\<close> with its line splitting: the ends of line and a carriage return before them are
  dropped, and so is an empty last line. A line that does not fit the scanner's buffer of 64 KiB
  ends the scan; the code does not ask for the error.
\<close>

definition max_line :: nat where "max_line = 65536"

definition drop_cr :: "string \<Rightarrow> string" where
  "drop_cr line = (if line \<noteq> [] \<and> last line = carriage_return then butlast line else line)"

fun scan_pieces :: "string list \<Rightarrow> string list" where
  "scan_pieces [] = []"
| "scan_pieces [piece] = (if piece = [] \<or> max_line \<le> length piece then [] else [drop_cr piece])"
| "scan_pieces (piece # pieces) =
     (if max_line \<le> length piece then [] else drop_cr piece # scan_pieces pieces)"

definition scan_lines :: "string \<Rightarrow> string list" where
  "scan_lines s = scan_pieces (split_on newline s)"

text \<open>The loop that writes the lines, from the second on with a line feed before each.\<close>

fun write_lines :: "string \<Rightarrow> string \<Rightarrow> string list \<Rightarrow> string" where
  "write_lines prefix out [] = out"
| "write_lines prefix out [line] = out @ trim_prefix line prefix"
| "write_lines prefix out (line # rest) =
     write_lines prefix (out @ trim_prefix line prefix @ [newline]) rest"

definition UncommentCode ::
    "e2e_env \<Rightarrow> string \<Rightarrow> string \<Rightarrow> string \<Rightarrow> e2e_world \<Rightarrow> goerror option \<times> e2e_world" where
  "UncommentCode K filename target prefix w =
     (case (case ex_read_error K filename of
              Some err \<Rightarrow> Inl err
            | None \<Rightarrow> (case ew_files w filename of
                 None \<Rightarrow> Inl (''open '' @ filename @ '': no such file or directory'') | Some c \<Rightarrow> Inr c)) of
        Inl err \<Rightarrow> (Some (''failed to read file '' @ quoted filename @ '': '' @ err), w)
      | Inr content \<Rightarrow>
          (case str_index content target of
             None \<Rightarrow> (Some (''unable to find the code '' @ quoted target @ '' to be uncommented''), w)
           | Some idx \<Rightarrow>
               (case scan_lines target of
                  [] \<Rightarrow> (None, w)
                | lines \<Rightarrow>
                    (let out = write_lines prefix (take idx content) lines @ drop (idx + length target) content
                     in case ex_write_error K filename of
                          Some (err, left) \<Rightarrow>
                            (Some (''failed to write file '' @ quoted filename @ '': '' @ err),
                             w\<lparr>ew_files := (ew_files w)(filename := left)\<rparr>)
                        | None \<Rightarrow> (None, w\<lparr>ew_files := (ew_files w)(filename \<mapsto> out)\<rparr>)))))"

subsection \<open>What the helpers do\<close>

lemma non_empty_filter: "non_empty res elements = res @ filter (\<lambda>l. l \<noteq> []) elements"
  by (induction elements arbitrary: res) auto

lemma GetNonEmptyLines_spec: "GetNonEmptyLines output = filter (\<lambda>l. l \<noteq> []) (split_on newline output)"
  by (simp add: GetNonEmptyLines_def non_empty_filter)

text \<open>Splitting the output into lines makes no difference: the names hold no line feed.\<close>

lemma contains_line:
  assumes "newline \<notin> set crd" and "crd \<noteq> []"
  shows "list_ex (\<lambda>line. str_contains line crd) (GetNonEmptyLines out) \<longleftrightarrow> str_contains out crd"
proof -
  have step: "str_contains (c # cs) crd \<longleftrightarrow> is_prefix crd (c # cs) \<or> str_contains cs crd" for c cs
    by (auto simp: str_contains_def)
  have nl: "\<not> is_prefix crd (newline # cs)" for cs
    using assms by (cases crd) auto
  have pre: "is_prefix p (w @ newline # s) \<longleftrightarrow> is_prefix p w" if "newline \<notin> set p" for p w s
    using that by (induction p w rule: is_prefix.induct) auto
  have one: "str_contains (w @ newline # s) crd \<longleftrightarrow> str_contains w crd \<or> str_contains s crd" for w s
  proof (induction w)
    case Nil
    then show ?case using assms(2) by (simp add: step nl) (simp add: str_contains_def)
  next
    case (Cons c w)
    then show ?case using pre [OF assms(1), of "c # w" s] by (simp add: step)
  qed
  have "list_ex (\<lambda>line. str_contains line crd) (split_on newline out) \<longleftrightarrow> str_contains out crd"
  proof (induction "length out" arbitrary: out rule: less_induct)
    case less
    show ?case
    proof (cases "newline \<in> set out")
      case False
      then show ?thesis by (simp add: split_on_id)
    next
      case True
      then obtain w s where o: "out = w @ newline # s" "newline \<notin> set w"
        by (meson split_list_first)
      then show ?thesis using less [of s] by (simp add: split_on_append_sep one)
    qed
  qed
  moreover have "list_ex (\<lambda>line. str_contains line crd) (filter (\<lambda>l. l \<noteq> []) ls) \<longleftrightarrow>
      list_ex (\<lambda>line. str_contains line crd) ls" for ls
    using assms(2) by (induction ls) (auto simp: str_contains_def)
  ultimately show ?thesis by (simp add: GetNonEmptyLines_spec)
qed

lemma certManagerCRDs_plain: "crd \<in> set certManagerCRDs \<Longrightarrow> newline \<notin> set crd \<and> crd \<noteq> []"
  by (auto simp: certManagerCRDs_def newline_def)

text \<open>The check succeeds when the command did and its output names one of the definitions.\<close>

lemma IsCertManagerCRDsInstalled_spec:
  assumes "IsCertManagerCRDsInstalled K w = (installed, w')"
    and "Run K [''kubectl'', ''get'', ''crds''] w = ((out, res), w1)"
  shows "installed \<longleftrightarrow> res = None \<and> (\<exists>crd \<in> set certManagerCRDs. str_contains out crd)" and "w' = w1"
  using assms certManagerCRDs_plain contains_line
  by (auto simp: IsCertManagerCRDsInstalled_def any_crd_def list_ex_iff [of _ certManagerCRDs] split: option.splits)

lemma Run_effect:
  assumes "Run K args w = ((out, res), w')"
  shows "ew_files w' = ew_files w"
    and "map fst (ew_runs w') = map fst (ew_runs w) @ [args]"
    and "ew_cwd w' = ew_cwd w \<or> ew_cwd w' = fst (GetProjectDir K w)"
  using assms by (auto simp: Run_def ginkgo_def Let_def split: prod.splits option.splits)

lemma UncommentCode_not_found:
  "ew_files w filename = Some content \<Longrightarrow> ex_read_error K filename = None \<Longrightarrow> \<not> str_contains content target \<Longrightarrow>
   UncommentCode K filename target prefix w =
     (Some (''unable to find the code '' @ quoted target @ '' to be uncommented''), w)"
  by (simp add: UncommentCode_def str_contains_def)

text \<open>Uncommenting: every line of the target loses the prefix, and nothing else of the file changes.
  The target is the prefixed lines \<open>ls\<close>; its lines fit the scanner, none ends in a carriage return
  and the last one is not empty.\<close>

definition plain_line :: "string \<Rightarrow> string \<Rightarrow> bool" where
  "plain_line prefix line \<longleftrightarrow> newline \<notin> set (prefix @ line) \<and> length (prefix @ line) < max_line \<and>
     drop_cr (prefix @ line) = prefix @ line"

lemma scan_pieces_plain:
  assumes "list_all (plain_line prefix) ls" and "ls \<noteq> []" and "prefix @ last ls \<noteq> []"
  shows "scan_pieces (map (\<lambda>l. prefix @ l) ls) = map (\<lambda>l. prefix @ l) ls"
  using assms
proof (induction ls)
  case (Cons l ls)
  then show ?case by (cases ls) (auto simp: plain_line_def)
qed simp

lemma write_lines_plain:
  "write_lines prefix out (map (\<lambda>l. prefix @ l) ls) = out @ join_with [newline] ls"
proof (induction ls arbitrary: out)
  case (Cons l ls)
  then show ?case by (cases ls) (auto simp: trim_prefix_def)
qed simp

lemma UncommentCode_spec:
  assumes readable: "ew_files w filename = Some content" "ex_read_error K filename = None"
    and lines: "list_all (plain_line prefix) ls" "ls \<noteq> []" "prefix @ last ls \<noteq> []"
    and target: "target = join_with [newline] (map (\<lambda>l. prefix @ l) ls)"
    and found: "str_index content target = Some idx" and ok: "ex_write_error K filename = None"
  shows "\<exists>pre post. content = pre @ target @ post \<and> length pre = idx \<and>
    UncommentCode K filename target prefix w =
      (None, w\<lparr>ew_files := (ew_files w)(filename \<mapsto> pre @ join_with [newline] ls @ post)\<rparr>)"
proof -
  have "split_on newline target = map (\<lambda>l. prefix @ l) ls"
    unfolding target by (rule split_join) (use lines(1, 2) in \<open>auto simp: list_all_iff plain_line_def\<close>)
  then have scan: "scan_lines target = map (\<lambda>l. prefix @ l) ls"
    by (simp add: scan_lines_def scan_pieces_plain [OF lines])
  obtain x xs where xs: "map (\<lambda>l. prefix @ l) ls = x # xs" using lines(2) by (cases ls) auto
  have c: "content = take idx content @ target @ drop (idx + length target) content" "idx \<le> length content"
    using str_index_Some [OF found] by simp_all
  have "UncommentCode K filename target prefix w =
      (None, w\<lparr>ew_files := (ew_files w)(filename \<mapsto>
        take idx content @ join_with [newline] ls @ drop (idx + length target) content)\<rparr>)"
    using write_lines_plain [of prefix "take idx content" ls]
    by (simp add: UncommentCode_def readable found ok scan xs Let_def)
  with c show ?thesis
    by (intro exI [of _ "take idx content"] exI [of _ "drop (idx + length target) content"]) simp
qed

end
