(* ===== verification/Spec2Isabelle.thy ===== *)
theory Spec2Isabelle
  imports GatewayMain Watches OperatorMain DeepCopy E2eUtils
begin

text \<open>
  \<^bold>\<open>VoxPlatform: the gateway and the operator\<close>

  The repository holds a speech platform written in Go. The gateway (\<open>cmd/gateway\<close>,
  \<open>internal/gateway\<close>) is an HTTP server that forwards audio to model backends: transcription of an
  upload, a pipeline of transcription, diarization and summary, and a WebSocket session that cuts a
  stream of frames into WAV files. The operator (\<open>operator/\<close>) is a Kubernetes controller manager
  with three custom resources: VoiceModel (a model server: a Deployment and a Service),
  InferencePipeline (a chain of models whose readiness it reports) and EvalRun (a regression check
  run as an Argo Workflow). This library models both as HOL functions and proves what makes them
  correct. The two meet only through the addresses the operator publishes and the gateway is
  configured with.

  \<^bold>\<open>How the code is modelled\<close>

  A handler or a reconciler is a function of an environment, its input and a world. The environment
  holds what is not code of the repository: readings of the clock, random bytes, the answers of the
  network and of the API server, the failures of the file system, the WebSocket library, the
  Prometheus client. The n-th call gets the n-th answer, so nothing is assumed of it unless a
  theorem names a hypothesis. The world records what the code did: outgoing requests, log entries,
  metrics, API calls. Errors are values of a sum or option type, a panic is an outcome. Go strings
  are lists of bytes read as characters; JSON values are a datatype with the decoding rules of
  \<open>encoding/json\<close>; times and durations are integers in nanoseconds; floating-point numbers that are
  only measured, printed and passed on are rationals; the fields of the WAV header are 16 and 32 bit
  words with their wrap-around.

  \<^bold>\<open>Theories\<close>

  \<^item> \<open>Prelude\<close>, \<open>GoStrings\<close>, \<open>GoTime\<close>, \<open>Json\<close>: base types, rewrite collections, and the parts of
    Go's standard library the code uses (strings, numbers as text, paths, date formats, JSON).
  \<^item> \<open>Http\<close>: requests with their forms, the response writer and the wrapper of
    \<open>middleware.go\<close>, outgoing requests, environment and world.
  \<^item> \<open>Config\<close> (\<open>config.go\<close>), \<open>ApiErrors\<close> (\<open>errors.go\<close>, \<open>writeJSON\<close>, \<open>RequestIDFromContext\<close>),
    \<open>Middleware\<close> (\<open>middleware.go\<close>, \<open>request_id.go\<close>), \<open>EventLog\<close> (\<open>eventlog.go\<close>), \<open>Proxy\<close>
    (\<open>proxy.go\<close>), \<open>Handlers\<close> (\<open>handlers.go\<close>), \<open>Pipeline\<close> (\<open>pipeline.go\<close>), \<open>Stream_Session\<close>
    (\<open>stream.go\<close>), \<open>Server\<close> (\<open>server.go\<close>), \<open>GatewayMain\<close> (\<open>cmd/gateway/main.go\<close>): the gateway.
  \<^item> \<open>ApiTypes\<close> (\<open>operator/api/v1alpha1\<close>), \<open>Kube\<close> (the cluster objects and the API client),
    \<open>VoiceModelController\<close>, \<open>PipelineController\<close>, \<open>EvalRunController\<close>
    (\<open>operator/internal/controller\<close>), \<open>OperatorMain\<close> (\<open>operator/cmd/main.go\<close>): the operator.
  \<^item> \<open>GoMemory\<close>, \<open>DeepCopy\<close> (\<open>zz_generated.deepcopy.go\<close>): a heap with pointers and slices, and the
    generated copies of the resources on it.
  \<^item> \<open>Operator\<close>: the controllers on one cluster; \<open>Access\<close>: their access markers;
    \<open>Watches\<close>: the registrations of the types (\<open>groupversion_info.go\<close>) and of the controllers
    (\<open>SetupWithManager\<close>), and what a change of an object wakes.
  \<^item> \<open>E2eUtils\<close> (\<open>operator/test/utils\<close>): the helpers of the end-to-end tests.

  Each theory of a component holds its records, one definition per function, method or stage in the
  code's order and with the code's names, then the lemmas, then the properties with their witnesses.

  \<^bold>\<open>Interfaces\<close>

  The locales state what one component relies on in another and are interpreted on the code's
  definitions: \<open>event_log\<close> and \<open>durable_event_log\<close> (the interface \<open>EventLogger\<close>; local files, the
  bucket and no log), \<open>middleware\<close>, \<open>middleware_pair\<close> and \<open>id_keeping\<close> (what a middleware makes of
  a handler that keeps the handler contract; the four middlewares and their stacks), \<open>audio_queue\<close>
  (what the two goroutines of a session rely on in the buffer), \<open>status_setter\<close> (the transition time
  of a status; two controllers), \<open>reconciler\<close> (the calls of a reconciliation; three
  controllers), and \<open>heap_view\<close> with its extension \<open>deep_copy\<close> (what the caller of a copying function
  relies on; the structures without foreign parts are interpretations, for the others the contract
  follows from that of the API machinery).

  \<^bold>\<open>What the theorems show\<close>

  \<^item> Gateway, requests: every response carries a request id, is counted and logged once with the
    status the client saw, a panic becomes a 500 that tells nothing, unknown routes reach no handler
    (\<open>Server\<close>); transcription and the probes answer as their backends do (\<open>Handlers\<close>); no backend is
    handed more than 32 MiB of file data.
  \<^item> Gateway, pipeline: the stages that run, the requests they make, the events they log and the
    response agree; the event log is an observer that cannot change the result; what the local
    files and the bucket hold after a run, and that requests do not disturb each other there.
  \<^item> Gateway, streaming: the WAV files are well formed; for every interleaving of the two
    goroutines no audio is lost, doubled or reordered, all of it is sent when the voice detector
    never says silence, and the session ends; and the schedule in which a frame with speech is
    left waiting.
  \<^item> Operator: what each reconciliation writes for every answer of the API server; finalizers and
    deletion; the life of an EvalRun over any history of reconciliations with stale reads and
    rejected writes; idempotence; that models and pipelines together become ready; that every call
    is permitted by the access markers and no kind of object has two writers; that a change of an
    object a reconciliation has read wakes it again; that the generated deep copies share no memory
    with their originals; start-up order and safe defaults of the flags.

  \<^bold>\<open>Fuel and bounds\<close>

  The JSON parser spends fuel; one more than twice the length of the text is enough and more
  changes nothing (\<open>parse_value_fuel\<close>). All other recursion is structural or has a measure. A
  streaming session runs under a schedule; eight turns of the reader per message still to be read,
  and a few for the frame in work, bring it to its end (\<open>stream_session_terminates\<close>).

  \<^bold>\<open>Granularity of the session\<close>

  The goroutines of \<open>stream.go\<close> interleave at the critical sections of the buffer's mutex, its
  unlocked read of \<open>totalBytes\<close>, and the network calls between them. Reads of the connection come
  from the client in their order; writes to it are recorded.

  \<^bold>\<open>Not modelled\<close>

  Logging through \<open>slog\<close> and the controllers' loggers has no effect on the results and is left out.
  The transport below HTTP, its time-outs and cancellation appear as errors of calls. The texts of
  the Prometheus metrics and their buckets are left to the client. The Python client, evaluation harness and model services, the charts and the
  infrastructure code are not Go code of the two programs.
\<close>

end
